theory Spec2Isabelle
  imports Main
begin

section \<open>Timestamps and messages\<close>

text \<open>
  A ROS \<open>builtin_interfaces/Time\<close> message: whole seconds and nanoseconds. Python integers
  are unbounded, so both fields are \<open>int\<close>.
\<close>

record Time =
  sec :: int
  nanosec :: int

text \<open>
  Modelled from the spec: \<open>angel_utils.conversion.time_to_int\<close> is imported by both nodes
  but its file is not among the sources. The spec's TimeIndex "converts a stream-native
  timestamp into a monotonic integer nanosecond key"; for a seconds/nanoseconds pair that key
  is the number of nanoseconds. No theorem below unfolds this definition except to evaluate
  a concrete timestamp.
\<close>

definition time_to_int :: "Time \<Rightarrow> int" where
  "time_to_int t = sec t * 1000000000 + nanosec t"

text \<open>
  The messages, with the fields the two nodes read. The remaining content of a message
  (pixel data, joint poses, boxes, labels, confidences) is never inspected by the buffering
  code; it is carried as one opaque payload number.
\<close>

record Image =
  img_header_stamp :: Time
  img_data :: nat

record HandJointPosesUpdate =
  hjp_header_stamp :: Time
  hjp_source_stamp :: Time
  hjp_hand :: string
  hjp_joints :: "nat list"

record ObjectDetection2dSet =
  ods_header_stamp :: Time
  ods_source_stamp :: Time
  ods_num_detections :: int
  ods_body :: nat

text \<open>
  Python exceptions raised by the modelled code; \<open>NoActivityClassification\<close> is the
  exception class of activity\_classifier\_tcn.py.
\<close>

datatype py_error = ValueError | IndexError | RuntimeError | KeyError | NoActivityClassification

text \<open>
  A method that mutates its object and may raise returns the outcome together with the
  object's state at that moment, so that what a raise leaves behind is visible.
\<close>

datatype 'a outcome = Returned 'a | Raised py_error

section \<open>InputBuffer (uho\_activity\_detector.py)\<close>

text \<open>
  The dataclass \<open>InputBuffer\<close>: four deques in arrival order (index 0 is the left end) and the
  hand-message tolerance. The reentrant lock is not modelled: every method body runs under
  it, so each method is one atomic state transformer.
\<close>

record InputBuffer =
  hand_msg_tolerance_nsec :: int
  frames :: "(Time \<times> nat) list"
  hand_pose_left :: "HandJointPosesUpdate list"
  hand_pose_right :: "HandJointPosesUpdate list"
  obj_dets :: "ObjectDetection2dSet list"

text \<open>The dataclass \<open>InputWindow\<close>; its fields carry the prefix \<open>w_\<close>.\<close>

record InputWindow =
  w_frames :: "(Time \<times> nat) list"
  w_hand_pose_left :: "HandJointPosesUpdate option list"
  w_hand_pose_right :: "HandJointPosesUpdate option list"
  w_obj_dets :: "ObjectDetection2dSet option list"

definition new_InputBuffer :: "int \<Rightarrow> InputBuffer" where
  "new_InputBuffer tol =
     \<lparr>hand_msg_tolerance_nsec = tol, frames = [], hand_pose_left = [],
      hand_pose_right = [], obj_dets = []\<rparr>"

text \<open>
  \<open>queue_image\<close>: the decoded pixel array (\<open>BRIDGE.imgmsg_to_cv2\<close>, an external
  conversion) is the message's opaque payload.
\<close>

definition queue_image :: "InputBuffer \<Rightarrow> Image \<Rightarrow> InputBuffer" where
  "queue_image b msg = b\<lparr>frames := frames b @ [(img_header_stamp msg, img_data msg)]\<rparr>"

text \<open>
  \<open>queue_hand_pose\<close>: the deque is chosen, or \<open>ValueError\<close> raised, before anything is
  appended.
\<close>

definition queue_hand_pose ::
  "InputBuffer \<Rightarrow> HandJointPosesUpdate \<Rightarrow> unit outcome \<times> InputBuffer" where
  "queue_hand_pose b msg =
     (if hjp_hand msg = ''Right''
      then (Returned (), b\<lparr>hand_pose_right := hand_pose_right b @ [msg]\<rparr>)
      else if hjp_hand msg = ''Left''
      then (Returned (), b\<lparr>hand_pose_left := hand_pose_left b @ [msg]\<rparr>)
      else (Raised ValueError, b))"

definition queue_object_detections :: "InputBuffer \<Rightarrow> ObjectDetection2dSet \<Rightarrow> InputBuffer" where
  "queue_object_detections b msg = b\<lparr>obj_dets := obj_dets b @ [msg]\<rparr>"

definition hand_msg_to_time_ns :: "HandJointPosesUpdate \<Rightarrow> int" where
  "hand_msg_to_time_ns msg = time_to_int (hjp_header_stamp msg)"

definition objdet_msg_to_time_ns :: "ObjectDetection2dSet \<Rightarrow> int" where
  "objdet_msg_to_time_ns msg = time_to_int (ods_source_stamp msg)"

definition frame_time_ns :: "Time \<times> nat \<Rightarrow> int" where
  "frame_time_ns f = time_to_int (fst f)"

subsection \<open>clear\_before\<close>

text \<open>
  Each of the four loops of \<open>clear_before\<close> is
  \<^verbatim>\<open>while dq and key(dq[0]) < time_nsec: dq.popleft()\<close>.
\<close>

fun popleft_while_before :: "('a \<Rightarrow> int) \<Rightarrow> int \<Rightarrow> 'a list \<Rightarrow> 'a list" where
  "popleft_while_before key time_nsec [] = []"
| "popleft_while_before key time_nsec (x # xs) =
     (if key x < time_nsec then popleft_while_before key time_nsec xs else x # xs)"

definition clear_before :: "InputBuffer \<Rightarrow> int \<Rightarrow> InputBuffer" where
  "clear_before b time_nsec =
     b\<lparr>frames := popleft_while_before frame_time_ns time_nsec (frames b),
       hand_pose_left := popleft_while_before hand_msg_to_time_ns time_nsec (hand_pose_left b),
       hand_pose_right := popleft_while_before hand_msg_to_time_ns time_nsec (hand_pose_right b),
       obj_dets := popleft_while_before objdet_msg_to_time_ns time_nsec (obj_dets b)\<rparr>"

subsection \<open>Matching values to frame times\<close>

text \<open>
  Modelled from the spec: \<open>descending_match_with_tolerance\<close>
  (\<open>angel_system.utils.matching\<close>) is called by \<open>get_window\<close> and
  \<open>get_window_detections\<close>, but its file is not among the sources. The spec (4.1, join
  algorithm) gives its result: one slot per reference timestamp; walking the items from the
  most recent end backward, the slot holds the closest item whose timestamp difference
  magnitude is within the tolerance (inclusive), the smallest absolute difference winning and,
  on equal difference, the most recent item; the slot is \<open>None\<close> if no item qualifies.
  \<open>closest_in_tolerance\<close> is that walk for one reference timestamp over the items in
  most-recent-first order: a later-visited (older) item replaces the candidate only when it
  is strictly closer.
\<close>

fun closest_in_tolerance ::
  "('a \<Rightarrow> int) \<Rightarrow> int \<Rightarrow> int \<Rightarrow> 'a option \<Rightarrow> 'a list \<Rightarrow> 'a option" where
  "closest_in_tolerance time_from_value_fn tol t best [] = best"
| "closest_in_tolerance time_from_value_fn tol t best (v # vs) =
     closest_in_tolerance time_from_value_fn tol t
       (if \<bar>time_from_value_fn v - t\<bar> \<le> tol \<and>
           (case best of None \<Rightarrow> True
            | Some c \<Rightarrow> \<bar>time_from_value_fn v - t\<bar> < \<bar>time_from_value_fn c - t\<bar>)
        then Some v else best) vs"

definition descending_match_with_tolerance ::
  "int list \<Rightarrow> 'a list \<Rightarrow> int \<Rightarrow> ('a \<Rightarrow> int) \<Rightarrow> 'a option list" where
  "descending_match_with_tolerance key_times vals tol time_from_value_fn =
     map (\<lambda>t. closest_in_tolerance time_from_value_fn tol t None (rev vals)) key_times"

subsection \<open>Window extraction\<close>

text \<open>
  \<^verbatim>\<open>list(itertools.islice(reversed(self.frames), window_size))[::-1]\<close>: \<open>islice\<close> raises
  \<open>ValueError\<close> for a negative stop; otherwise it yields at most \<open>window_size\<close> items of
  the reversed deque, which are reversed back. (The platform's upper limit on the stop
  value, \<open>sys.maxsize\<close>, is not modelled.)
\<close>

definition tail_window :: "'a list \<Rightarrow> int \<Rightarrow> py_error + 'a list" where
  "tail_window dq window_size =
     (if window_size < 0 then Inl ValueError
      else Inr (rev (take (nat window_size) (rev dq))))"

definition get_window_detections ::
  "InputBuffer \<Rightarrow> int \<Rightarrow> py_error + ObjectDetection2dSet option list" where
  "get_window_detections b window_size =
     (case tail_window (frames b) window_size of
        Inl e \<Rightarrow> Inl e
      | Inr window_frames \<Rightarrow>
          let window_frame_times_ns = map (\<lambda>f. time_to_int (fst f)) window_frames in
          Inr (descending_match_with_tolerance window_frame_times_ns (obj_dets b) 0
                 objdet_msg_to_time_ns))"

definition get_window :: "InputBuffer \<Rightarrow> int \<Rightarrow> py_error + InputWindow" where
  "get_window b window_size =
     (let hand_nsec_tol = hand_msg_tolerance_nsec b in
      case tail_window (frames b) window_size of
        Inl e \<Rightarrow> Inl e
      | Inr window_frames \<Rightarrow>
          let window_frame_times = map fst window_frames;
              window_frame_times_ns = map time_to_int window_frame_times;
              window_lhand = descending_match_with_tolerance window_frame_times_ns
                  (hand_pose_left b) hand_nsec_tol hand_msg_to_time_ns;
              window_rhand = descending_match_with_tolerance window_frame_times_ns
                  (hand_pose_right b) hand_nsec_tol hand_msg_to_time_ns;
              window_dets = descending_match_with_tolerance window_frame_times_ns
                  (obj_dets b) 0 objdet_msg_to_time_ns
          in Inr \<lparr>w_frames = window_frames, w_hand_pose_left = window_lhand,
                  w_hand_pose_right = window_rhand, w_obj_dets = window_dets\<rparr>)"

section \<open>UHOActivityDetector (uho\_activity\_detector.py)\<close>

text \<open>
  The node's state as far as its callbacks read or write it: the parameters \<open>top_k\<close> and
  \<open>frames_per_det\<close> and the input buffer. The constructor builds the buffer with
  \<open>int((5 / 60.0) * 1e9)\<close> as tolerance, which is 83333333.
\<close>

record UHOActivityDetector =
  topk :: int
  frames_per_det :: int
  input_buffer :: InputBuffer

definition new_UHOActivityDetector :: "int \<Rightarrow> int \<Rightarrow> UHOActivityDetector" where
  "new_UHOActivityDetector top_k fpd =
     \<lparr>topk = top_k, frames_per_det = fpd, input_buffer = new_InputBuffer 83333333\<rparr>"

definition image_callback ::
  "UHOActivityDetector \<Rightarrow> Image \<Rightarrow> unit outcome \<times> UHOActivityDetector" where
  "image_callback n img = (Returned (), n\<lparr>input_buffer := queue_image (input_buffer n) img\<rparr>)"

definition hand_callback ::
  "UHOActivityDetector \<Rightarrow> HandJointPosesUpdate \<Rightarrow> unit outcome \<times> UHOActivityDetector" where
  "hand_callback n hand_pose =
     (case queue_hand_pose (input_buffer n) hand_pose of
        (r, b) \<Rightarrow> (r, n\<lparr>input_buffer := b\<rparr>))"

text \<open>
  \<open>obj_det_callback\<close>. After the early return for a message with fewer than \<open>top_k\<close>
  detections, the message is queued and the debugging block runs: when at least five slots
  of the detection window are filled, the window is extracted and the buffer is cleared
  before one nanosecond past the window's first frame. \<open>breakpoint()\<close> hands control to a
  debugger and does not change the node; it is a no-op here. Logging is not modelled.
\<close>

definition obj_det_callback ::
  "UHOActivityDetector \<Rightarrow> ObjectDetection2dSet \<Rightarrow> unit outcome \<times> UHOActivityDetector" where
  "obj_det_callback n msg =
     (if ods_num_detections msg < topk n then (Returned (), n)
      else
        let b1 = queue_object_detections (input_buffer n) msg in
        case get_window_detections b1 (frames_per_det n) of
          Inl e \<Rightarrow> (Raised e, n\<lparr>input_buffer := b1\<rparr>)
        | Inr window_dets \<Rightarrow>
            if 5 \<le> length (filter (\<lambda>d. d \<noteq> None) window_dets)
            then
              (case get_window b1 (frames_per_det n) of
                 Inl e \<Rightarrow> (Raised e, n\<lparr>input_buffer := b1\<rparr>)
               | Inr win \<Rightarrow>
                   (case w_frames win of
                      [] \<Rightarrow> (Raised IndexError, n\<lparr>input_buffer := b1\<rparr>)
                    | f # _ \<Rightarrow>
                        let clean_ts = time_to_int (fst f) + 1 in
                        (Returned (), n\<lparr>input_buffer := clear_before b1 clean_ts\<rparr>)))
            else (Returned (), n\<lparr>input_buffer := b1\<rparr>))"

text \<open>
  The messages the transport delivers to the node, and the node after a sequence of
  deliveries. A callback that raises leaves the node as it was at the raise; the run goes on
  from there, so every state the node can be in after any deliveries is covered.
\<close>

datatype delivery =
  ImageMsg Image | HandMsg HandJointPosesUpdate | ObjDetMsg ObjectDetection2dSet

fun deliver :: "UHOActivityDetector \<Rightarrow> delivery \<Rightarrow> UHOActivityDetector" where
  "deliver n (ImageMsg m) = snd (image_callback n m)"
| "deliver n (HandMsg m) = snd (hand_callback n m)"
| "deliver n (ObjDetMsg m) = snd (obj_det_callback n m)"

definition deliver_all :: "UHOActivityDetector \<Rightarrow> delivery list \<Rightarrow> UHOActivityDetector" where
  "deliver_all n ms = foldl deliver n ms"

section \<open>ActivityClassifierTCN (activity\_classifier\_tcn.py)\<close>

subsection \<open>The node's input buffer\<close>

text \<open>
  Modelled from the spec: the node's buffer and window classes
  (\<open>angel_utils.activity_classification.InputBuffer\<close> and \<open>InputWindow\<close>) are imported
  but their file is not among the sources. The node reads \<open>frames\<close>, \<open>obj_dets\<close> and
  \<open>patient_joint_kps\<close> of a window, and calls \<open>get_window\<close>, \<open>clear_before\<close>,
  \<open>latest_time\<close> and the three queueing methods of the buffer. Following the spec's
  TemporalBuffer (4.1): a queueing method appends to the tail of its stream; a window holds
  at most \<open>size\<close> frames from the tail of the frame sequence, its trailing edge pinned to the
  most recent frame with an associated detection when the anchor asks for it, with the
  detection and pose slots joined to the frames by the tolerance join (detections exactly,
  poses within the buffer's tolerance, both by source timestamp); \<open>latest_time\<close> fails
  when no frame is buffered (the node catches \<open>RuntimeError\<close>). \<open>clear_before\<close> is the
  eviction loop of the \<open>InputBuffer\<close> above, each stream independently. A frame is a
  timestamp paired with its frame number (the node queues no pixel data).
\<close>

record TcnBuffer =
  tb_tolerance_nsec :: int
  tb_frames :: "(Time \<times> nat) list"
  tb_obj_dets :: "ObjectDetection2dSet list"
  tb_patient_joint_kps :: "HandJointPosesUpdate list"

record TcnWindow =
  tw_frames :: "(Time \<times> nat) list"
  tw_obj_dets :: "ObjectDetection2dSet option list"
  tw_patient_joint_kps :: "HandJointPosesUpdate option list"

definition new_TcnBuffer :: "int \<Rightarrow> TcnBuffer" where
  "new_TcnBuffer tol =
     \<lparr>tb_tolerance_nsec = tol, tb_frames = [], tb_obj_dets = [], tb_patient_joint_kps = []\<rparr>"

definition pose_msg_to_time_ns :: "HandJointPosesUpdate \<Rightarrow> int" where
  "pose_msg_to_time_ns msg = time_to_int (hjp_source_stamp msg)"

definition tb_queue_image :: "TcnBuffer \<Rightarrow> Time \<Rightarrow> nat \<Rightarrow> bool \<times> TcnBuffer" where
  "tb_queue_image b header_stamp image_frame_number =
     (True, b\<lparr>tb_frames := tb_frames b @ [(header_stamp, image_frame_number)]\<rparr>)"

definition tb_queue_object_detections ::
  "TcnBuffer \<Rightarrow> ObjectDetection2dSet \<Rightarrow> bool \<times> TcnBuffer" where
  "tb_queue_object_detections b msg = (True, b\<lparr>tb_obj_dets := tb_obj_dets b @ [msg]\<rparr>)"

definition tb_queue_joint_keypoints ::
  "TcnBuffer \<Rightarrow> HandJointPosesUpdate \<Rightarrow> bool \<times> TcnBuffer" where
  "tb_queue_joint_keypoints b msg =
     (True, b\<lparr>tb_patient_joint_kps := tb_patient_joint_kps b @ [msg]\<rparr>)"

definition tb_latest_time :: "TcnBuffer \<Rightarrow> py_error + Time" where
  "tb_latest_time b =
     (case tb_frames b of [] \<Rightarrow> Inl RuntimeError | _ \<Rightarrow> Inr (fst (last (tb_frames b))))"

definition tb_clear_before :: "TcnBuffer \<Rightarrow> int \<Rightarrow> TcnBuffer" where
  "tb_clear_before b time_nsec =
     b\<lparr>tb_frames := popleft_while_before frame_time_ns time_nsec (tb_frames b),
       tb_obj_dets := popleft_while_before objdet_msg_to_time_ns time_nsec (tb_obj_dets b),
       tb_patient_joint_kps :=
         popleft_while_before pose_msg_to_time_ns time_nsec (tb_patient_joint_kps b)\<rparr>"

definition frames_to_leading_object ::
  "ObjectDetection2dSet list \<Rightarrow> (Time \<times> nat) list \<Rightarrow> (Time \<times> nat) list" where
  "frames_to_leading_object dets fs =
     rev (dropWhile (\<lambda>f. \<forall>d\<in>set dets. objdet_msg_to_time_ns d \<noteq> frame_time_ns f) (rev fs))"

definition tb_get_window :: "TcnBuffer \<Rightarrow> int \<Rightarrow> bool \<Rightarrow> py_error + TcnWindow" where
  "tb_get_window b window_size have_leading_object =
     (case tail_window
             (if have_leading_object then frames_to_leading_object (tb_obj_dets b) (tb_frames b)
              else tb_frames b) window_size of
        Inl e \<Rightarrow> Inl e
      | Inr window_frames \<Rightarrow>
          let window_frame_times_ns = map (\<lambda>f. time_to_int (fst f)) window_frames in
          Inr \<lparr>tw_frames = window_frames,
               tw_obj_dets = descending_match_with_tolerance window_frame_times_ns
                  (tb_obj_dets b) 0 objdet_msg_to_time_ns,
               tw_patient_joint_kps = descending_match_with_tolerance window_frame_times_ns
                  (tb_patient_joint_kps b) (tb_tolerance_nsec b) pose_msg_to_time_ns\<rparr>)"

subsection \<open>Node state\<close>

text \<open>
  The structures \<open>_process_window\<close> builds from messages: \<open>ObjectDetectionsLTRB\<close> from a
  detection set (its id and the message's opaque content) and \<open>PatientPose\<close> from one joint
  (id, the joint's opaque position, the keypoint category).
\<close>

datatype ObjectDetectionsLTRB = ObjectDetectionsLTRB int nat

datatype PatientPose = PatientPose int nat string

record ActivityDetection =
  ad_source_stamp_start_frame :: Time
  ad_source_stamp_end_frame :: Time
  ad_conf_vec :: "nat list"

text \<open>
  Calls that leave the node while a window is processed, in order: the construction of a
  detection structure or of the pose structures for a message id, and the call of
  \<open>objects_to_feats\<close> with the per-frame structures it is given.
\<close>

datatype ext_call =
  MakeDetections int
| MakePoses int
| ObjectsToFeats "ObjectDetectionsLTRB option list" "PatientPose list option list"

text \<open>
  The collaborators of \<open>_process_window\<close>, outside the sources: \<open>objects_to_feats\<close>
  yields the feature tensors (opaque) or raises \<open>ValueError\<close> (\<open>None\<close> here), and
  \<open>predict\<close> yields the confidence vector.
\<close>

record Externals =
  ext_objects_to_feats ::
    "ObjectDetectionsLTRB option list \<Rightarrow> PatientPose list option list \<Rightarrow> nat option"
  ext_predict :: "nat \<Rightarrow> nat list"

text \<open>
  The fields of the node that the runtime loop and \<open>_process_window\<close> read or write, with
  the prefix \<open>n_\<close>. \<open>n_coco_input_mode\<close> is \<open>self._coco_load_thread is not None\<close>;
  \<open>n_published\<close> collects what is handed to the activity publisher and \<open>n_ext_calls\<close>
  the calls described above. A heap (\<open>heapq\<close> on a list) is kept as the ascending list of
  its keys: \<open>h[0]\<close> is the head, \<open>heappop\<close> removes it, \<open>heappush\<close> inserts in order.
  The results collector, the rate tracker and logging are not modelled.
\<close>

record ActivityClassifierTCN =
  n_current_frame_number :: int
  n_window_size :: int
  n_buffer_max_size_nsec :: int
  n_window_lead_with_objects :: bool
  n_coco_input_mode :: bool
  n_buffer :: TcnBuffer
  n_window_extracted_time_ns :: "int option"
  n_window_processed_time_ns :: "int option"
  n_memo_preproc_input :: "int \<rightharpoonup> ObjectDetectionsLTRB"
  n_memo_preproc_input_id_heap :: "int list"
  n_memo_preproc_input_poses :: "int \<rightharpoonup> PatientPose list"
  n_memo_preproc_input_id_heap_poses :: "int list"
  n_memo_objects_to_feats :: "int \<rightharpoonup> nat"
  n_memo_objects_to_feats_id_heap :: "int list"
  n_queued_pose_memo :: "int \<rightharpoonup> nat"
  n_published :: "ActivityDetection list"
  n_ext_calls :: "ext_call list"

definition new_ActivityClassifierTCN ::
  "int \<Rightarrow> int \<Rightarrow> bool \<Rightarrow> bool \<Rightarrow> ActivityClassifierTCN" where
  "new_ActivityClassifierTCN window_size buffer_max_size_nsec window_leads_with_objects
       coco_input =
     \<lparr>n_current_frame_number = - 1,
      n_window_size = window_size, n_buffer_max_size_nsec = buffer_max_size_nsec,
      n_window_lead_with_objects = window_leads_with_objects, n_coco_input_mode = coco_input,
      n_buffer = new_TcnBuffer 0,
      n_window_extracted_time_ns = None, n_window_processed_time_ns = None,
      n_memo_preproc_input = Map.empty, n_memo_preproc_input_id_heap = [],
      n_memo_preproc_input_poses = Map.empty, n_memo_preproc_input_id_heap_poses = [],
      n_memo_objects_to_feats = Map.empty, n_memo_objects_to_feats_id_heap = [],
      n_queued_pose_memo = Map.empty, n_published = [], n_ext_calls = []\<rparr>"

definition heappush :: "int list \<Rightarrow> int \<Rightarrow> int list" where
  "heappush h x = insort x h"

subsection \<open>Window criteria\<close>

definition window_criterion_correct_size :: "ActivityClassifierTCN \<Rightarrow> TcnWindow \<Rightarrow> bool" where
  "window_criterion_correct_size n window = (int (length (tw_frames window)) = n_window_size n)"

definition window_criterion_new_leading_frame ::
  "ActivityClassifierTCN \<Rightarrow> TcnWindow \<Rightarrow> bool" where
  "window_criterion_new_leading_frame n window =
     (if length (tw_frames window) = 0 then False
      else
        let cur_leading_time_ns = time_to_int (fst (last (tw_frames window)));
            prev_leading_time_ns = n_window_processed_time_ns n
        in case prev_leading_time_ns of
             Some prev \<Rightarrow> if \<not> prev < cur_leading_time_ns then False else True
           | None \<Rightarrow> True)"

text \<open>
  \<open>None in window.frames\<close> is always false for a list of tuples, which leaves the test on
  the detection slots.
\<close>

definition window_criterion_coco_input_mode ::
  "ActivityClassifierTCN \<Rightarrow> TcnWindow \<Rightarrow> bool" where
  "window_criterion_coco_input_mode n window =
     (if length (tw_frames window) = 0 then True
      else if None \<in> set (tw_obj_dets window) then False
      else True)"

definition window_processing_criterion_fn_list ::
  "ActivityClassifierTCN \<Rightarrow> (ActivityClassifierTCN \<Rightarrow> TcnWindow \<Rightarrow> bool) list" where
  "window_processing_criterion_fn_list n =
     [window_criterion_correct_size, window_criterion_new_leading_frame]
     @ (if n_coco_input_mode n then [window_criterion_coco_input_mode] else [])"

subsection \<open>Processing a window\<close>

definition keypoints_cats :: "string list" where
  "keypoints_cats =
     [''nose'', ''mouth'', ''throat'', ''chest'', ''stomach'', ''left_upper_arm'',
      ''right_upper_arm'', ''left_lower_arm'', ''right_lower_arm'', ''left_wrist'',
      ''right_wrist'', ''left_hand'', ''right_hand'', ''left_upper_leg'', ''right_upper_leg'',
      ''left_knee'', ''right_knee'', ''left_lower_leg'', ''right_lower_leg'', ''left_foot'',
      ''right_foot'', ''back'']"

text \<open>
  \<^verbatim>\<open>[PatientPose(msg_id, pm.pose.position, self.keypoints_cats[i]) for i, pm in enumerate(pose_msg.joints)]\<close>:
  a joint beyond the listed categories raises \<open>IndexError\<close>.
\<close>

fun make_patient_poses :: "int \<Rightarrow> nat \<Rightarrow> nat list \<Rightarrow> py_error + PatientPose list" where
  "make_patient_poses msg_id i [] = Inr []"
| "make_patient_poses msg_id i (pm # pms) =
     (if i < length keypoints_cats
      then (case make_patient_poses msg_id (Suc i) pms of
              Inl e \<Rightarrow> Inl e
            | Inr ps \<Rightarrow> Inr (PatientPose msg_id pm (keypoints_cats ! i) # ps))
      else Inl IndexError)"

text \<open>
  The first loop of \<open>_process_window\<close>, over \<open>enumerate(window.obj_dets)\<close> from index
  \<open>i\<close>: a message whose id is not in the memo gets its structure built, stored and its id
  pushed on the heap; otherwise the stored structure is taken. The structure is then written
  to slot \<open>i\<close> of \<open>frame_object_detections\<close>, which raises \<open>IndexError\<close> past the end of
  that list.
\<close>

fun preproc_detections ::
  "nat \<Rightarrow> ObjectDetection2dSet option list \<Rightarrow> (int \<rightharpoonup> ObjectDetectionsLTRB) \<Rightarrow> int list \<Rightarrow>
   ext_call list \<Rightarrow> ObjectDetectionsLTRB option list \<Rightarrow>
   (py_error + ObjectDetectionsLTRB option list) \<times> (int \<rightharpoonup> ObjectDetectionsLTRB) \<times> int list \<times>
   ext_call list" where
  "preproc_detections i [] memo h calls frame_object_detections =
     (Inr frame_object_detections, memo, h, calls)"
| "preproc_detections i (None # rest) memo h calls frame_object_detections =
     preproc_detections (Suc i) rest memo h calls frame_object_detections"
| "preproc_detections i (Some det_msg # rest) memo h calls frame_object_detections =
     (let msg_id = time_to_int (ods_source_stamp det_msg) in
      case memo msg_id of
        None \<Rightarrow>
          let v = ObjectDetectionsLTRB msg_id (ods_body det_msg);
              memo' = memo(msg_id \<mapsto> v);
              h' = heappush h msg_id;
              calls' = calls @ [MakeDetections msg_id]
          in if i < length frame_object_detections
             then preproc_detections (Suc i) rest memo' h' calls'
                    (frame_object_detections[i := Some v])
             else (Inl IndexError, memo', h', calls')
      | Some v \<Rightarrow>
          if i < length frame_object_detections
          then preproc_detections (Suc i) rest memo h calls (frame_object_detections[i := Some v])
          else (Inl IndexError, memo, h, calls))"

text \<open>The second loop, over \<open>enumerate(window.patient_joint_kps)\<close>.\<close>

fun preproc_poses ::
  "nat \<Rightarrow> HandJointPosesUpdate option list \<Rightarrow> (int \<rightharpoonup> PatientPose list) \<Rightarrow> int list \<Rightarrow>
   ext_call list \<Rightarrow> PatientPose list option list \<Rightarrow>
   (py_error + PatientPose list option list) \<times> (int \<rightharpoonup> PatientPose list) \<times> int list \<times>
   ext_call list" where
  "preproc_poses i [] memo h calls frame_patient_poses = (Inr frame_patient_poses, memo, h, calls)"
| "preproc_poses i (None # rest) memo h calls frame_patient_poses =
     preproc_poses (Suc i) rest memo h calls frame_patient_poses"
| "preproc_poses i (Some pose_msg # rest) memo h calls frame_patient_poses =
     (let msg_id = time_to_int (hjp_source_stamp pose_msg) in
      case memo msg_id of
        None \<Rightarrow>
          (case make_patient_poses msg_id 0 (hjp_joints pose_msg) of
             Inl e \<Rightarrow> (Inl e, memo, h, calls @ [MakePoses msg_id])
           | Inr v \<Rightarrow>
               let memo' = memo(msg_id \<mapsto> v);
                   h' = heappush h msg_id;
                   calls' = calls @ [MakePoses msg_id]
               in if i < length frame_patient_poses
                  then preproc_poses (Suc i) rest memo' h' calls'
                         (frame_patient_poses[i := Some v])
                  else (Inl IndexError, memo', h', calls'))
      | Some v \<Rightarrow>
          if i < length frame_patient_poses
          then preproc_poses (Suc i) rest memo h calls (frame_patient_poses[i := Some v])
          else (Inl IndexError, memo, h, calls))"

text \<open>
  The cleanup loops at the end of \<open>_process_window\<close>:
  \<^verbatim>\<open>while h and h[0] <= window_start_time_ns: del memo[heappop(h)]\<close>; \<open>del\<close> raises
  \<open>KeyError\<close> for a key that is not stored. The second loop deletes from two dictionaries.
\<close>

fun evict_memo ::
  "int \<Rightarrow> (int \<rightharpoonup> 'a) \<Rightarrow> int list \<Rightarrow> py_error option \<times> (int \<rightharpoonup> 'a) \<times> int list" where
  "evict_memo window_start_time_ns memo [] = (None, memo, [])"
| "evict_memo window_start_time_ns memo (k # h) =
     (if k \<le> window_start_time_ns
      then (if memo k = None then (Some KeyError, memo, h)
            else evict_memo window_start_time_ns (memo(k := None)) h)
      else (None, memo, k # h))"

fun evict_feats ::
  "int \<Rightarrow> (int \<rightharpoonup> 'a) \<Rightarrow> (int \<rightharpoonup> 'b) \<Rightarrow> int list \<Rightarrow>
   py_error option \<times> (int \<rightharpoonup> 'a) \<times> (int \<rightharpoonup> 'b) \<times> int list" where
  "evict_feats window_start_time_ns memo pose_memo [] = (None, memo, pose_memo, [])"
| "evict_feats window_start_time_ns memo pose_memo (k # h) =
     (if k \<le> window_start_time_ns
      then (if memo k = None then (Some KeyError, memo, pose_memo, h)
            else if pose_memo k = None then (Some KeyError, memo(k := None), pose_memo, h)
            else evict_feats window_start_time_ns (memo(k := None)) (pose_memo(k := None)) h)
      else (None, memo, pose_memo, k # h))"

text \<open>
  \<open>_process_window\<close>. The call of \<open>objects_to_feats\<close> is given the two per-frame lists
  and no memo (the keyword arguments \<open>feature_memo\<close> and \<open>pose_memo\<close> are commented out
  in the source); its \<open>ValueError\<close> becomes \<open>NoActivityClassification\<close>, raised before
  the cleanup loops.
\<close>

definition process_window ::
  "Externals \<Rightarrow> ActivityClassifierTCN \<Rightarrow> TcnWindow \<Rightarrow>
   ActivityDetection outcome \<times> ActivityClassifierTCN" where
  "process_window ext n window =
     (case preproc_detections 0 (tw_obj_dets window) (n_memo_preproc_input n)
             (n_memo_preproc_input_id_heap n) (n_ext_calls n)
             (replicate (length (tw_frames window)) None) of
        (r1, memo1, h1, calls1) \<Rightarrow>
          let n1 = n\<lparr>n_memo_preproc_input := memo1, n_memo_preproc_input_id_heap := h1,
                     n_ext_calls := calls1\<rparr> in
          (case r1 of
             Inl e \<Rightarrow> (Raised e, n1)
           | Inr frame_object_detections \<Rightarrow>
               (case preproc_poses 0 (tw_patient_joint_kps window) (n_memo_preproc_input_poses n1)
                       (n_memo_preproc_input_id_heap_poses n1) (n_ext_calls n1)
                       (replicate (length (tw_frames window)) None) of
                  (r2, memo2, h2, calls2) \<Rightarrow>
                    let n2 = n1\<lparr>n_memo_preproc_input_poses := memo2,
                                 n_memo_preproc_input_id_heap_poses := h2,
                                 n_ext_calls := calls2\<rparr> in
                    (case r2 of
                       Inl e \<Rightarrow> (Raised e, n2)
                     | Inr frame_patient_poses \<Rightarrow>
                         let n3 = n2\<lparr>n_ext_calls := n_ext_calls n2 @
                                   [ObjectsToFeats frame_object_detections frame_patient_poses]\<rparr>
                         in
                         (case ext_objects_to_feats ext frame_object_detections
                                 frame_patient_poses of
                            None \<Rightarrow> (Raised NoActivityClassification, n3)
                          | Some feats \<Rightarrow>
                              let proba = ext_predict ext feats in
                              (case tw_frames window of
                                 [] \<Rightarrow> (Raised IndexError, n3)
                               | f0 # _ \<Rightarrow>
                                   let activity_msg =
                                         \<lparr>ad_source_stamp_start_frame = fst f0,
                                          ad_source_stamp_end_frame = fst (last (tw_frames window)),
                                          ad_conf_vec = proba\<rparr>;
                                       window_start_time_ns = time_to_int (fst f0)
                                   in
                                   (case evict_memo window_start_time_ns (n_memo_preproc_input n3)
                                           (n_memo_preproc_input_id_heap n3) of
                                      (e4, memo4, h4) \<Rightarrow>
                                        let n4 = n3\<lparr>n_memo_preproc_input := memo4,
                                                     n_memo_preproc_input_id_heap := h4\<rparr> in
                                        (case e4 of
                                           Some e \<Rightarrow> (Raised e, n4)
                                         | None \<Rightarrow>
                                             (case evict_feats window_start_time_ns
                                                     (n_memo_objects_to_feats n4)
                                                     (n_queued_pose_memo n4)
                                                     (n_memo_objects_to_feats_id_heap n4) of
                                                (e5, memo5, pmemo5, h5) \<Rightarrow>
                                                  let n5 = n4\<lparr>n_memo_objects_to_feats := memo5,
                                                               n_memo_objects_to_feats_id_heap := h5,
                                                               n_queued_pose_memo := pmemo5\<rparr> in
                                                  (case e5 of
                                                     Some e \<Rightarrow> (Raised e, n5)
                                                   | None \<Rightarrow> (Returned activity_msg, n5)))))))))))"

subsection \<open>One iteration of the runtime loop\<close>

text \<open>
  One pass through the body of the \<open>while\<close> loop of \<open>rt_loop\<close> after the wake event
  fired, in the three steps the source takes: extracting the window, recording its trailing
  time as last extracted, and validating and handling it. An exception other than the ones
  the loop catches leaves the loop (and ends the thread); it is returned as \<open>Raised\<close>.
\<close>

definition window_time_ns :: "TcnWindow \<Rightarrow> int option" where
  "window_time_ns window =
     (if tw_frames window \<noteq> [] then Some (time_to_int (fst (last (tw_frames window))))
      else None)"

definition rt_extract_window :: "ActivityClassifierTCN \<Rightarrow> py_error + TcnWindow" where
  "rt_extract_window n =
     tb_get_window (n_buffer n) (n_window_size n) (n_window_lead_with_objects n)"

definition rt_record_extracted :: "ActivityClassifierTCN \<Rightarrow> TcnWindow \<Rightarrow> ActivityClassifierTCN" where
  "rt_record_extracted n window = n\<lparr>n_window_extracted_time_ns := window_time_ns window\<rparr>"

definition window_valid :: "ActivityClassifierTCN \<Rightarrow> TcnWindow \<Rightarrow> bool" where
  "window_valid n window =
     list_all (\<lambda>fn. fn n window) (window_processing_criterion_fn_list n)"

definition rt_handle_window ::
  "Externals \<Rightarrow> ActivityClassifierTCN \<Rightarrow> TcnWindow \<Rightarrow> unit outcome \<times> ActivityClassifierTCN" where
  "rt_handle_window ext n window =
     (if window_valid n window
      then
        (case tw_frames window of
           _ # f1 # _ \<Rightarrow>
             let n1 = n\<lparr>n_buffer := tb_clear_before (n_buffer n) (time_to_int (fst f1))\<rparr> in
             (case process_window ext n1 window of
                (Returned act_msg, n2) \<Rightarrow>
                  (Returned (),
                   n2\<lparr>n_published := n_published n2 @ [act_msg],
                      n_window_processed_time_ns := window_time_ns window\<rparr>)
              | (Raised e, n2) \<Rightarrow>
                  if e = NoActivityClassification
                  then (Returned (), n2\<lparr>n_window_processed_time_ns := window_time_ns window\<rparr>)
                  else (Raised e, n2))
         | _ \<Rightarrow> (Raised IndexError, n))
      else
        (case tb_latest_time (n_buffer n) of
           Inl e \<Rightarrow> if e = RuntimeError then (Returned (), n) else (Raised e, n)
         | Inr t \<Rightarrow>
             (Returned (),
              n\<lparr>n_buffer := tb_clear_before (n_buffer n)
                   (time_to_int t - n_buffer_max_size_nsec n)\<rparr>)))"

definition rt_loop_iteration ::
  "Externals \<Rightarrow> ActivityClassifierTCN \<Rightarrow> unit outcome \<times> ActivityClassifierTCN" where
  "rt_loop_iteration ext n =
     (case rt_extract_window n of
        Inl e \<Rightarrow> (Raised e, n)
      | Inr window \<Rightarrow> rt_handle_window ext (rt_record_extracted n window) window)"

subsection \<open>The runtime thread and the replay thread\<close>

text \<open>
  The node in replay mode as two threads over shared state, one atomic step at a time. The
  shared state is the node, the on/off event \<open>_rt_active\<close> and the wake event
  \<open>_rt_awake_evt\<close>; each thread has a position in its code. Every buffer method runs
  under the buffer's lock and the read and write of \<open>_window_extracted_time_ns\<close> run
  under its condition's lock, so each is one step; handling a window touches the buffer in
  one locked region (the \<open>clear_before\<close> call of either branch) and is one step too. \<open>sys_trace\<close> lists, in order, what the
  claims about pacing speak of: the replay thread starting to push a tuple (its call of
  \<open>det_callback\<close>), having pushed it (its call of \<open>img_ts_callback\<close> returned), and the
  runtime loop recording the trailing time of an extracted window.
\<close>

datatype rt_thread =
  RtLoopTest | RtWaiting | RtExtracting | RtRecording TcnWindow | RtHandling TcnWindow
| RtEnded | RtDied py_error

datatype coco_thread =
  CocoLoading | CocoQueueDets nat | CocoQueueImage nat | CocoWaiting nat | CocoEnded

datatype sys_event =
  TuplePushStarted int | TuplePushed int | ExtractedRecorded "int option"

record System =
  sys_node :: ActivityClassifierTCN
  sys_rt_active :: bool
  sys_rt_awake_evt :: bool
  sys_rt_thread :: rt_thread
  sys_coco_thread :: coco_thread
  sys_trace :: "sys_event list"

text \<open>
  The loaded COCO dataset as far as \<open>_thread_populate_from_coco\<close> reads it: the number of
  videos and, per image, its \<open>frame_index\<close>, the number of its annotations and their
  content (opaque).
\<close>

record CocoImage =
  ci_frame_index :: int
  ci_n_dets :: int
  ci_annots :: nat

record CocoDataset =
  cd_videos :: nat
  cd_images :: "CocoImage list"

definition initial_system :: "int \<Rightarrow> int \<Rightarrow> bool \<Rightarrow> System" where
  "initial_system window_size buffer_max_size_nsec window_leads_with_objects =
     \<lparr>sys_node = new_ActivityClassifierTCN window_size buffer_max_size_nsec
                   window_leads_with_objects True,
      sys_rt_active = True, sys_rt_awake_evt = False, sys_rt_thread = RtLoopTest,
      sys_coco_thread = CocoLoading, sys_trace = []\<rparr>"

fun rt_alive :: "System \<Rightarrow> bool" where
  "rt_alive s = (case sys_rt_thread s of RtEnded \<Rightarrow> False | RtDied e \<Rightarrow> False | _ \<Rightarrow> True)"

definition img_ts_callback :: "System \<Rightarrow> Time \<Rightarrow> System" where
  "img_ts_callback s msg =
     (let n1 = (sys_node s)\<lparr>n_current_frame_number := n_current_frame_number (sys_node s) + 1\<rparr>;
          s1 = s\<lparr>sys_node := n1\<rparr>
      in if rt_alive s1
         then (case tb_queue_image (n_buffer n1) msg (nat (n_current_frame_number n1)) of
                 (queued, b) \<Rightarrow>
                   let s2 = s1\<lparr>sys_node := n1\<lparr>n_buffer := b\<rparr>\<rparr> in
                   if queued \<and> \<not> n_window_lead_with_objects n1
                   then s2\<lparr>sys_rt_awake_evt := True\<rparr> else s2)
         else s1)"

definition det_callback :: "System \<Rightarrow> ObjectDetection2dSet \<Rightarrow> System" where
  "det_callback s msg =
     (if rt_alive s
      then (case tb_queue_object_detections (n_buffer (sys_node s)) msg of
              (queued, b) \<Rightarrow>
                let s1 = s\<lparr>sys_node := (sys_node s)\<lparr>n_buffer := b\<rparr>\<rparr> in
                if queued \<and> n_window_lead_with_objects (sys_node s)
                then s1\<lparr>sys_rt_awake_evt := True\<rparr> else s1)
      else s)"

definition pose_callback :: "System \<Rightarrow> HandJointPosesUpdate \<Rightarrow> System" where
  "pose_callback s msg =
     (if rt_alive s
      then (case tb_queue_joint_keypoints (n_buffer (sys_node s)) msg of
              (queued, b) \<Rightarrow> s\<lparr>sys_node := (sys_node s)\<lparr>n_buffer := b\<rparr>\<rparr>)
      else s)"

definition rt_stop :: "System \<Rightarrow> System" where
  "rt_stop s = s\<lparr>sys_rt_active := False, sys_rt_awake_evt := True\<rparr>"

text \<open>
  The images in the order the replay thread visits them (\<open>sorted\<close> by \<open>frame_index\<close>),
  and the timestamp and detection message it builds for the image at position \<open>i\<close>.
\<close>

definition coco_sorted_images :: "CocoDataset \<Rightarrow> CocoImage list" where
  "coco_sorted_images dset = sort_key ci_frame_index (cd_images dset)"

definition coco_image_ts :: "CocoDataset \<Rightarrow> nat \<Rightarrow> Time" where
  "coco_image_ts dset i = \<lparr>sec = 0, nanosec = ci_frame_index (coco_sorted_images dset ! i)\<rparr>"

definition coco_det_msg :: "CocoDataset \<Rightarrow> nat \<Rightarrow> ObjectDetection2dSet" where
  "coco_det_msg dset i =
     \<lparr>ods_header_stamp = coco_image_ts dset i, ods_source_stamp = coco_image_ts dset i,
      ods_num_detections = ci_n_dets (coco_sorted_images dset ! i),
      ods_body = ci_annots (coco_sorted_images dset ! i)\<rparr>"

text \<open>
  One step of \<open>_thread_populate_from_coco\<close>. After loading, a dataset without exactly one
  video switches the runtime off and returns. For each image in order: \<open>det_callback\<close>,
  then \<open>img_ts_callback\<close>, then the wait
  \<^verbatim>\<open>wait_for(lambda: extracted is not None and extracted >= image_ts_ns)\<close>, which has no
  timeout: the thread can only leave it while the predicate holds, and has no step
  (\<open>None\<close>) otherwise. After the last image the runtime is switched off.
\<close>

definition coco_thread_step :: "CocoDataset \<Rightarrow> System \<Rightarrow> System option" where
  "coco_thread_step dset s =
     (case sys_coco_thread s of
        CocoLoading \<Rightarrow>
          if cd_videos dset \<noteq> 1
          then Some (s\<lparr>sys_rt_active := False, sys_coco_thread := CocoEnded\<rparr>)
          else Some (s\<lparr>sys_coco_thread := CocoQueueDets 0\<rparr>)
      | CocoQueueDets i \<Rightarrow>
          if i < length (coco_sorted_images dset)
          then Some ((det_callback s (coco_det_msg dset i))
                      \<lparr>sys_coco_thread := CocoQueueImage i,
                       sys_trace := sys_trace s
                          @ [TuplePushStarted (time_to_int (coco_image_ts dset i))]\<rparr>)
          else Some (s\<lparr>sys_rt_active := False, sys_coco_thread := CocoEnded\<rparr>)
      | CocoQueueImage i \<Rightarrow>
          Some ((img_ts_callback s (coco_image_ts dset i))
                 \<lparr>sys_coco_thread := CocoWaiting i,
                  sys_trace := sys_trace s @ [TuplePushed (time_to_int (coco_image_ts dset i))]\<rparr>)
      | CocoWaiting i \<Rightarrow>
          (case n_window_extracted_time_ns (sys_node s) of
             None \<Rightarrow> None
           | Some extracted \<Rightarrow>
               if extracted \<ge> time_to_int (coco_image_ts dset i)
               then Some (s\<lparr>sys_coco_thread := CocoQueueDets (Suc i)\<rparr>)
               else None)
      | CocoEnded \<Rightarrow> None)"

text \<open>
  One step of \<open>rt_loop\<close>: the loop test (\<open>_rt_keep_looping\<close>), the wait on the wake
  event (which clears it when set and times out after the heartbeat otherwise), the
  extraction of the window, the recording of its trailing time, and its handling. An
  uncaught exception ends the thread.
\<close>

definition rt_thread_step :: "Externals \<Rightarrow> System \<Rightarrow> System option" where
  "rt_thread_step ext s =
     (case sys_rt_thread s of
        RtLoopTest \<Rightarrow>
          Some (s\<lparr>sys_rt_thread := (if sys_rt_active s then RtWaiting else RtEnded)\<rparr>)
      | RtWaiting \<Rightarrow>
          if sys_rt_awake_evt s
          then Some (s\<lparr>sys_rt_awake_evt := False, sys_rt_thread := RtExtracting\<rparr>)
          else Some (s\<lparr>sys_rt_thread := RtLoopTest\<rparr>)
      | RtExtracting \<Rightarrow>
          (case rt_extract_window (sys_node s) of
             Inl e \<Rightarrow> Some (s\<lparr>sys_rt_thread := RtDied e\<rparr>)
           | Inr window \<Rightarrow> Some (s\<lparr>sys_rt_thread := RtRecording window\<rparr>))
      | RtRecording window \<Rightarrow>
          Some (s\<lparr>sys_node := rt_record_extracted (sys_node s) window,
                 sys_rt_thread := RtHandling window,
                 sys_trace := sys_trace s @ [ExtractedRecorded (window_time_ns window)]\<rparr>)
      | RtHandling window \<Rightarrow>
          (case rt_handle_window ext (sys_node s) window of
             (Returned u, n') \<Rightarrow> Some (s\<lparr>sys_node := n', sys_rt_thread := RtLoopTest\<rparr>)
           | (Raised e, n') \<Rightarrow> Some (s\<lparr>sys_node := n', sys_rt_thread := RtDied e\<rparr>))
      | RtEnded \<Rightarrow> None
      | RtDied e \<Rightarrow> None)"

text \<open>
  A schedule names, step by step, which thread runs next (or that the node is stopped from
  outside, \<open>rt_stop\<close>); \<open>exec\<close> runs it, and is \<open>None\<close> when the schedule asks a
  thread to step that has no step to take.
\<close>

datatype action = RunRt | RunCoco | StopNode

fun step :: "Externals \<Rightarrow> CocoDataset \<Rightarrow> action \<Rightarrow> System \<Rightarrow> System option" where
  "step ext dset RunRt s = rt_thread_step ext s"
| "step ext dset RunCoco s = coco_thread_step dset s"
| "step ext dset StopNode s = Some (rt_stop s)"

fun exec :: "Externals \<Rightarrow> CocoDataset \<Rightarrow> System \<Rightarrow> action list \<Rightarrow> System option" where
  "exec ext dset s [] = Some s"
| "exec ext dset s (a # as) =
     (case step ext dset a s of None \<Rightarrow> None | Some s' \<Rightarrow> exec ext dset s' as)"

subsection \<open>Example data\<close>

text \<open>
  Concrete messages for the evaluated examples: a timestamp of \<open>n\<close> nanoseconds (built as
  the replay thread builds it, \<open>Time(sec=0, nanosec=n)\<close>), an image, a detection set whose
  header and source stamps agree, and a hand pose.
\<close>

definition stamp :: "int \<Rightarrow> Time" where
  "stamp n = \<lparr>sec = 0, nanosec = n\<rparr>"

definition image_at :: "int \<Rightarrow> nat \<Rightarrow> Image" where
  "image_at n px = \<lparr>img_header_stamp = stamp n, img_data = px\<rparr>"

definition dets_at :: "int \<Rightarrow> int \<Rightarrow> nat \<Rightarrow> ObjectDetection2dSet" where
  "dets_at n k body =
     \<lparr>ods_header_stamp = stamp n, ods_source_stamp = stamp n, ods_num_detections = k,
      ods_body = body\<rparr>"

definition hand_at :: "int \<Rightarrow> string \<Rightarrow> HandJointPosesUpdate" where
  "hand_at n h =
     \<lparr>hjp_header_stamp = stamp n, hjp_source_stamp = stamp n, hjp_hand = h, hjp_joints = []\<rparr>"

text \<open>
  Stand-ins for the collaborators in the evaluated examples: \<open>objects_to_feats\<close> raises
  \<open>ValueError\<close> when every detection slot is empty and otherwise yields a feature value;
  \<open>predict\<close> yields a one-element confidence vector. And a node whose buffer already
  holds the given frames and detection sets.
\<close>

definition example_externals :: Externals where
  "example_externals =
     \<lparr>ext_objects_to_feats =
        (\<lambda>fod fpp. if list_all (\<lambda>v. v = None) fod then None else Some (length fod)),
      ext_predict = (\<lambda>feats. [feats])\<rparr>"

definition node_with ::
  "int \<Rightarrow> int \<Rightarrow> (Time \<times> nat) list \<Rightarrow> ObjectDetection2dSet list \<Rightarrow> ActivityClassifierTCN" where
  "node_with window_size buffer_max_size_nsec fs ds =
     (new_ActivityClassifierTCN window_size buffer_max_size_nsec False False)
       \<lparr>n_buffer := (new_TcnBuffer 0)\<lparr>tb_frames := fs, tb_obj_dets := ds\<rparr>\<rparr>"

text \<open>
  What the replay thread queues for one image (a detection set, then the image timestamp
  with its frame number), applied directly to the node's buffer.
\<close>

definition queue_tuple ::
  "ActivityClassifierTCN \<Rightarrow> ObjectDetection2dSet \<Rightarrow> Time \<Rightarrow> nat \<Rightarrow> ActivityClassifierTCN" where
  "queue_tuple n det_msg image_ts frame_number =
     n\<lparr>n_buffer := snd (tb_queue_image (snd (tb_queue_object_detections (n_buffer n) det_msg))
          image_ts frame_number)\<rparr>"

text \<open>An image timestamp queued on its own, with no detection set for it.\<close>

definition queue_frame :: "ActivityClassifierTCN \<Rightarrow> Time \<Rightarrow> nat \<Rightarrow> ActivityClassifierTCN" where
  "queue_frame n image_ts frame_number =
     n\<lparr>n_buffer := snd (tb_queue_image (n_buffer n) image_ts frame_number)\<rparr>"

text \<open>A dataset of one video with two images, listed out of frame order.\<close>

definition example_dataset :: CocoDataset where
  "example_dataset =
     \<lparr>cd_videos = 1,
      cd_images = [\<lparr>ci_frame_index = 20, ci_n_dets = 1, ci_annots = 2\<rparr>,
                   \<lparr>ci_frame_index = 10, ci_n_dets = 1, ci_annots = 1\<rparr>]\<rparr>"

section \<open>Properties of the buffer\<close>

lemma popleft_while_before_dropWhile:
  "popleft_while_before key t xs = dropWhile (\<lambda>x. key x < t) xs"
  by (induction xs) auto

lemma popleft_while_before_keeps:
  "filter (\<lambda>x. \<not> key x < t) (popleft_while_before key t xs) = filter (\<lambda>x. \<not> key x < t) xs"
  by (induction xs) auto

lemma popleft_while_before_sorted:
  "sorted (map key xs) \<Longrightarrow> popleft_while_before key t xs = filter (\<lambda>x. \<not> key x < t) xs"
proof (induction xs)
  case Nil
  then show ?case by simp
next
  case (Cons x xs)
  show ?case
  proof (cases "key x < t")
    case True
    with Cons show ?thesis by simp
  next
    case False
    with Cons.prems have "\<forall>y\<in>set xs. \<not> key y < t" by fastforce
    then have "filter (\<lambda>x. \<not> key x < t) xs = xs" by (simp add: filter_id_conv)
    with False show ?thesis by simp
  qed
qed

text \<open>
  Claim C9. \<open>queue_hand_pose\<close> raises exactly when the hand label is neither
  \<open>Right\<close> nor \<open>Left\<close>; when it raises, the buffer (all four deques and the tolerance) is
  what it was before the call. A recognised label appends the message to the deque of that
  hand and leaves the other deques alone.
\<close>

theorem queue_hand_pose_validation:
  "((\<exists>e. fst (queue_hand_pose b msg) = Raised e) \<longleftrightarrow>
      (hjp_hand msg \<noteq> ''Right'' \<and> hjp_hand msg \<noteq> ''Left''))
   \<and> ((\<exists>e. fst (queue_hand_pose b msg) = Raised e) \<longrightarrow> snd (queue_hand_pose b msg) = b)
   \<and> (hjp_hand msg = ''Right'' \<longrightarrow>
        queue_hand_pose b msg = (Returned (), b\<lparr>hand_pose_right := hand_pose_right b @ [msg]\<rparr>))
   \<and> (hjp_hand msg = ''Left'' \<longrightarrow>
        queue_hand_pose b msg = (Returned (), b\<lparr>hand_pose_left := hand_pose_left b @ [msg]\<rparr>))"
  by (simp add: queue_hand_pose_def)

theorem queue_hand_pose_validation_witness:
  "fst (queue_hand_pose (new_InputBuffer 5)
      \<lparr>hjp_header_stamp = \<lparr>sec = 0, nanosec = 7\<rparr>, hjp_source_stamp = \<lparr>sec = 0, nanosec = 7\<rparr>,
       hjp_hand = ''right'', hjp_joints = []\<rparr>) = Raised ValueError
   \<and> snd (queue_hand_pose (new_InputBuffer 5)
      \<lparr>hjp_header_stamp = \<lparr>sec = 0, nanosec = 7\<rparr>, hjp_source_stamp = \<lparr>sec = 0, nanosec = 7\<rparr>,
       hjp_hand = ''right'', hjp_joints = []\<rparr>) = new_InputBuffer 5
   \<and> hand_pose_left (snd (queue_hand_pose (new_InputBuffer 5)
      \<lparr>hjp_header_stamp = \<lparr>sec = 0, nanosec = 7\<rparr>, hjp_source_stamp = \<lparr>sec = 0, nanosec = 7\<rparr>,
       hjp_hand = ''Left'', hjp_joints = []\<rparr>)) =
      [\<lparr>hjp_header_stamp = \<lparr>sec = 0, nanosec = 7\<rparr>, hjp_source_stamp = \<lparr>sec = 0, nanosec = 7\<rparr>,
        hjp_hand = ''Left'', hjp_joints = []\<rparr>]"
  using queue_hand_pose_validation [of "new_InputBuffer 5"
      "\<lparr>hjp_header_stamp = \<lparr>sec = 0, nanosec = 7\<rparr>, hjp_source_stamp = \<lparr>sec = 0, nanosec = 7\<rparr>,
        hjp_hand = ''right'', hjp_joints = []\<rparr>"]
    queue_hand_pose_validation [of "new_InputBuffer 5"
      "\<lparr>hjp_header_stamp = \<lparr>sec = 0, nanosec = 7\<rparr>, hjp_source_stamp = \<lparr>sec = 0, nanosec = 7\<rparr>,
        hjp_hand = ''Left'', hjp_joints = []\<rparr>"]
  by (simp add: queue_hand_pose_def new_InputBuffer_def)

text \<open>
  Claim C4, as stated, asks that \<open>clear_before\<close> remove every item whose key is below the
  bound whatever the order of the deque. The loops only pop from the left end and stop at the
  first item that is not older than the bound: after two frames stamped 5 ns and 1 ns were
  queued in that order, \<open>clear_before 3\<close> keeps the frame stamped 1 ns.
\<close>

theorem clear_before_unsorted_counterexample:
  "(\<lparr>sec = 0, nanosec = 1\<rparr>, 8) \<in> set (frames (clear_before
      (queue_image (queue_image (new_InputBuffer 0)
         \<lparr>img_header_stamp = \<lparr>sec = 0, nanosec = 5\<rparr>, img_data = 7\<rparr>)
         \<lparr>img_header_stamp = \<lparr>sec = 0, nanosec = 1\<rparr>, img_data = 8\<rparr>) 3))
   \<and> frame_time_ns (\<lparr>sec = 0, nanosec = 1\<rparr>, 8) < 3"
  by (simp add: clear_before_def queue_image_def new_InputBuffer_def frame_time_ns_def
      time_to_int_def)

text \<open>
  Claim C4, amended. For every buffer state and every bound \<open>t\<close>, \<open>clear_before t\<close> removes
  from each of the four deques, independently, exactly its longest leading run of items
  whose key is strictly less than \<open>t\<close>; it never removes an item whose key is at least
  \<open>t\<close>; and on a deque in ascending key order (the order the class documents) it removes
  every item whose key is strictly less than \<open>t\<close>. The tolerance is untouched.
\<close>

theorem clear_before_eviction:
  "frames (clear_before b t) = dropWhile (\<lambda>x. frame_time_ns x < t) (frames b)
   \<and> hand_pose_left (clear_before b t) =
       dropWhile (\<lambda>x. hand_msg_to_time_ns x < t) (hand_pose_left b)
   \<and> hand_pose_right (clear_before b t) =
       dropWhile (\<lambda>x. hand_msg_to_time_ns x < t) (hand_pose_right b)
   \<and> obj_dets (clear_before b t) = dropWhile (\<lambda>x. objdet_msg_to_time_ns x < t) (obj_dets b)
   \<and> filter (\<lambda>x. \<not> frame_time_ns x < t) (frames (clear_before b t)) =
       filter (\<lambda>x. \<not> frame_time_ns x < t) (frames b)
   \<and> filter (\<lambda>x. \<not> hand_msg_to_time_ns x < t) (hand_pose_left (clear_before b t)) =
       filter (\<lambda>x. \<not> hand_msg_to_time_ns x < t) (hand_pose_left b)
   \<and> filter (\<lambda>x. \<not> hand_msg_to_time_ns x < t) (hand_pose_right (clear_before b t)) =
       filter (\<lambda>x. \<not> hand_msg_to_time_ns x < t) (hand_pose_right b)
   \<and> filter (\<lambda>x. \<not> objdet_msg_to_time_ns x < t) (obj_dets (clear_before b t)) =
       filter (\<lambda>x. \<not> objdet_msg_to_time_ns x < t) (obj_dets b)
   \<and> (sorted (map frame_time_ns (frames b)) \<longrightarrow>
        frames (clear_before b t) = filter (\<lambda>x. \<not> frame_time_ns x < t) (frames b))
   \<and> (sorted (map hand_msg_to_time_ns (hand_pose_left b)) \<longrightarrow>
        hand_pose_left (clear_before b t) =
          filter (\<lambda>x. \<not> hand_msg_to_time_ns x < t) (hand_pose_left b))
   \<and> (sorted (map hand_msg_to_time_ns (hand_pose_right b)) \<longrightarrow>
        hand_pose_right (clear_before b t) =
          filter (\<lambda>x. \<not> hand_msg_to_time_ns x < t) (hand_pose_right b))
   \<and> (sorted (map objdet_msg_to_time_ns (obj_dets b)) \<longrightarrow>
        obj_dets (clear_before b t) =
          filter (\<lambda>x. \<not> objdet_msg_to_time_ns x < t) (obj_dets b))
   \<and> hand_msg_tolerance_nsec (clear_before b t) = hand_msg_tolerance_nsec b"
  by (simp add: clear_before_def popleft_while_before_keeps popleft_while_before_sorted)
     (simp add: popleft_while_before_dropWhile)

theorem clear_before_eviction_witness:
  "sorted (map frame_time_ns
      [(\<lparr>sec = 0, nanosec = 1\<rparr>, 7), (\<lparr>sec = 0, nanosec = 3\<rparr>, 8), (\<lparr>sec = 0, nanosec = 5\<rparr>, 9)])
   \<and> frames (clear_before
        \<lparr>hand_msg_tolerance_nsec = 0,
         frames = [(\<lparr>sec = 0, nanosec = 1\<rparr>, 7), (\<lparr>sec = 0, nanosec = 3\<rparr>, 8),
                   (\<lparr>sec = 0, nanosec = 5\<rparr>, 9)],
         hand_pose_left = [], hand_pose_right = [], obj_dets = []\<rparr> 3) =
       [(\<lparr>sec = 0, nanosec = 3\<rparr>, 8), (\<lparr>sec = 0, nanosec = 5\<rparr>, 9)]"
  using clear_before_eviction [of
      "\<lparr>hand_msg_tolerance_nsec = 0,
        frames = [(\<lparr>sec = 0, nanosec = 1\<rparr>, 7), (\<lparr>sec = 0, nanosec = 3\<rparr>, 8),
                  (\<lparr>sec = 0, nanosec = 5\<rparr>, 9)],
        hand_pose_left = [], hand_pose_right = [], obj_dets = []\<rparr>" 3]
  by (simp add: frame_time_ns_def time_to_int_def)

section \<open>Properties of window extraction\<close>

lemma closest_in_tolerance_Some:
  "closest_in_tolerance tf tol t best vs = Some v \<Longrightarrow>
     best = Some v \<or> (v \<in> set vs \<and> \<bar>tf v - t\<bar> \<le> tol)"
  by (induction vs arbitrary: best) (auto split: if_splits)

lemma closest_in_tolerance_None:
  "closest_in_tolerance tf tol t best vs = None \<longleftrightarrow>
     best = None \<and> (\<forall>v\<in>set vs. \<not> \<bar>tf v - t\<bar> \<le> tol)"
  by (induction vs arbitrary: best) (auto split: if_splits)

lemma closest_in_tolerance_le_best:
  "closest_in_tolerance tf tol t (Some c) vs = Some v \<Longrightarrow> \<bar>tf v - t\<bar> \<le> \<bar>tf c - t\<bar>"
proof (induction vs arbitrary: c)
  case Nil
  then show ?case by simp
next
  case (Cons u us)
  then show ?case by (fastforce split: if_splits)
qed

lemma closest_in_tolerance_closest:
  "closest_in_tolerance tf tol t best vs = Some v \<Longrightarrow> u \<in> set vs \<Longrightarrow>
     \<bar>tf u - t\<bar> \<le> tol \<Longrightarrow> \<bar>tf v - t\<bar> \<le> \<bar>tf u - t\<bar>"
proof (induction vs arbitrary: best)
  case Nil
  then show ?case by simp
next
  case (Cons x xs)
  show ?case
  proof (cases "u = x")
    case True
    show ?thesis
    proof (cases "\<bar>tf x - t\<bar> \<le> tol \<and>
           (case best of None \<Rightarrow> True | Some c \<Rightarrow> \<bar>tf x - t\<bar> < \<bar>tf c - t\<bar>)")
      case T2: True
      with Cons.prems(1) have "closest_in_tolerance tf tol t (Some x) xs = Some v" by simp
      then show ?thesis using True closest_in_tolerance_le_best by fastforce
    next
      case False
      with Cons.prems(3) True obtain c where c: "best = Some c" "\<bar>tf c - t\<bar> \<le> \<bar>tf x - t\<bar>"
        by (cases best) auto
      with Cons.prems(1) False have "closest_in_tolerance tf tol t (Some c) xs = Some v" by simp
      then have "\<bar>tf v - t\<bar> \<le> \<bar>tf c - t\<bar>" by (rule closest_in_tolerance_le_best)
      with c True show ?thesis by simp
    qed
  next
    case False
    with Cons.prems have "u \<in> set xs" by simp
    with Cons.IH Cons.prems show ?thesis by (simp split: if_splits)
  qed
qed

lemma closest_in_tolerance_exact_hit:
  "tf c = t \<Longrightarrow> closest_in_tolerance tf 0 t (Some c) vs = Some c"
  by (induction vs) auto

lemma closest_in_tolerance_exact:
  "closest_in_tolerance tf 0 t None vs = find (\<lambda>v. tf v = t) vs"
  by (induction vs) (auto simp: closest_in_tolerance_exact_hit)


lemma tail_window_drop:
  "0 \<le> window_size \<Longrightarrow> tail_window dq window_size = Inr (drop (length dq - nat window_size) dq)"
  by (simp add: tail_window_def rev_take)

lemma frames_queue_images:
  "frames (foldl queue_image b msgs) =
     frames b @ map (\<lambda>m. (img_header_stamp m, img_data m)) msgs"
  by (induction msgs arbitrary: b) (simp_all add: queue_image_def)

lemma get_window_frames:
  "0 \<le> window_size \<Longrightarrow>
     \<exists>w. get_window b window_size = Inr w \<and>
         w_frames w = drop (length (frames b) - nat window_size) (frames b)"
  by (simp add: get_window_def tail_window_drop Let_def)

lemma get_window_raises:
  "window_size < 0 \<Longrightarrow> get_window b window_size = Inl ValueError"
  by (simp add: get_window_def tail_window_def)

text \<open>
  Claim C2. After any sequence of \<open>queue_image\<close> calls (whatever their timestamps, so in
  particular strictly increasing ones) on any buffer, \<open>get_window\<close> with a size from 0 up
  to the number of buffered frames returns a window whose frames are exactly the last
  \<open>window_size\<close> buffered frames in append order (the frames of the last \<open>window_size\<close>
  appends when that many were appended); with fewer frames buffered than requested, the
  window holds all buffered frames. The size is a number of frames: \<open>islice\<close> rejects a
  negative one with \<open>ValueError\<close>.
\<close>

theorem get_window_last_frames:
  assumes "0 \<le> window_size"
  shows "\<exists>w. get_window (foldl queue_image b msgs) window_size = Inr w
      \<and> (window_size \<le> int (length msgs) \<longrightarrow>
           w_frames w = map (\<lambda>m. (img_header_stamp m, img_data m))
                          (drop (length msgs - nat window_size) msgs))
      \<and> (window_size \<le> int (length (frames (foldl queue_image b msgs))) \<longrightarrow>
           length (w_frames w) = nat window_size
           \<and> w_frames w = drop (length (frames (foldl queue_image b msgs)) - nat window_size)
                            (frames (foldl queue_image b msgs)))
      \<and> (int (length (frames (foldl queue_image b msgs))) < window_size \<longrightarrow>
           w_frames w = frames (foldl queue_image b msgs))"
proof -
  let ?b = "foldl queue_image b msgs"
  from get_window_frames [OF assms, of ?b] obtain w where
    w: "get_window ?b window_size = Inr w"
       "w_frames w = drop (length (frames ?b) - nat window_size) (frames ?b)"
    by blast
  have a: "window_size \<le> int (length msgs) \<longrightarrow>
           w_frames w = map (\<lambda>m. (img_header_stamp m, img_data m))
                          (drop (length msgs - nat window_size) msgs)"
  proof
    assume le: "window_size \<le> int (length msgs)"
    then have "length (frames b) + length msgs - nat window_size =
        length (frames b) + (length msgs - nat window_size)"
      using assms by linarith
    then show "w_frames w = map (\<lambda>m. (img_header_stamp m, img_data m))
                          (drop (length msgs - nat window_size) msgs)"
      using w(2) by (simp add: frames_queue_images drop_map)
  qed
  have b: "window_size \<le> int (length (frames ?b)) \<longrightarrow> length (w_frames w) = nat window_size"
    using w(2) assms by auto
  have c: "int (length (frames ?b)) < window_size \<longrightarrow> w_frames w = frames ?b"
    using w(2) by auto
  from w a b c show ?thesis by blast
qed


theorem get_window_last_frames_witness:
  "(0::int) \<le> 2 \<and> (2::int) \<le> int (length [image_at 1 7, image_at 2 8, image_at 3 9])
   \<and> get_window (foldl queue_image (new_InputBuffer 0)
         [image_at 1 7, image_at 2 8, image_at 3 9]) 2
     = Inr \<lparr>w_frames = [(stamp 2, 8), (stamp 3, 9)], w_hand_pose_left = [None, None],
            w_hand_pose_right = [None, None], w_obj_dets = [None, None]\<rparr>
   \<and> get_window (foldl queue_image (new_InputBuffer 0)
         [image_at 1 7, image_at 2 8, image_at 3 9]) 5
     = Inr \<lparr>w_frames = [(stamp 1, 7), (stamp 2, 8), (stamp 3, 9)],
            w_hand_pose_left = [None, None, None], w_hand_pose_right = [None, None, None],
            w_obj_dets = [None, None, None]\<rparr>"
  using get_window_last_frames [of 2 "new_InputBuffer 0"
      "[image_at 1 7, image_at 2 8, image_at 3 9]"]
    get_window_last_frames [of 5 "new_InputBuffer 0"
      "[image_at 1 7, image_at 2 8, image_at 3 9]"]
  by (simp add: get_window_def tail_window_def descending_match_with_tolerance_def
      queue_image_def new_InputBuffer_def image_at_def)


lemma get_window_slots:
  assumes "get_window b window_size = Inr w"
  shows "w_obj_dets w =
           map (\<lambda>f. closest_in_tolerance objdet_msg_to_time_ns 0 (frame_time_ns f) None
                  (rev (obj_dets b))) (w_frames w)"
    and "w_hand_pose_left w =
           map (\<lambda>f. closest_in_tolerance hand_msg_to_time_ns (hand_msg_tolerance_nsec b)
                  (frame_time_ns f) None (rev (hand_pose_left b))) (w_frames w)"
    and "w_hand_pose_right w =
           map (\<lambda>f. closest_in_tolerance hand_msg_to_time_ns (hand_msg_tolerance_nsec b)
                  (frame_time_ns f) None (rev (hand_pose_right b))) (w_frames w)"
  using assms
  by (auto simp: get_window_def Let_def descending_match_with_tolerance_def frame_time_ns_def
      comp_def split: sum.splits)

lemma find_Some_D: "find P xs = Some x \<Longrightarrow> x \<in> set xs \<and> P x"
  by (induction xs) (auto split: if_splits)

lemma find_rev_distinct:
  assumes "distinct (map key xs)" "x \<in> set xs"
  shows "find (\<lambda>v. key v = key x) (rev xs) = Some x"
proof -
  from assms(2) have "find (\<lambda>v. key v = key x) (rev xs) \<noteq> None"
    by (auto simp: find_None_iff)
  then obtain y where y: "find (\<lambda>v. key v = key x) (rev xs) = Some y" by blast
  from find_Some_D [OF y] have "y \<in> set xs" "key y = key x" by simp_all
  with assms have "y = x" by (simp add: distinct_map inj_on_def)
  with y show ?thesis by simp
qed

lemma get_window_obj_dets_find:
  assumes "get_window b window_size = Inr w"
  shows "w_obj_dets w =
           map (\<lambda>f. find (\<lambda>d. objdet_msg_to_time_ns d = frame_time_ns f) (rev (obj_dets b)))
             (w_frames w)"
  using get_window_slots(1) [OF assms] by (simp add: closest_in_tolerance_exact)

lemma window_obj_dets_queued:
  assumes "get_window b window_size = Inr w" and "Some d \<in> set (w_obj_dets w)"
  shows "d \<in> set (obj_dets b)"
proof -
  from assms(2) have "Some d \<in> (\<lambda>f. find (\<lambda>d. objdet_msg_to_time_ns d = frame_time_ns f)
      (rev (obj_dets b))) ` set (w_frames w)"
    using get_window_obj_dets_find [OF assms(1)] by (metis set_map)
  then obtain f where
    "find (\<lambda>d. objdet_msg_to_time_ns d = frame_time_ns f) (rev (obj_dets b)) = Some d" by force
  from find_Some_D [OF this] show ?thesis by simp
qed

text \<open>
  Claim C3, as stated, asks that a frame's detection slot equal a queued detection exactly
  when that detection's source timestamp equals the frame's. One slot holds one message:
  with two different detection sets queued for the same source timestamp (10 ns), the slot of
  the frame stamped 10 ns holds the later one, and differs from the earlier one although its
  source timestamp equals the frame's.
\<close>

theorem window_detection_duplicate_counterexample:
  "get_window
     (queue_object_detections (queue_object_detections
        (queue_image (new_InputBuffer 0) (image_at 10 0)) (dets_at 10 5 1)) (dets_at 10 5 2)) 1
     = Inr \<lparr>w_frames = [(stamp 10, 0)], w_hand_pose_left = [None], w_hand_pose_right = [None],
            w_obj_dets = [Some (dets_at 10 5 2)]\<rparr>
   \<and> dets_at 10 5 1 \<in> set (obj_dets
       (queue_object_detections (queue_object_detections
          (queue_image (new_InputBuffer 0) (image_at 10 0)) (dets_at 10 5 1)) (dets_at 10 5 2)))
   \<and> objdet_msg_to_time_ns (dets_at 10 5 1) = frame_time_ns (stamp 10, 0)
   \<and> Some (dets_at 10 5 2) \<noteq> Some (dets_at 10 5 1)"
  by (simp add: get_window_def tail_window_def descending_match_with_tolerance_def
      queue_object_detections_def queue_image_def new_InputBuffer_def image_at_def dets_at_def
      stamp_def objdet_msg_to_time_ns_def frame_time_ns_def time_to_int_def
      hand_msg_to_time_ns_def)

text \<open>
  Claim C3, amended. In every extracted window the detection slots are aligned one to one
  with the frames. A frame's slot is non-\<open>None\<close> exactly when some queued detection has a
  source timestamp equal to the frame's timestamp (zero tolerance), and it then holds the
  most recently queued such detection; whatever a slot holds is a queued detection with
  exactly the frame's timestamp. When the queued detections have pairwise different source
  timestamps, the slot equals a queued detection exactly when that detection's source
  timestamp equals the frame's. A detection whose source timestamp equals no frame timestamp
  of the window appears in no slot.
\<close>

theorem window_detection_slots:
  assumes "get_window b window_size = Inr w" and "i < length (w_frames w)"
  shows "length (w_obj_dets w) = length (w_frames w)
    \<and> w_obj_dets w ! i =
        find (\<lambda>d. objdet_msg_to_time_ns d = frame_time_ns (w_frames w ! i)) (rev (obj_dets b))
    \<and> (w_obj_dets w ! i \<noteq> None \<longleftrightarrow>
         (\<exists>d\<in>set (obj_dets b). objdet_msg_to_time_ns d = frame_time_ns (w_frames w ! i)))
    \<and> (\<forall>d. w_obj_dets w ! i = Some d \<longrightarrow>
           d \<in> set (obj_dets b) \<and> objdet_msg_to_time_ns d = frame_time_ns (w_frames w ! i))
    \<and> (distinct (map objdet_msg_to_time_ns (obj_dets b)) \<longrightarrow>
         (\<forall>d\<in>set (obj_dets b).
            w_obj_dets w ! i = Some d \<longleftrightarrow>
            objdet_msg_to_time_ns d = frame_time_ns (w_frames w ! i)))
    \<and> (\<forall>d. (\<forall>f\<in>set (w_frames w). frame_time_ns f \<noteq> objdet_msg_to_time_ns d) \<longrightarrow>
           Some d \<notin> set (w_obj_dets w))"
proof -
  let ?t = "frame_time_ns (w_frames w ! i)"
  let ?P = "\<lambda>t d. objdet_msg_to_time_ns d = t"
  have slots: "w_obj_dets w = map (\<lambda>f. find (?P (frame_time_ns f)) (rev (obj_dets b))) (w_frames w)"
    by (rule get_window_obj_dets_find [OF assms(1)])
  then have len: "length (w_obj_dets w) = length (w_frames w)" by simp
  from slots assms(2) have slot: "w_obj_dets w ! i = find (?P ?t) (rev (obj_dets b))" by simp
  have some: "\<forall>d. w_obj_dets w ! i = Some d \<longrightarrow> d \<in> set (obj_dets b) \<and> ?P ?t d"
  proof (intro allI impI)
    fix d assume "w_obj_dets w ! i = Some d"
    with slot have "find (?P ?t) (rev (obj_dets b)) = Some d" by simp
    from find_Some_D [OF this] show "d \<in> set (obj_dets b) \<and> ?P ?t d" by simp
  qed
  have nonnone: "w_obj_dets w ! i \<noteq> None \<longleftrightarrow> (\<exists>d\<in>set (obj_dets b). ?P ?t d)"
    unfolding slot by (simp add: find_None_iff) blast
  have dist: "distinct (map objdet_msg_to_time_ns (obj_dets b)) \<longrightarrow>
         (\<forall>d\<in>set (obj_dets b). w_obj_dets w ! i = Some d \<longleftrightarrow> ?P ?t d)"
  proof (intro impI ballI iffI)
    fix d assume "w_obj_dets w ! i = Some d"
    then show "?P ?t d" using some by blast
  next
    fix d
    assume "distinct (map objdet_msg_to_time_ns (obj_dets b))" "d \<in> set (obj_dets b)" "?P ?t d"
    then show "w_obj_dets w ! i = Some d"
      using slot find_rev_distinct [of objdet_msg_to_time_ns "obj_dets b" d] by simp
  qed
  have never: "\<forall>d. (\<forall>f\<in>set (w_frames w). frame_time_ns f \<noteq> objdet_msg_to_time_ns d) \<longrightarrow>
           Some d \<notin> set (w_obj_dets w)"
  proof (intro allI impI notI)
    fix d
    assume no: "\<forall>f\<in>set (w_frames w). frame_time_ns f \<noteq> objdet_msg_to_time_ns d"
      and "Some d \<in> set (w_obj_dets w)"
    then have "Some d \<in> (\<lambda>f. find (?P (frame_time_ns f)) (rev (obj_dets b))) ` set (w_frames w)"
      using slots by (metis set_map)
    then obtain f where f: "f \<in> set (w_frames w)"
      "find (?P (frame_time_ns f)) (rev (obj_dets b)) = Some d" by force
    from find_Some_D [OF f(2)] have "?P (frame_time_ns f) d" by simp
    with no f(1) show False by auto
  qed
  show ?thesis by (intro conjI len slot nonnone some dist never)
qed


theorem window_detection_slots_witness:
  "get_window
     (queue_object_detections
        (queue_image (queue_image (new_InputBuffer 0) (image_at 10 0)) (image_at 11 1))
        (dets_at 10 5 1)) 2
     = Inr \<lparr>w_frames = [(stamp 10, 0), (stamp 11, 1)], w_hand_pose_left = [None, None],
            w_hand_pose_right = [None, None], w_obj_dets = [Some (dets_at 10 5 1), None]\<rparr>
   \<and> (0::nat) < length [(stamp 10, 0::nat), (stamp 11, 1)]
   \<and> distinct (map objdet_msg_to_time_ns [dets_at 10 5 1])
   \<and> objdet_msg_to_time_ns (dets_at 10 5 1) = frame_time_ns (stamp 10, 0)"
  using window_detection_slots [of
      "queue_object_detections
        (queue_image (queue_image (new_InputBuffer 0) (image_at 10 0)) (image_at 11 1))
        (dets_at 10 5 1)" 2
      "\<lparr>w_frames = [(stamp 10, 0), (stamp 11, 1)], w_hand_pose_left = [None, None],
        w_hand_pose_right = [None, None], w_obj_dets = [Some (dets_at 10 5 1), None]\<rparr>" 0]
  by (simp add: get_window_def tail_window_def descending_match_with_tolerance_def
      queue_object_detections_def queue_image_def new_InputBuffer_def image_at_def dets_at_def
      stamp_def objdet_msg_to_time_ns_def frame_time_ns_def time_to_int_def
      hand_msg_to_time_ns_def)


lemma closest_in_tolerance_slot:
  fixes tf :: "'a \<Rightarrow> int"
  defines "slot \<equiv> \<lambda>tol t vals. closest_in_tolerance tf tol t None (rev vals)"
  shows "(\<forall>m. slot tol t vals = Some m \<longrightarrow> m \<in> set vals \<and> \<bar>tf m - t\<bar> \<le> tol)
    \<and> (slot tol t vals \<noteq> None \<longleftrightarrow> (\<exists>m\<in>set vals. \<bar>tf m - t\<bar> \<le> tol))
    \<and> (\<forall>m u. slot tol t vals = Some m \<and> u \<in> set vals \<and> \<bar>tf u - t\<bar> \<le> tol \<longrightarrow>
          \<bar>tf m - t\<bar> \<le> \<bar>tf u - t\<bar>)
    \<and> (\<forall>m\<in>set vals. \<bar>tf m - t\<bar> \<le> tol \<and>
          (\<forall>u\<in>set vals. u \<noteq> m \<longrightarrow> \<bar>tf m - t\<bar> < \<bar>tf u - t\<bar>) \<longrightarrow> slot tol t vals = Some m)
    \<and> (\<forall>m. tol + 1 \<le> \<bar>tf m - t\<bar> \<longrightarrow> slot tol t vals \<noteq> Some m)"
proof -
  have within: "\<forall>m. slot tol t vals = Some m \<longrightarrow> m \<in> set vals \<and> \<bar>tf m - t\<bar> \<le> tol"
    unfolding slot_def using closest_in_tolerance_Some [of tf tol t None "rev vals"] by auto
  have filled: "slot tol t vals \<noteq> None \<longleftrightarrow> (\<exists>m\<in>set vals. \<bar>tf m - t\<bar> \<le> tol)"
    unfolding slot_def by (simp add: closest_in_tolerance_None)
  have closest: "\<forall>m u. slot tol t vals = Some m \<and> u \<in> set vals \<and> \<bar>tf u - t\<bar> \<le> tol \<longrightarrow>
          \<bar>tf m - t\<bar> \<le> \<bar>tf u - t\<bar>"
    unfolding slot_def
    using closest_in_tolerance_closest [of tf tol t None "rev vals"] by simp
  have only: "\<forall>m\<in>set vals. \<bar>tf m - t\<bar> \<le> tol \<and>
          (\<forall>u\<in>set vals. u \<noteq> m \<longrightarrow> \<bar>tf m - t\<bar> < \<bar>tf u - t\<bar>) \<longrightarrow> slot tol t vals = Some m"
  proof (intro ballI impI)
    fix m
    assume m: "m \<in> set vals"
      and h: "\<bar>tf m - t\<bar> \<le> tol \<and> (\<forall>u\<in>set vals. u \<noteq> m \<longrightarrow> \<bar>tf m - t\<bar> < \<bar>tf u - t\<bar>)"
    with filled obtain v where v: "slot tol t vals = Some v" by blast
    with within have vin: "v \<in> set vals" by blast
    from closest v m h have "\<bar>tf v - t\<bar> \<le> \<bar>tf m - t\<bar>" by blast
    with h vin have "v = m" by force
    with v show "slot tol t vals = Some m" by simp
  qed
  have beyond: "\<forall>m. tol + 1 \<le> \<bar>tf m - t\<bar> \<longrightarrow> slot tol t vals \<noteq> Some m"
    using within by fastforce
  show ?thesis by (intro conjI within filled closest only beyond)
qed

text \<open>
  Claim C6. With tolerance \<open>\<tau> = hand_msg_tolerance_nsec\<close> and a window frame at timestamp
  \<open>t\<close>: whatever a hand slot of that frame holds is a queued message of that hand whose
  timestamp differs from \<open>t\<close> by at most \<open>\<tau>\<close>, so a message that differs by \<open>\<tau> + 1\<close> or
  more is never matched to the frame; the slot is filled exactly when some queued message of
  that hand is within \<open>\<tau>\<close> (inclusive); and a queued message within \<open>\<tau>\<close> fills the slot
  whenever every other queued message of that hand is farther from \<open>t\<close>.
\<close>

theorem window_hand_tolerance:
  assumes "get_window b window_size = Inr w" and "i < length (w_frames w)"
  shows "length (w_hand_pose_left w) = length (w_frames w)
    \<and> length (w_hand_pose_right w) = length (w_frames w)
    \<and> (\<forall>m. w_hand_pose_left w ! i = Some m \<or> w_hand_pose_right w ! i = Some m \<longrightarrow>
          \<bar>hand_msg_to_time_ns m - frame_time_ns (w_frames w ! i)\<bar> \<le> hand_msg_tolerance_nsec b)
    \<and> (\<forall>m. w_hand_pose_left w ! i = Some m \<longrightarrow> m \<in> set (hand_pose_left b))
    \<and> (\<forall>m. w_hand_pose_right w ! i = Some m \<longrightarrow> m \<in> set (hand_pose_right b))
    \<and> (\<forall>m. hand_msg_tolerance_nsec b + 1 \<le>
             \<bar>hand_msg_to_time_ns m - frame_time_ns (w_frames w ! i)\<bar> \<longrightarrow>
          w_hand_pose_left w ! i \<noteq> Some m \<and> w_hand_pose_right w ! i \<noteq> Some m)
    \<and> (w_hand_pose_left w ! i \<noteq> None \<longleftrightarrow>
         (\<exists>m\<in>set (hand_pose_left b).
            \<bar>hand_msg_to_time_ns m - frame_time_ns (w_frames w ! i)\<bar> \<le> hand_msg_tolerance_nsec b))
    \<and> (w_hand_pose_right w ! i \<noteq> None \<longleftrightarrow>
         (\<exists>m\<in>set (hand_pose_right b).
            \<bar>hand_msg_to_time_ns m - frame_time_ns (w_frames w ! i)\<bar> \<le> hand_msg_tolerance_nsec b))
    \<and> (\<forall>m\<in>set (hand_pose_left b).
          \<bar>hand_msg_to_time_ns m - frame_time_ns (w_frames w ! i)\<bar> \<le> hand_msg_tolerance_nsec b \<and>
          (\<forall>u\<in>set (hand_pose_left b). u \<noteq> m \<longrightarrow>
             \<bar>hand_msg_to_time_ns m - frame_time_ns (w_frames w ! i)\<bar>
               < \<bar>hand_msg_to_time_ns u - frame_time_ns (w_frames w ! i)\<bar>) \<longrightarrow>
          w_hand_pose_left w ! i = Some m)
    \<and> (\<forall>m\<in>set (hand_pose_right b).
          \<bar>hand_msg_to_time_ns m - frame_time_ns (w_frames w ! i)\<bar> \<le> hand_msg_tolerance_nsec b \<and>
          (\<forall>u\<in>set (hand_pose_right b). u \<noteq> m \<longrightarrow>
             \<bar>hand_msg_to_time_ns m - frame_time_ns (w_frames w ! i)\<bar>
               < \<bar>hand_msg_to_time_ns u - frame_time_ns (w_frames w ! i)\<bar>) \<longrightarrow>
          w_hand_pose_right w ! i = Some m)"
proof -
  let ?t = "frame_time_ns (w_frames w ! i)"
  let ?tol = "hand_msg_tolerance_nsec b"
  let ?slot = "\<lambda>vals. closest_in_tolerance hand_msg_to_time_ns ?tol ?t None (rev vals)"
  note sl = get_window_slots(2) [OF assms(1)] and sr = get_window_slots(3) [OF assms(1)]
  have l: "w_hand_pose_left w ! i = ?slot (hand_pose_left b)"
    using assms(2) by (simp add: sl)
  have r: "w_hand_pose_right w ! i = ?slot (hand_pose_right b)"
    using assms(2) by (simp add: sr)
  note L = closest_in_tolerance_slot [of hand_msg_to_time_ns ?tol ?t "hand_pose_left b", folded l]
  note R = closest_in_tolerance_slot [of hand_msg_to_time_ns ?tol ?t "hand_pose_right b", folded r]
  have len: "length (w_hand_pose_left w) = length (w_frames w)"
    "length (w_hand_pose_right w) = length (w_frames w)"
    by (simp_all add: sl sr)
  have within: "\<forall>m. w_hand_pose_left w ! i = Some m \<or> w_hand_pose_right w ! i = Some m \<longrightarrow>
          \<bar>hand_msg_to_time_ns m - ?t\<bar> \<le> ?tol"
    using L R by blast
  have beyond: "\<forall>m. ?tol + 1 \<le> \<bar>hand_msg_to_time_ns m - ?t\<bar> \<longrightarrow>
          w_hand_pose_left w ! i \<noteq> Some m \<and> w_hand_pose_right w ! i \<noteq> Some m"
    using L R by blast
  have inl: "\<forall>m. w_hand_pose_left w ! i = Some m \<longrightarrow> m \<in> set (hand_pose_left b)"
    using L by blast
  have inr: "\<forall>m. w_hand_pose_right w ! i = Some m \<longrightarrow> m \<in> set (hand_pose_right b)"
    using R by blast
  show ?thesis
    by (intro conjI len within inl inr beyond
        L [THEN conjunct2, THEN conjunct1] R [THEN conjunct2, THEN conjunct1]
        L [THEN conjunct2, THEN conjunct2, THEN conjunct2, THEN conjunct1]
        R [THEN conjunct2, THEN conjunct2, THEN conjunct2, THEN conjunct1])
qed


theorem window_hand_tolerance_witness:
  "get_window
     (snd (queue_hand_pose (snd (queue_hand_pose (queue_image (new_InputBuffer 5) (image_at 100 0))
        (hand_at 105 ''Left''))) (hand_at 94 ''Right''))) 1
     = Inr \<lparr>w_frames = [(stamp 100, 0)], w_hand_pose_left = [Some (hand_at 105 ''Left'')],
            w_hand_pose_right = [None], w_obj_dets = [None]\<rparr>
   \<and> (0::nat) < length [(stamp 100, 0::nat)]
   \<and> \<bar>hand_msg_to_time_ns (hand_at 105 ''Left'') - frame_time_ns (stamp 100, 0)\<bar> = 5
   \<and> \<bar>hand_msg_to_time_ns (hand_at 94 ''Right'') - frame_time_ns (stamp 100, 0)\<bar> = 5 + 1"
  using window_hand_tolerance [of
      "snd (queue_hand_pose (snd (queue_hand_pose (queue_image (new_InputBuffer 5) (image_at 100 0))
        (hand_at 105 ''Left''))) (hand_at 94 ''Right''))" 1
      "\<lparr>w_frames = [(stamp 100, 0)], w_hand_pose_left = [Some (hand_at 105 ''Left'')],
        w_hand_pose_right = [None], w_obj_dets = [None]\<rparr>" 0]
  by (simp add: get_window_def tail_window_def descending_match_with_tolerance_def
      queue_hand_pose_def queue_image_def new_InputBuffer_def image_at_def hand_at_def
      stamp_def objdet_msg_to_time_ns_def frame_time_ns_def time_to_int_def
      hand_msg_to_time_ns_def)


lemma set_popleft_while_before: "set (popleft_while_before key t xs) \<subseteq> set xs"
  by (induction xs) auto

lemma obj_dets_clear_before: "set (obj_dets (clear_before b t)) \<subseteq> set (obj_dets b)"
  by (simp add: clear_before_def set_popleft_while_before)

lemma obj_dets_queue_hand_pose: "obj_dets (snd (queue_hand_pose b m)) = obj_dets b"
  by (simp add: queue_hand_pose_def)

lemma deliver_topk: "topk (deliver n m) = topk n"
  by (cases m)
     (auto simp: image_callback_def hand_callback_def obj_det_callback_def Let_def
       split: prod.splits sum.splits list.splits)

lemma obj_det_callback_dets:
  "set (obj_dets (input_buffer (snd (obj_det_callback n msg)))) \<subseteq>
     set (obj_dets (input_buffer n)) \<union> (if ods_num_detections msg < topk n then {} else {msg})"
proof -
  have cb: "\<And>b t x. x \<in> set (obj_dets (clear_before b t)) \<Longrightarrow> x \<in> set (obj_dets b)"
    using obj_dets_clear_before by blast
  show ?thesis
    by (auto simp: obj_det_callback_def Let_def queue_object_detections_def
        split: sum.splits list.splits dest!: cb)
qed

lemma deliver_dets_inv:
  assumes "\<forall>d\<in>set (obj_dets (input_buffer n)). topk n \<le> ods_num_detections d"
  shows "\<forall>d\<in>set (obj_dets (input_buffer (deliver n m))). topk n \<le> ods_num_detections d"
proof (cases m)
  case (ImageMsg x)
  with assms show ?thesis by (simp add: image_callback_def queue_image_def)
next
  case (HandMsg x)
  with assms show ?thesis
    by (simp add: hand_callback_def obj_dets_queue_hand_pose split: prod.splits)
       (metis obj_dets_queue_hand_pose snd_conv)
next
  case (ObjDetMsg x)
  show ?thesis
  proof
    fix d assume "d \<in> set (obj_dets (input_buffer (deliver n m)))"
    with ObjDetMsg obj_det_callback_dets [of n x]
    have "d \<in> set (obj_dets (input_buffer n)) \<or> (d = x \<and> \<not> ods_num_detections x < topk n)"
      by (auto split: if_splits)
    with assms show "topk n \<le> ods_num_detections d" by auto
  qed
qed

lemma deliver_all_dets_inv:
  "\<forall>d\<in>set (obj_dets (input_buffer n)). topk n \<le> ods_num_detections d \<Longrightarrow>
   topk (deliver_all n ms) = topk n \<and>
   (\<forall>d\<in>set (obj_dets (input_buffer (deliver_all n ms))). topk n \<le> ods_num_detections d)"
  unfolding deliver_all_def
proof (induction ms arbitrary: n)
  case Nil
  then show ?case by simp
next
  case (Cons m ms)
  from deliver_dets_inv [OF Cons.prems, of m]
  have "\<forall>d\<in>set (obj_dets (input_buffer (deliver n m))). topk (deliver n m) \<le> ods_num_detections d"
    by (simp add: deliver_topk)
  from Cons.IH [OF this] show ?case by (simp add: deliver_topk)
qed

text \<open>
  Claim C10. For a detection-set message with fewer than \<open>top_k\<close> detections,
  \<open>obj_det_callback\<close> returns normally and leaves the node, hence every deque of its
  buffer, unchanged. Consequently, after any sequence of deliveries to a freshly constructed
  node, no queued detection set has fewer than \<open>top_k\<close> detections, and none fills a slot
  of any window extracted from the buffer.
\<close>

theorem obj_det_callback_min_detections:
  "(ods_num_detections msg < topk n \<longrightarrow> obj_det_callback n msg = (Returned (), n))
   \<and> (\<forall>d\<in>set (obj_dets (input_buffer (deliver_all (new_UHOActivityDetector k fpd) ms))).
         k \<le> ods_num_detections d)
   \<and> (\<forall>window_size w d.
         get_window (input_buffer (deliver_all (new_UHOActivityDetector k fpd) ms)) window_size
           = Inr w \<and> Some d \<in> set (w_obj_dets w) \<longrightarrow> k \<le> ods_num_detections d)"
proof -
  let ?n = "deliver_all (new_UHOActivityDetector k fpd) ms"
  have a: "ods_num_detections msg < topk n \<longrightarrow> obj_det_callback n msg = (Returned (), n)"
    by (simp add: obj_det_callback_def)
  have b: "\<forall>d\<in>set (obj_dets (input_buffer ?n)). k \<le> ods_num_detections d"
    using deliver_all_dets_inv [of "new_UHOActivityDetector k fpd" ms]
    by (simp add: new_UHOActivityDetector_def new_InputBuffer_def)
  have c: "\<forall>window_size w d. get_window (input_buffer ?n) window_size = Inr w \<and>
      Some d \<in> set (w_obj_dets w) \<longrightarrow> k \<le> ods_num_detections d"
  proof (intro allI impI)
    fix window_size w d
    assume h: "get_window (input_buffer ?n) window_size = Inr w \<and> Some d \<in> set (w_obj_dets w)"
    then have "d \<in> set (obj_dets (input_buffer ?n))" by (blast intro: window_obj_dets_queued)
    with b show "k \<le> ods_num_detections d" by blast
  qed
  show ?thesis by (intro conjI a b c)
qed

theorem obj_det_callback_min_detections_witness:
  "ods_num_detections (dets_at 10 4 1) < topk (new_UHOActivityDetector 5 2)
   \<and> obj_det_callback (new_UHOActivityDetector 5 2) (dets_at 10 4 1) =
       (Returned (), new_UHOActivityDetector 5 2)
   \<and> obj_dets (input_buffer (deliver_all (new_UHOActivityDetector 5 2)
        [ImageMsg (image_at 10 0), ObjDetMsg (dets_at 10 4 1), ObjDetMsg (dets_at 10 5 2)])) =
       [dets_at 10 5 2]
   \<and> get_window (input_buffer (deliver_all (new_UHOActivityDetector 5 2)
        [ImageMsg (image_at 10 0), ObjDetMsg (dets_at 10 4 1), ObjDetMsg (dets_at 10 5 2)])) 2
     = Inr \<lparr>w_frames = [(stamp 10, 0)], w_hand_pose_left = [None], w_hand_pose_right = [None],
            w_obj_dets = [Some (dets_at 10 5 2)]\<rparr>"
  using obj_det_callback_min_detections [of "dets_at 10 4 1" "new_UHOActivityDetector 5 2" 5 2
      "[ImageMsg (image_at 10 0), ObjDetMsg (dets_at 10 4 1), ObjDetMsg (dets_at 10 5 2)]"]
  by (simp add: deliver_all_def obj_det_callback_def image_callback_def
      get_window_detections_def get_window_def tail_window_def
      descending_match_with_tolerance_def new_UHOActivityDetector_def
      queue_object_detections_def queue_image_def new_InputBuffer_def image_at_def dets_at_def
      stamp_def objdet_msg_to_time_ns_def frame_time_ns_def time_to_int_def
      hand_msg_to_time_ns_def)

section \<open>Properties of the runtime loop\<close>

text \<open>Definitions unfolded to evaluate the runtime loop on concrete inputs.\<close>

lemmas eval_defs = node_with_def new_ActivityClassifierTCN_def new_TcnBuffer_def
  rt_loop_iteration_def rt_extract_window_def rt_record_extracted_def rt_handle_window_def
  window_valid_def window_processing_criterion_fn_list_def window_criterion_correct_size_def
  window_criterion_new_leading_frame_def window_criterion_coco_input_mode_def
  window_time_ns_def tb_get_window_def tb_clear_before_def tb_latest_time_def tail_window_def
  descending_match_with_tolerance_def process_window_def example_externals_def heappush_def
  stamp_def dets_at_def objdet_msg_to_time_ns_def pose_msg_to_time_ns_def frame_time_ns_def
  time_to_int_def queue_tuple_def queue_frame_def tb_queue_image_def tb_queue_object_detections_def Let_def

lemma process_window_frame:
  "n_buffer (snd (process_window ext n w)) = n_buffer n
   \<and> n_window_processed_time_ns (snd (process_window ext n w)) = n_window_processed_time_ns n
   \<and> n_window_extracted_time_ns (snd (process_window ext n w)) = n_window_extracted_time_ns n
   \<and> n_window_size (snd (process_window ext n w)) = n_window_size n
   \<and> n_buffer_max_size_nsec (snd (process_window ext n w)) = n_buffer_max_size_nsec n
   \<and> n_window_lead_with_objects (snd (process_window ext n w)) = n_window_lead_with_objects n
   \<and> n_coco_input_mode (snd (process_window ext n w)) = n_coco_input_mode n
   \<and> n_published (snd (process_window ext n w)) = n_published n"
  by (simp add: process_window_def Let_def split: prod.splits sum.splits option.splits list.splits)

lemma rt_handle_window_processed:
  assumes "rt_handle_window ext n window = (r, n')"
  shows "(window_valid n window \<and> r = Returned () \<longrightarrow>
            n_window_processed_time_ns n' = window_time_ns window)
       \<and> (\<not> window_valid n window \<or> r \<noteq> Returned () \<longrightarrow>
            n_window_processed_time_ns n' = n_window_processed_time_ns n)"
proof (cases "window_valid n window")
  case False
  with assms show ?thesis
    by (auto simp: rt_handle_window_def split: sum.splits if_splits)
next
  case True
  show ?thesis
  proof (cases "tw_frames window")
    case Nil
    with True assms show ?thesis by (auto simp: rt_handle_window_def)
  next
    case (Cons f0 fs)
    show ?thesis
    proof (cases fs)
      case Nil
      with Cons True assms show ?thesis by (auto simp: rt_handle_window_def)
    next
      case (Cons f1 fs')
      let ?n1 = "n\<lparr>n_buffer := tb_clear_before (n_buffer n) (time_to_int (fst f1))\<rparr>"
      obtain r2 n2 where pw: "process_window ext ?n1 window = (r2, n2)" by fastforce
      have "n_window_processed_time_ns n2 = n_window_processed_time_ns n"
        using process_window_frame [of ext ?n1 window] pw by simp
      with assms True Cons \<open>tw_frames window = f0 # fs\<close> pw show ?thesis
        by (auto simp: rt_handle_window_def Let_def split: outcome.splits if_splits)
    qed
  qed
qed

text \<open>
  Claim C1, as stated, compares with the last successfully processed window. The loop
  records the trailing time of a window after the \<open>try\<close> statement, also when
  \<open>_process_window\<close> raised \<open>NoActivityClassification\<close> and nothing was published.
  With window size 2: the window of the frames stamped 0 and 10 ns is classified and
  published; after the frame stamped 24 ns is queued, the window of 10 and 24 ns passes
  validation but yields no classification (its detection slots are empty); the window
  extracted next ends at 24 ns and the criterion rejects it, although the last window that
  produced a classification ended at 10 ns.
\<close>

theorem progress_after_no_classification_counterexample:
  "n_published (snd (rt_loop_iteration example_externals
        (node_with 2 15 [(stamp 0, 0), (stamp 10, 1)] [dets_at 0 1 0]))) =
     [\<lparr>ad_source_stamp_start_frame = stamp 0, ad_source_stamp_end_frame = stamp 10,
         ad_conf_vec = [2]\<rparr>]
   \<and> rt_extract_window (queue_frame (snd (rt_loop_iteration example_externals
        (node_with 2 15 [(stamp 0, 0), (stamp 10, 1)] [dets_at 0 1 0]))) (stamp 24) 2) =
     Inr \<lparr>tw_frames = [(stamp 10, 1), (stamp 24, 2)], tw_obj_dets = [None, None],
         tw_patient_joint_kps = [None, None]\<rparr>
   \<and> fst (rt_loop_iteration example_externals
      (queue_frame (snd (rt_loop_iteration example_externals
        (node_with 2 15 [(stamp 0, 0), (stamp 10, 1)] [dets_at 0 1 0]))) (stamp 24) 2)) = Returned ()
   \<and> n_published (snd (rt_loop_iteration example_externals
      (queue_frame (snd (rt_loop_iteration example_externals
        (node_with 2 15 [(stamp 0, 0), (stamp 10, 1)] [dets_at 0 1 0]))) (stamp 24) 2))) =
     [\<lparr>ad_source_stamp_start_frame = stamp 0, ad_source_stamp_end_frame = stamp 10,
         ad_conf_vec = [2]\<rparr>]
   \<and> rt_extract_window (snd (rt_loop_iteration example_externals
      (queue_frame (snd (rt_loop_iteration example_externals
        (node_with 2 15 [(stamp 0, 0), (stamp 10, 1)] [dets_at 0 1 0]))) (stamp 24) 2))) =
     Inr \<lparr>tw_frames = [(stamp 24, 2)], tw_obj_dets = [None],
         tw_patient_joint_kps = [None]\<rparr>
   \<and> \<not> window_criterion_new_leading_frame (snd (rt_loop_iteration example_externals
      (queue_frame (snd (rt_loop_iteration example_externals
        (node_with 2 15 [(stamp 0, 0), (stamp 10, 1)] [dets_at 0 1 0]))) (stamp 24) 2)))
        \<lparr>tw_frames = [(stamp 24, 2)], tw_obj_dets = [None],
         tw_patient_joint_kps = [None]\<rparr>
   \<and> time_to_int (ad_source_stamp_end_frame
        \<lparr>ad_source_stamp_start_frame = stamp 0, ad_source_stamp_end_frame = stamp 10,
         ad_conf_vec = [2]\<rparr>)
       < time_to_int (fst (last [(stamp 24, 2::nat)]))"
  by (simp add: eval_defs)

text \<open>
  Claim C1, amended. For every non-empty window, \<open>_window_criterion_new_leading_frame\<close>
  accepts exactly when no window has completed the processing branch of the loop yet
  (\<open>_window_processed_time_ns\<close> is \<open>None\<close>, as the constructor leaves it) or the
  window's trailing frame timestamp is strictly greater than the recorded one; so the first
  window passes and an equal or lesser trailing timestamp is rejected. The recorded value
  is the trailing timestamp of the last window that passed validation and went through the
  processing branch, whether it was classified or \<open>_process_window\<close> raised
  \<open>NoActivityClassification\<close> (then nothing is published and the time is recorded all
  the same); a rejected window, or one whose handling raises another exception, leaves the
  record as it was.
\<close>

theorem progress_criterion:
  "(tw_frames window \<noteq> [] \<longrightarrow>
      (window_criterion_new_leading_frame n window \<longleftrightarrow>
         (n_window_processed_time_ns n = None \<or>
          (\<exists>prev. n_window_processed_time_ns n = Some prev \<and>
                  prev < time_to_int (fst (last (tw_frames window)))))))
   \<and> (tw_frames window \<noteq> [] \<and> n_window_processed_time_ns n = None \<longrightarrow>
        window_criterion_new_leading_frame n window)
   \<and> (\<forall>prev. tw_frames window \<noteq> [] \<and> n_window_processed_time_ns n = Some prev \<and>
         time_to_int (fst (last (tw_frames window))) \<le> prev \<longrightarrow>
        \<not> window_criterion_new_leading_frame n window)
   \<and> n_window_processed_time_ns (new_ActivityClassifierTCN ws mx lead coco) = None
   \<and> (\<forall>r n'. rt_handle_window ext n window = (r, n') \<longrightarrow>
        (window_valid n window \<and> r = Returned () \<longrightarrow>
           n_window_processed_time_ns n' = Some (time_to_int (fst (last (tw_frames window)))))
        \<and> (\<not> window_valid n window \<or> r \<noteq> Returned () \<longrightarrow>
             n_window_processed_time_ns n' = n_window_processed_time_ns n))
   \<and> (\<forall>f0 f1 fs n2. window_valid n window \<and> tw_frames window = f0 # f1 # fs \<and>
         process_window ext
           (n\<lparr>n_buffer := tb_clear_before (n_buffer n) (time_to_int (fst f1))\<rparr>) window
           = (Raised NoActivityClassification, n2) \<longrightarrow>
        rt_handle_window ext n window =
          (Returned (), n2\<lparr>n_window_processed_time_ns :=
              Some (time_to_int (fst (last (tw_frames window))))\<rparr>)
        \<and> n_published n2 = n_published n)"
proof -
  have crit: "tw_frames window \<noteq> [] \<longrightarrow>
      (window_criterion_new_leading_frame n window \<longleftrightarrow>
         (n_window_processed_time_ns n = None \<or>
          (\<exists>prev. n_window_processed_time_ns n = Some prev \<and>
                  prev < time_to_int (fst (last (tw_frames window))))))"
    by (auto simp: window_criterion_new_leading_frame_def Let_def split: option.splits)
  have first: "tw_frames window \<noteq> [] \<and> n_window_processed_time_ns n = None \<longrightarrow>
        window_criterion_new_leading_frame n window"
    using crit by blast
  have dup: "\<forall>prev. tw_frames window \<noteq> [] \<and> n_window_processed_time_ns n = Some prev \<and>
         time_to_int (fst (last (tw_frames window))) \<le> prev \<longrightarrow>
        \<not> window_criterion_new_leading_frame n window"
    using crit by auto
  have init: "n_window_processed_time_ns (new_ActivityClassifierTCN ws mx lead coco) = None"
    by (simp add: new_ActivityClassifierTCN_def)
  have rec: "\<forall>r n'. rt_handle_window ext n window = (r, n') \<longrightarrow>
        (window_valid n window \<and> r = Returned () \<longrightarrow>
           n_window_processed_time_ns n' = Some (time_to_int (fst (last (tw_frames window)))))
        \<and> (\<not> window_valid n window \<or> r \<noteq> Returned () \<longrightarrow>
             n_window_processed_time_ns n' = n_window_processed_time_ns n)"
  proof (intro allI impI)
    fix r n' assume h: "rt_handle_window ext n window = (r, n')"
    have ne: "window_valid n window \<Longrightarrow> tw_frames window \<noteq> []"
      by (auto simp: window_valid_def window_processing_criterion_fn_list_def
          window_criterion_new_leading_frame_def)
    from rt_handle_window_processed [OF h] ne
    show "(window_valid n window \<and> r = Returned () \<longrightarrow>
           n_window_processed_time_ns n' = Some (time_to_int (fst (last (tw_frames window)))))
        \<and> (\<not> window_valid n window \<or> r \<noteq> Returned () \<longrightarrow>
             n_window_processed_time_ns n' = n_window_processed_time_ns n)"
      by (auto simp: window_time_ns_def)
  qed
  have noact: "\<forall>f0 f1 fs n2. window_valid n window \<and> tw_frames window = f0 # f1 # fs \<and>
         process_window ext
           (n\<lparr>n_buffer := tb_clear_before (n_buffer n) (time_to_int (fst f1))\<rparr>) window
           = (Raised NoActivityClassification, n2) \<longrightarrow>
        rt_handle_window ext n window =
          (Returned (), n2\<lparr>n_window_processed_time_ns :=
              Some (time_to_int (fst (last (tw_frames window))))\<rparr>)
        \<and> n_published n2 = n_published n"
  proof (intro allI impI)
    fix f0 f1 :: "Time \<times> nat" and fs n2
    let ?n1 = "n\<lparr>n_buffer := tb_clear_before (n_buffer n) (time_to_int (fst f1))\<rparr>"
    assume h: "window_valid n window \<and> tw_frames window = f0 # f1 # fs \<and>
         process_window ext ?n1 window = (Raised NoActivityClassification, n2)"
    then have a: "rt_handle_window ext n window =
          (Returned (), n2\<lparr>n_window_processed_time_ns :=
              Some (time_to_int (fst (last (tw_frames window))))\<rparr>)"
      by (simp add: rt_handle_window_def window_time_ns_def)
    have b: "n_published n2 = n_published n"
      using process_window_frame [of ext ?n1 window] h by simp
    from a b show "rt_handle_window ext n window =
          (Returned (), n2\<lparr>n_window_processed_time_ns :=
              Some (time_to_int (fst (last (tw_frames window))))\<rparr>)
        \<and> n_published n2 = n_published n" by (rule conjI)
  qed
  show ?thesis by (intro conjI crit first dup init rec noact)
qed

theorem progress_criterion_witness:
  "tw_frames \<lparr>tw_frames = [(stamp 10, 1), (stamp 24, 2)], tw_obj_dets = [None, None],
         tw_patient_joint_kps = [None, None]\<rparr> \<noteq> []
   \<and> n_window_processed_time_ns (node_with 2 15 [(stamp 0, 0), (stamp 10, 1)] [dets_at 0 1 0]) = None
   \<and> window_criterion_new_leading_frame (node_with 2 15 [(stamp 0, 0), (stamp 10, 1)] [dets_at 0 1 0])
        \<lparr>tw_frames = [(stamp 10, 1), (stamp 24, 2)], tw_obj_dets = [None, None],
         tw_patient_joint_kps = [None, None]\<rparr>
   \<and> window_valid (rt_record_extracted (queue_frame (snd (rt_loop_iteration example_externals
        (node_with 2 15 [(stamp 0, 0), (stamp 10, 1)] [dets_at 0 1 0]))) (stamp 24) 2)
        \<lparr>tw_frames = [(stamp 10, 1), (stamp 24, 2)], tw_obj_dets = [None, None],
         tw_patient_joint_kps = [None, None]\<rparr>)
        \<lparr>tw_frames = [(stamp 10, 1), (stamp 24, 2)], tw_obj_dets = [None, None],
         tw_patient_joint_kps = [None, None]\<rparr>
   \<and> fst (process_window example_externals
        ((rt_record_extracted (queue_frame (snd (rt_loop_iteration example_externals
        (node_with 2 15 [(stamp 0, 0), (stamp 10, 1)] [dets_at 0 1 0]))) (stamp 24) 2)
        \<lparr>tw_frames = [(stamp 10, 1), (stamp 24, 2)], tw_obj_dets = [None, None],
         tw_patient_joint_kps = [None, None]\<rparr>)
          \<lparr>n_buffer := tb_clear_before (n_buffer (rt_record_extracted (queue_frame (snd (rt_loop_iteration example_externals
        (node_with 2 15 [(stamp 0, 0), (stamp 10, 1)] [dets_at 0 1 0]))) (stamp 24) 2)
        \<lparr>tw_frames = [(stamp 10, 1), (stamp 24, 2)], tw_obj_dets = [None, None],
         tw_patient_joint_kps = [None, None]\<rparr>))
             (time_to_int (fst (stamp 24, 2::nat)))\<rparr>)
        \<lparr>tw_frames = [(stamp 10, 1), (stamp 24, 2)], tw_obj_dets = [None, None],
         tw_patient_joint_kps = [None, None]\<rparr>) = Raised NoActivityClassification
   \<and> fst (rt_handle_window example_externals (rt_record_extracted (queue_frame (snd (rt_loop_iteration example_externals
        (node_with 2 15 [(stamp 0, 0), (stamp 10, 1)] [dets_at 0 1 0]))) (stamp 24) 2)
        \<lparr>tw_frames = [(stamp 10, 1), (stamp 24, 2)], tw_obj_dets = [None, None],
         tw_patient_joint_kps = [None, None]\<rparr>)
        \<lparr>tw_frames = [(stamp 10, 1), (stamp 24, 2)], tw_obj_dets = [None, None],
         tw_patient_joint_kps = [None, None]\<rparr>) = Returned ()
   \<and> n_window_processed_time_ns (snd (rt_handle_window example_externals (rt_record_extracted (queue_frame (snd (rt_loop_iteration example_externals
        (node_with 2 15 [(stamp 0, 0), (stamp 10, 1)] [dets_at 0 1 0]))) (stamp 24) 2)
        \<lparr>tw_frames = [(stamp 10, 1), (stamp 24, 2)], tw_obj_dets = [None, None],
         tw_patient_joint_kps = [None, None]\<rparr>)
        \<lparr>tw_frames = [(stamp 10, 1), (stamp 24, 2)], tw_obj_dets = [None, None],
         tw_patient_joint_kps = [None, None]\<rparr>)) = Some 24
   \<and> n_window_processed_time_ns (snd (rt_loop_iteration example_externals
      (queue_frame (snd (rt_loop_iteration example_externals
        (node_with 2 15 [(stamp 0, 0), (stamp 10, 1)] [dets_at 0 1 0]))) (stamp 24) 2))) = Some 24
   \<and> \<not> window_criterion_new_leading_frame (snd (rt_loop_iteration example_externals
      (queue_frame (snd (rt_loop_iteration example_externals
        (node_with 2 15 [(stamp 0, 0), (stamp 10, 1)] [dets_at 0 1 0]))) (stamp 24) 2)))
        \<lparr>tw_frames = [(stamp 24, 2)], tw_obj_dets = [None],
         tw_patient_joint_kps = [None]\<rparr>"
proof -
  let ?WB = "\<lparr>tw_frames = [(stamp 10, 1), (stamp 24, 2)], tw_obj_dets = [None, None],
         tw_patient_joint_kps = [None, None]\<rparr>"
  let ?WC = "\<lparr>tw_frames = [(stamp 24, 2)], tw_obj_dets = [None],
         tw_patient_joint_kps = [None]\<rparr>"
  let ?NA = "(node_with 2 15 [(stamp 0, 0), (stamp 10, 1)] [dets_at 0 1 0])"
  let ?NB = "(rt_record_extracted (queue_frame (snd (rt_loop_iteration example_externals
        (node_with 2 15 [(stamp 0, 0), (stamp 10, 1)] [dets_at 0 1 0]))) (stamp 24) 2)
        \<lparr>tw_frames = [(stamp 10, 1), (stamp 24, 2)], tw_obj_dets = [None, None],
         tw_patient_joint_kps = [None, None]\<rparr>)"
  let ?S2 = "(snd (rt_loop_iteration example_externals
      (queue_frame (snd (rt_loop_iteration example_externals
        (node_with 2 15 [(stamp 0, 0), (stamp 10, 1)] [dets_at 0 1 0]))) (stamp 24) 2)))"
  let ?N1 = "?NB\<lparr>n_buffer := tb_clear_before (n_buffer ?NB) (time_to_int (fst (stamp 24, 2::nat)))\<rparr>"
  note crit_B = progress_criterion [of ?WB ?NA 2 15 False False example_externals]
  note crit_NB = progress_criterion [of ?WB ?NB 2 15 False False example_externals]
  note crit_C = progress_criterion [of ?WC ?S2 2 15 False False example_externals]
  have c1: "tw_frames ?WB \<noteq> []" by simp
  have c2: "n_window_processed_time_ns ?NA = None"
    by (simp add: node_with_def new_ActivityClassifierTCN_def)
  have c3: "window_criterion_new_leading_frame ?NA ?WB"
    using crit_B [THEN conjunct2, THEN conjunct1] c1 c2 by blast
  have c4: "window_valid ?NB ?WB" by (simp add: eval_defs)
  have c5: "fst (process_window example_externals ?N1 ?WB) = Raised NoActivityClassification"
    by (simp add: eval_defs)
  then have pw: "process_window example_externals ?N1 ?WB =
      (Raised NoActivityClassification, snd (process_window example_externals ?N1 ?WB))"
    by (simp add: prod_eq_iff)
  have fr: "tw_frames ?WB = (stamp 10, 1) # (stamp 24, 2) # []" by simp
  have tr: "time_to_int (fst (last (tw_frames ?WB))) = 24"
    by (simp add: stamp_def time_to_int_def)
  have h: "rt_handle_window example_externals ?NB ?WB =
      (Returned (), (snd (process_window example_externals ?N1 ?WB))
         \<lparr>n_window_processed_time_ns := Some (time_to_int (fst (last (tw_frames ?WB))))\<rparr>)"
    using crit_NB [THEN conjunct2, THEN conjunct2, THEN conjunct2, THEN conjunct2,
        THEN conjunct2, rule_format, of "(stamp 10, 1)" "(stamp 24, 2)" "[]"
        "snd (process_window example_externals ?N1 ?WB)"] c4 fr pw
    by blast
  have c6: "fst (rt_handle_window example_externals ?NB ?WB) = Returned ()"
    unfolding h by simp
  have c7: "n_window_processed_time_ns (snd (rt_handle_window example_externals ?NB ?WB)) = Some 24"
    unfolding h tr by simp
  have c8: "n_window_processed_time_ns ?S2 = Some 24" by (simp add: eval_defs)
  have tc: "time_to_int (fst (last (tw_frames ?WC))) \<le> 24"
    by (simp add: stamp_def time_to_int_def)
  have c9: "\<not> window_criterion_new_leading_frame ?S2 ?WC"
    using crit_C [THEN conjunct2, THEN conjunct2, THEN conjunct1, rule_format, of 24] c8 tc
    by simp
  show ?thesis by (intro conjI c1 c2 c3 c4 c5 c6 c7 c8 c9)
qed









section \<open>Properties of window processing\<close>

lemma preproc_detections_keeps:
  "preproc_detections i msgs memo h calls out = (r, memo', h', calls') \<Longrightarrow>
   memo k = Some v \<Longrightarrow> memo' k = Some v"
proof (induction i msgs memo h calls out arbitrary: r memo' h' calls'
    rule: preproc_detections.induct)
  case (1 i memo h calls out)
  then show ?case by simp
next
  case (2 i rest memo h calls out)
  then show ?case by simp
next
  case (3 i det_msg rest memo h calls out)
  let ?k = "time_to_int (ods_source_stamp det_msg)"
  show ?case
  proof (cases "memo ?k")
    case None
    let ?v = "ObjectDetectionsLTRB ?k (ods_body det_msg)"
    from None "3.prems"(2) have ne: "k \<noteq> ?k" by auto
    show ?thesis
    proof (cases "i < length out")
      case True
      with None "3.prems" have run: "preproc_detections (Suc i) rest (memo(?k \<mapsto> ?v))
          (heappush h ?k) (calls @ [MakeDetections ?k]) (out[i := Some ?v]) = (r, memo', h', calls')"
        by (simp add: Let_def)
      from "3.prems"(2) ne have "(memo(?k \<mapsto> ?v)) k = Some v" by simp
      from "3.IH"(1) [OF refl None refl refl refl refl True run this] show ?thesis .
    next
      case False
      with None "3.prems" ne show ?thesis by (auto simp: Let_def)
    qed
  next
    case (Some v')
    show ?thesis
    proof (cases "i < length out")
      case True
      with Some "3.prems" have run: "preproc_detections (Suc i) rest memo h calls
          (out[i := Some v']) = (r, memo', h', calls')"
        by (simp add: Let_def)
      from "3.IH"(2) [OF refl Some True run "3.prems"(2)] show ?thesis .
    next
      case False
      with Some "3.prems" show ?thesis by (auto simp: Let_def)
    qed
  qed
qed

lemma preproc_detections_calls:
  "preproc_detections i msgs memo h calls out = (r, memo', h', calls') \<Longrightarrow>
   \<exists>new. calls' = calls @ new \<and> distinct new \<and>
     (\<forall>c\<in>set new. \<exists>k. c = MakeDetections k \<and> memo k = None \<and> memo' k \<noteq> None)"
proof (induction i msgs memo h calls out arbitrary: r memo' h' calls'
    rule: preproc_detections.induct)
  case (1 i memo h calls out)
  then show ?case by simp
next
  case (2 i rest memo h calls out)
  then show ?case by simp
next
  case (3 i det_msg rest memo h calls out)
  let ?k = "time_to_int (ods_source_stamp det_msg)"
  show ?case
  proof (cases "memo ?k")
    case None
    let ?v = "ObjectDetectionsLTRB ?k (ods_body det_msg)"
    show ?thesis
    proof (cases "i < length out")
      case True
      with None "3.prems" have run: "preproc_detections (Suc i) rest (memo(?k \<mapsto> ?v))
          (heappush h ?k) (calls @ [MakeDetections ?k]) (out[i := Some ?v]) = (r, memo', h', calls')"
        by (simp add: Let_def)
      from "3.IH"(1) [OF refl None refl refl refl refl True run]
      obtain new where new: "calls' = (calls @ [MakeDetections ?k]) @ new" "distinct new"
        "\<forall>c\<in>set new. \<exists>k. c = MakeDetections k \<and> (memo(?k \<mapsto> ?v)) k = None \<and> memo' k \<noteq> None"
        by blast
      have keep: "memo' ?k \<noteq> None"
        using preproc_detections_keeps [OF run, of ?k ?v] by simp
      have notin: "MakeDetections ?k \<notin> set new"
        using new(3) by auto
      have all: "\<forall>c\<in>set (MakeDetections ?k # new).
          \<exists>k. c = MakeDetections k \<and> memo k = None \<and> memo' k \<noteq> None"
      proof
        fix c assume c: "c \<in> set (MakeDetections ?k # new)"
        show "\<exists>k. c = MakeDetections k \<and> memo k = None \<and> memo' k \<noteq> None"
        proof (cases "c = MakeDetections ?k")
          case True
          with None keep show ?thesis by blast
        next
          case False
          with c have "c \<in> set new" by simp
          with new(3) obtain k' where k': "c = MakeDetections k'"
            "(memo(?k \<mapsto> ?v)) k' = None" "memo' k' \<noteq> None" by blast
          from k'(2) have "memo k' = None" by (simp split: if_splits)
          with k' show ?thesis by blast
        qed
      qed
      have "calls' = calls @ (MakeDetections ?k # new)" using new(1) by simp
      moreover have "distinct (MakeDetections ?k # new)" using new(2) notin by simp
      ultimately show ?thesis using all by blast
    next
      case False
      with None "3.prems" show ?thesis by (auto simp: Let_def)
    qed
  next
    case (Some v)
    show ?thesis
    proof (cases "i < length out")
      case True
      with Some "3.prems" have run: "preproc_detections (Suc i) rest memo h calls
          (out[i := Some v]) = (r, memo', h', calls')"
        by (simp add: Let_def)
      from "3.IH"(2) [OF refl Some True run] show ?thesis .
    next
      case False
      with Some "3.prems" show ?thesis by (auto simp: Let_def)
    qed
  qed
qed


lemma preproc_detections_slots:
  "preproc_detections i msgs memo h calls out = (Inr fod, memo', h', calls') \<Longrightarrow>
   length fod = length out \<and> (\<forall>j<i. fod ! j = out ! j) \<and>
   (\<forall>j<length msgs. \<forall>m. msgs ! j = Some m \<longrightarrow>
      fod ! (i + j) = memo' (time_to_int (ods_source_stamp m)) \<and>
      memo' (time_to_int (ods_source_stamp m)) \<noteq> None)"
proof (induction i msgs memo h calls out arbitrary: memo' h' calls'
    rule: preproc_detections.induct)
  case (1 i memo h calls out)
  then show ?case by simp
next
  case (2 i rest memo h calls out)
  from "2.prems" have run: "preproc_detections (Suc i) rest memo h calls out =
      (Inr fod, memo', h', calls')" by simp
  from "2.IH" [OF run] show ?case
    by (auto simp: nth_Cons split: nat.splits)
next
  case (3 i det_msg rest memo h calls out)
  let ?k = "time_to_int (ods_source_stamp det_msg)"
  define v where "v = (case memo ?k of None \<Rightarrow> ObjectDetectionsLTRB ?k (ods_body det_msg)
      | Some v \<Rightarrow> v)"
  define memo1 where "memo1 = (case memo ?k of None \<Rightarrow> memo(?k \<mapsto> v) | Some _ \<Rightarrow> memo)"
  define h1 where "h1 = (case memo ?k of None \<Rightarrow> heappush h ?k | Some _ \<Rightarrow> h)"
  define calls1 where
    "calls1 = (case memo ?k of None \<Rightarrow> calls @ [MakeDetections ?k] | Some _ \<Rightarrow> calls)"
  have lt: "i < length out"
    using "3.prems" by (auto simp: Let_def split: option.splits if_splits)
  have run: "preproc_detections (Suc i) rest memo1 h1 calls1 (out[i := Some v]) =
      (Inr fod, memo', h', calls')"
    using "3.prems" lt by (auto simp: Let_def v_def memo1_def h1_def calls1_def split: option.splits)
  have m1: "memo1 ?k = Some v"
    by (auto simp: memo1_def v_def split: option.splits)
  have ih: "length fod = length (out[i := Some v]) \<and> (\<forall>j<Suc i. fod ! j = out[i := Some v] ! j) \<and>
     (\<forall>j<length rest. \<forall>m. rest ! j = Some m \<longrightarrow>
        fod ! (Suc i + j) = memo' (time_to_int (ods_source_stamp m)) \<and>
        memo' (time_to_int (ods_source_stamp m)) \<noteq> None)"
  proof (cases "memo ?k")
    case None
    let ?v0 = "ObjectDetectionsLTRB ?k (ods_body det_msg)"
    have v0: "v = ?v0" by (simp add: v_def None)
    have run': "preproc_detections (Suc i) rest (memo(?k \<mapsto> ?v0)) (heappush h ?k)
        (calls @ [MakeDetections ?k]) (out[i := Some ?v0]) = (Inr fod, memo', h', calls')"
      using run by (simp add: memo1_def h1_def calls1_def None v0)
    from "3.IH"(1) [OF refl None refl refl refl refl lt run'] show ?thesis
      unfolding v0 .
  next
    case (Some v')
    have v0: "v = v'" by (simp add: v_def Some)
    have run': "preproc_detections (Suc i) rest memo h calls (out[i := Some v']) =
        (Inr fod, memo', h', calls')"
      using run by (simp add: memo1_def h1_def calls1_def Some v0)
    from "3.IH"(2) [OF refl Some lt run'] show ?thesis unfolding v0 .
  qed
  have keep: "memo' ?k = Some v" by (rule preproc_detections_keeps [OF run m1])
  from ih lt have here: "fod ! i = Some v" by simp
  show ?case
  proof (intro conjI allI impI)
    show "length fod = length out" using ih by simp
  next
    fix j assume "j < i"
    with ih show "fod ! j = out ! j" by simp
  next
    fix j m assume j: "j < length (Some det_msg # rest)" and m: "(Some det_msg # rest) ! j = Some m"
    show "fod ! (i + j) = memo' (time_to_int (ods_source_stamp m))"
    proof (cases j)
      case 0
      with m here keep show ?thesis by simp
    next
      case (Suc j')
      with j m ih show ?thesis by simp
    qed
  next
    fix j m assume j: "j < length (Some det_msg # rest)" and m: "(Some det_msg # rest) ! j = Some m"
    show "memo' (time_to_int (ods_source_stamp m)) \<noteq> None"
    proof (cases j)
      case 0
      with m keep show ?thesis by simp
    next
      case (Suc j')
      with j m ih show ?thesis by simp
    qed
  qed
qed


lemma preproc_poses_keeps:
  "preproc_poses i msgs memo h calls out = (r, memo', h', calls') \<Longrightarrow>
   memo k = Some v \<Longrightarrow> memo' k = Some v"
proof (induction i msgs memo h calls out arbitrary: r memo' h' calls'
    rule: preproc_poses.induct)
  case (1 i memo h calls out)
  then show ?case by simp
next
  case (2 i rest memo h calls out)
  then show ?case by simp
next
  case (3 i pose_msg rest memo h calls out)
  let ?k = "time_to_int (hjp_source_stamp pose_msg)"
  show ?case
  proof (cases "memo ?k")
    case None
    from None "3.prems"(2) have ne: "k \<noteq> ?k" by auto
    show ?thesis
    proof (cases "make_patient_poses ?k 0 (hjp_joints pose_msg)")
      case (Inl e)
      with None "3.prems" show ?thesis by (simp add: Let_def)
    next
      case (Inr ps)
      show ?thesis
      proof (cases "i < length out")
        case True
        with None Inr "3.prems" have run: "preproc_poses (Suc i) rest (memo(?k \<mapsto> ps))
            (heappush h ?k) (calls @ [MakePoses ?k]) (out[i := Some ps]) = (r, memo', h', calls')"
          by (simp add: Let_def)
        from "3.prems"(2) ne have "(memo(?k \<mapsto> ps)) k = Some v" by simp
        from "3.IH"(1) [OF refl None Inr refl refl refl True run this] show ?thesis .
      next
        case False
        with None Inr "3.prems" ne show ?thesis by (auto simp: Let_def)
      qed
    qed
  next
    case (Some v')
    show ?thesis
    proof (cases "i < length out")
      case True
      with Some "3.prems" have run: "preproc_poses (Suc i) rest memo h calls
          (out[i := Some v']) = (r, memo', h', calls')"
        by (simp add: Let_def)
      from "3.IH"(2) [OF refl Some True run "3.prems"(2)] show ?thesis .
    next
      case False
      with Some "3.prems" show ?thesis by (auto simp: Let_def)
    qed
  qed
qed

lemma preproc_poses_calls:
  "preproc_poses i msgs memo h calls out = (r, memo', h', calls') \<Longrightarrow>
   \<exists>new. calls' = calls @ new \<and> distinct new \<and>
     (\<forall>c\<in>set new. \<exists>k. c = MakePoses k \<and> memo k = None)"
proof (induction i msgs memo h calls out arbitrary: r memo' h' calls'
    rule: preproc_poses.induct)
  case (1 i memo h calls out)
  then show ?case by simp
next
  case (2 i rest memo h calls out)
  then show ?case by simp
next
  case (3 i pose_msg rest memo h calls out)
  let ?k = "time_to_int (hjp_source_stamp pose_msg)"
  show ?case
  proof (cases "memo ?k")
    case None
    show ?thesis
    proof (cases "make_patient_poses ?k 0 (hjp_joints pose_msg)")
      case (Inl e)
      with None "3.prems" have "calls' = calls @ [MakePoses ?k]" by (simp add: Let_def)
      with None show ?thesis by (intro exI [of _ "[MakePoses ?k]"]) simp
    next
      case (Inr ps)
      show ?thesis
      proof (cases "i < length out")
        case True
        with None Inr "3.prems" have run: "preproc_poses (Suc i) rest (memo(?k \<mapsto> ps))
            (heappush h ?k) (calls @ [MakePoses ?k]) (out[i := Some ps]) = (r, memo', h', calls')"
          by (simp add: Let_def)
        from "3.IH"(1) [OF refl None Inr refl refl refl True run]
        obtain new where new: "calls' = (calls @ [MakePoses ?k]) @ new" "distinct new"
          "\<forall>c\<in>set new. \<exists>k. c = MakePoses k \<and> (memo(?k \<mapsto> ps)) k = None"
          by blast
        have notin: "MakePoses ?k \<notin> set new" using new(3) by auto
        have all: "\<forall>c\<in>set (MakePoses ?k # new). \<exists>k. c = MakePoses k \<and> memo k = None"
        proof
          fix c assume c: "c \<in> set (MakePoses ?k # new)"
          show "\<exists>k. c = MakePoses k \<and> memo k = None"
          proof (cases "c = MakePoses ?k")
            case True
            with None show ?thesis by blast
          next
            case False
            with c have "c \<in> set new" by simp
            with new(3) obtain k' where k': "c = MakePoses k'" "(memo(?k \<mapsto> ps)) k' = None"
              by blast
            from k'(2) have "memo k' = None" by (simp split: if_splits)
            with k' show ?thesis by blast
          qed
        qed
        have "calls' = calls @ (MakePoses ?k # new)" using new(1) by simp
        moreover have "distinct (MakePoses ?k # new)" using new(2) notin by simp
        ultimately show ?thesis using all by blast
      next
        case False
        with None Inr "3.prems" have "calls' = calls @ [MakePoses ?k]" by (simp add: Let_def)
        with None show ?thesis by (intro exI [of _ "[MakePoses ?k]"]) simp
      qed
    qed
  next
    case (Some v)
    show ?thesis
    proof (cases "i < length out")
      case True
      with Some "3.prems" have run: "preproc_poses (Suc i) rest memo h calls
          (out[i := Some v]) = (r, memo', h', calls')"
        by (simp add: Let_def)
      from "3.IH"(2) [OF refl Some True run] show ?thesis .
    next
      case False
      with Some "3.prems" show ?thesis by (auto simp: Let_def)
    qed
  qed
qed

lemma preproc_poses_slots:
  "preproc_poses i msgs memo h calls out = (Inr fpp, memo', h', calls') \<Longrightarrow>
   length fpp = length out \<and> (\<forall>j<i. fpp ! j = out ! j) \<and>
   (\<forall>j<length msgs. \<forall>m. msgs ! j = Some m \<longrightarrow>
      fpp ! (i + j) = memo' (time_to_int (hjp_source_stamp m)) \<and>
      memo' (time_to_int (hjp_source_stamp m)) \<noteq> None)"
proof (induction i msgs memo h calls out arbitrary: memo' h' calls'
    rule: preproc_poses.induct)
  case (1 i memo h calls out)
  then show ?case by simp
next
  case (2 i rest memo h calls out)
  from "2.prems" have run: "preproc_poses (Suc i) rest memo h calls out =
      (Inr fpp, memo', h', calls')" by simp
  from "2.IH" [OF run] show ?case
    by (auto simp: nth_Cons split: nat.splits)
next
  case (3 i pose_msg rest memo h calls out)
  let ?k = "time_to_int (hjp_source_stamp pose_msg)"
  have lt: "i < length out"
    using "3.prems" by (auto simp: Let_def split: option.splits if_splits sum.splits)
  have "\<exists>v memo1 h1 calls1.
      preproc_poses (Suc i) rest memo1 h1 calls1 (out[i := Some v]) = (Inr fpp, memo', h', calls')
      \<and> memo1 ?k = Some v
      \<and> (length fpp = length (out[i := Some v]) \<and> (\<forall>j<Suc i. fpp ! j = out[i := Some v] ! j) \<and>
         (\<forall>j<length rest. \<forall>m. rest ! j = Some m \<longrightarrow>
            fpp ! (Suc i + j) = memo' (time_to_int (hjp_source_stamp m)) \<and>
            memo' (time_to_int (hjp_source_stamp m)) \<noteq> None))"
  proof (cases "memo ?k")
    case None
    from None "3.prems" obtain ps where ps: "make_patient_poses ?k 0 (hjp_joints pose_msg) = Inr ps"
      by (cases "make_patient_poses ?k 0 (hjp_joints pose_msg)") (auto simp: Let_def)
    have run': "preproc_poses (Suc i) rest (memo(?k \<mapsto> ps)) (heappush h ?k)
        (calls @ [MakePoses ?k]) (out[i := Some ps]) = (Inr fpp, memo', h', calls')"
      using "3.prems" None ps lt by (simp add: Let_def)
    from "3.IH"(1) [OF refl None ps refl refl refl lt run'] run' show ?thesis
      by (intro exI [of _ ps] exI [of _ "memo(?k \<mapsto> ps)"] exI [of _ "heappush h ?k"]
          exI [of _ "calls @ [MakePoses ?k]"]) simp
  next
    case (Some v')
    have run': "preproc_poses (Suc i) rest memo h calls (out[i := Some v']) =
        (Inr fpp, memo', h', calls')"
      using "3.prems" Some lt by (simp add: Let_def)
    from "3.IH"(2) [OF refl Some lt run'] run' Some show ?thesis
      by (intro exI [of _ v'] exI [of _ memo] exI [of _ h] exI [of _ calls]) simp
  qed
  then obtain v memo1 h1 calls1 where
    run: "preproc_poses (Suc i) rest memo1 h1 calls1 (out[i := Some v]) =
        (Inr fpp, memo', h', calls')"
    and m1: "memo1 ?k = Some v"
    and ih: "length fpp = length (out[i := Some v]) \<and> (\<forall>j<Suc i. fpp ! j = out[i := Some v] ! j) \<and>
         (\<forall>j<length rest. \<forall>m. rest ! j = Some m \<longrightarrow>
            fpp ! (Suc i + j) = memo' (time_to_int (hjp_source_stamp m)) \<and>
            memo' (time_to_int (hjp_source_stamp m)) \<noteq> None)"
    by blast
  have keep: "memo' ?k = Some v" by (rule preproc_poses_keeps [OF run m1])
  from ih lt have here: "fpp ! i = Some v" by simp
  show ?case
  proof (intro conjI allI impI)
    show "length fpp = length out" using ih by simp
  next
    fix j assume "j < i"
    with ih show "fpp ! j = out ! j" by simp
  next
    fix j m assume j: "j < length (Some pose_msg # rest)" and m: "(Some pose_msg # rest) ! j = Some m"
    show "fpp ! (i + j) = memo' (time_to_int (hjp_source_stamp m))"
    proof (cases j)
      case 0
      with m here keep show ?thesis by simp
    next
      case (Suc j')
      with j m ih show ?thesis by simp
    qed
  next
    fix j m assume j: "j < length (Some pose_msg # rest)" and m: "(Some pose_msg # rest) ! j = Some m"
    show "memo' (time_to_int (hjp_source_stamp m)) \<noteq> None"
    proof (cases j)
      case 0
      with m keep show ?thesis by simp
    next
      case (Suc j')
      with j m ih show ?thesis by simp
    qed
  qed
qed


lemma evict_memo_keeps:
  "evict_memo t memo h = (e, memo', h') \<Longrightarrow> t < k \<Longrightarrow> memo' k = memo k"
proof (induction h arbitrary: memo)
  case Nil
  then show ?case by simp
next
  case (Cons x h)
  show ?case
  proof (cases "x \<le> t \<and> memo x \<noteq> None")
    case True
    with Cons.prems have "evict_memo t (memo(x := None)) h = (e, memo', h')" by simp
    from Cons.IH [OF this Cons.prems(2)] True Cons.prems(2) show ?thesis by simp
  next
    case False
    with Cons.prems show ?thesis by (auto split: if_splits)
  qed
qed

lemma process_window_effects:
  assumes "preproc_detections 0 (tw_obj_dets w) (n_memo_preproc_input n)
      (n_memo_preproc_input_id_heap n) (n_ext_calls n) (replicate (length (tw_frames w)) None)
      = (r1, memo1, h1, calls1)"
    and "preproc_poses 0 (tw_patient_joint_kps w) (n_memo_preproc_input_poses n)
      (n_memo_preproc_input_id_heap_poses n) calls1 (replicate (length (tw_frames w)) None)
      = (r2, memo2, h2, calls2)"
  shows "n_ext_calls (snd (process_window ext n w)) =
      (case r1 of Inl e \<Rightarrow> calls1
       | Inr fod \<Rightarrow> (case r2 of Inl e \<Rightarrow> calls2
           | Inr fpp \<Rightarrow> calls2 @ [ObjectsToFeats fod fpp]))"
    and "n_memo_preproc_input_poses (snd (process_window ext n w)) =
      (case r1 of Inl e \<Rightarrow> n_memo_preproc_input_poses n | Inr fod \<Rightarrow> memo2)"
    and "n_memo_preproc_input (snd (process_window ext n w)) = memo1 \<or>
      (\<exists>f0 fs. tw_frames w = f0 # fs \<and> n_memo_preproc_input (snd (process_window ext n w)) =
          fst (snd (evict_memo (time_to_int (fst f0)) memo1 h1)))"
  using assms
  by (simp_all add: process_window_def Let_def
      split: prod.splits sum.splits option.splits list.splits)

lemma process_window_feats_memo:
  assumes "n_memo_objects_to_feats_id_heap n = []"
  shows "n_memo_objects_to_feats (snd (process_window ext n w)) = n_memo_objects_to_feats n \<and>
      n_memo_objects_to_feats_id_heap (snd (process_window ext n w)) = []"
  using assms
  by (simp add: process_window_def Let_def
      split: prod.splits sum.splits option.splits list.splits)


lemma preproc_detections_total:
  "i + length msgs \<le> length out \<Longrightarrow>
   \<exists>fod memo' h' calls'. preproc_detections i msgs memo h calls out = (Inr fod, memo', h', calls')"
proof (induction i msgs memo h calls out rule: preproc_detections.induct)
  case (1 i memo h calls out)
  then show ?case by simp
next
  case (2 i rest memo h calls out)
  then show ?case by simp
next
  case (3 i det_msg rest memo h calls out)
  let ?k = "time_to_int (ods_source_stamp det_msg)"
  from "3.prems" have lt: "i < length out" and le: "Suc i + length rest \<le> length out" by simp_all
  show ?case
  proof (cases "memo ?k")
    case None
    let ?v = "ObjectDetectionsLTRB ?k (ods_body det_msg)"
    from le have le': "Suc i + length rest \<le> length (out[i := Some ?v])" by simp
    have eq: "preproc_detections i (Some det_msg # rest) memo h calls out =
        preproc_detections (Suc i) rest (memo(?k \<mapsto> ?v)) (heappush h ?k)
          (calls @ [MakeDetections ?k]) (out[i := Some ?v])"
      using None lt by (simp add: Let_def)
    show ?thesis unfolding eq
      by (rule "3.IH"(1) [OF refl None refl refl refl refl lt le'])
  next
    case (Some v)
    from le have le': "Suc i + length rest \<le> length (out[i := Some v])" by simp
    have eq: "preproc_detections i (Some det_msg # rest) memo h calls out =
        preproc_detections (Suc i) rest memo h calls (out[i := Some v])"
      using Some lt by (simp add: Let_def)
    show ?thesis unfolding eq by (rule "3.IH"(2) [OF refl Some lt le'])
  qed
qed

lemma preproc_detections_computes:
  "preproc_detections i msgs memo h calls out = (Inr fod, memo', h', calls') \<Longrightarrow>
   Some m \<in> set msgs \<Longrightarrow> memo (time_to_int (ods_source_stamp m)) = None \<Longrightarrow>
   \<exists>a b. calls' = calls @ a @ MakeDetections (time_to_int (ods_source_stamp m)) # b"
proof (induction i msgs memo h calls out arbitrary: memo' h' calls'
    rule: preproc_detections.induct)
  case (1 i memo h calls out)
  then show ?case by simp
next
  case (2 i rest memo h calls out)
  then show ?case by simp
next
  case (3 i det_msg rest memo h calls out)
  let ?k = "time_to_int (ods_source_stamp det_msg)"
  let ?km = "time_to_int (ods_source_stamp m)"
  have lt: "i < length out"
    using "3.prems"(1) by (auto simp: Let_def split: option.splits if_splits)
  show ?case
  proof (cases "memo ?k")
    case None
    let ?v = "ObjectDetectionsLTRB ?k (ods_body det_msg)"
    have run: "preproc_detections (Suc i) rest (memo(?k \<mapsto> ?v)) (heappush h ?k)
        (calls @ [MakeDetections ?k]) (out[i := Some ?v]) = (Inr fod, memo', h', calls')"
      using "3.prems"(1) None lt by (simp add: Let_def)
    from preproc_detections_calls [OF run] obtain new where
      new: "calls' = (calls @ [MakeDetections ?k]) @ new" by blast
    show ?thesis
    proof (cases "?km = ?k")
      case True
      with new have "calls' = calls @ [] @ MakeDetections ?km # new" by simp
      then show ?thesis by blast
    next
      case False
      with "3.prems"(2) have mem: "Some m \<in> set rest" by auto
      from False "3.prems"(3) have "(memo(?k \<mapsto> ?v)) ?km = None" by simp
      from "3.IH"(1) [OF refl None refl refl refl refl lt run mem this]
      obtain a b where "calls' = (calls @ [MakeDetections ?k]) @ a @ MakeDetections ?km # b"
        by blast
      then have "calls' = calls @ (MakeDetections ?k # a) @ MakeDetections ?km # b" by simp
      then show ?thesis by blast
    qed
  next
    case (Some v)
    have run: "preproc_detections (Suc i) rest memo h calls (out[i := Some v]) =
        (Inr fod, memo', h', calls')"
      using "3.prems"(1) Some lt by (simp add: Let_def)
    from Some "3.prems"(3) have "?km \<noteq> ?k" by auto
    with "3.prems"(2) have mem: "Some m \<in> set rest" by auto
    from "3.IH"(2) [OF refl Some lt run mem "3.prems"(3)] show ?thesis .
  qed
qed

lemma make_patient_poses_total:
  "i + length joints \<le> length keypoints_cats \<Longrightarrow>
   \<exists>ps. make_patient_poses msg_id i joints = Inr ps"
proof (induction joints arbitrary: i)
  case Nil
  then show ?case by simp
next
  case (Cons pm pms)
  from Cons.prems have lt: "i < length keypoints_cats"
    and le: "Suc i + length pms \<le> length keypoints_cats" by simp_all
  from Cons.IH [OF le] obtain ps where "make_patient_poses msg_id (Suc i) pms = Inr ps" by blast
  with lt show ?case by simp
qed

lemma preproc_poses_total:
  "i + length msgs \<le> length out \<Longrightarrow>
   \<forall>m. Some m \<in> set msgs \<longrightarrow> length (hjp_joints m) \<le> length keypoints_cats \<Longrightarrow>
   \<exists>fpp memo' h' calls'. preproc_poses i msgs memo h calls out = (Inr fpp, memo', h', calls')"
proof (induction i msgs memo h calls out rule: preproc_poses.induct)
  case (1 i memo h calls out)
  then show ?case by simp
next
  case (2 i rest memo h calls out)
  then show ?case by simp
next
  case (3 i pose_msg rest memo h calls out)
  let ?k = "time_to_int (hjp_source_stamp pose_msg)"
  from "3.prems"(1) have lt: "i < length out" and le: "Suc i + length rest \<le> length out"
    by simp_all
  from "3.prems"(2) have js: "\<forall>m. Some m \<in> set rest \<longrightarrow> length (hjp_joints m) \<le> length keypoints_cats"
    and j0: "0 + length (hjp_joints pose_msg) \<le> length keypoints_cats" by simp_all
  show ?case
  proof (cases "memo ?k")
    case None
    from make_patient_poses_total [OF j0] obtain ps where
      ps: "make_patient_poses ?k 0 (hjp_joints pose_msg) = Inr ps" by blast
    from le have le': "Suc i + length rest \<le> length (out[i := Some ps])" by simp
    have eq: "preproc_poses i (Some pose_msg # rest) memo h calls out =
        preproc_poses (Suc i) rest (memo(?k \<mapsto> ps)) (heappush h ?k)
          (calls @ [MakePoses ?k]) (out[i := Some ps])"
      using None ps lt by (simp add: Let_def)
    show ?thesis unfolding eq
      by (rule "3.IH"(1) [OF refl None ps refl refl refl lt le' js])
  next
    case (Some v)
    from le have le': "Suc i + length rest \<le> length (out[i := Some v])" by simp
    have eq: "preproc_poses i (Some pose_msg # rest) memo h calls out =
        preproc_poses (Suc i) rest memo h calls (out[i := Some v])"
      using Some lt by (simp add: Let_def)
    show ?thesis unfolding eq by (rule "3.IH"(2) [OF refl Some lt le' js])
  qed
qed

lemma preproc_poses_computes:
  "preproc_poses i msgs memo h calls out = (Inr fpp, memo', h', calls') \<Longrightarrow>
   Some m \<in> set msgs \<Longrightarrow> memo (time_to_int (hjp_source_stamp m)) = None \<Longrightarrow>
   \<exists>a b. calls' = calls @ a @ MakePoses (time_to_int (hjp_source_stamp m)) # b"
proof (induction i msgs memo h calls out arbitrary: memo' h' calls'
    rule: preproc_poses.induct)
  case (1 i memo h calls out)
  then show ?case by simp
next
  case (2 i rest memo h calls out)
  then show ?case by simp
next
  case (3 i pose_msg rest memo h calls out)
  let ?k = "time_to_int (hjp_source_stamp pose_msg)"
  let ?km = "time_to_int (hjp_source_stamp m)"
  have lt: "i < length out"
    using "3.prems"(1) by (auto simp: Let_def split: option.splits if_splits sum.splits)
  show ?case
  proof (cases "memo ?k")
    case None
    from None "3.prems"(1) obtain ps where ps: "make_patient_poses ?k 0 (hjp_joints pose_msg) = Inr ps"
      by (cases "make_patient_poses ?k 0 (hjp_joints pose_msg)") (auto simp: Let_def)
    have run: "preproc_poses (Suc i) rest (memo(?k \<mapsto> ps)) (heappush h ?k)
        (calls @ [MakePoses ?k]) (out[i := Some ps]) = (Inr fpp, memo', h', calls')"
      using "3.prems"(1) None ps lt by (simp add: Let_def)
    from preproc_poses_calls [OF run] obtain new where
      new: "calls' = (calls @ [MakePoses ?k]) @ new" by blast
    show ?thesis
    proof (cases "?km = ?k")
      case True
      with new have "calls' = calls @ [] @ MakePoses ?km # new" by simp
      then show ?thesis by blast
    next
      case False
      with "3.prems"(2) have mem: "Some m \<in> set rest" by auto
      from False "3.prems"(3) have "(memo(?k \<mapsto> ps)) ?km = None" by simp
      from "3.IH"(1) [OF refl None ps refl refl refl lt run mem this]
      obtain a b where "calls' = (calls @ [MakePoses ?k]) @ a @ MakePoses ?km # b"
        by blast
      then have "calls' = calls @ (MakePoses ?k # a) @ MakePoses ?km # b" by simp
      then show ?thesis by blast
    qed
  next
    case (Some v)
    have run: "preproc_poses (Suc i) rest memo h calls (out[i := Some v]) =
        (Inr fpp, memo', h', calls')"
      using "3.prems"(1) Some lt by (simp add: Let_def)
    from Some "3.prems"(3) have "?km \<noteq> ?k" by auto
    with "3.prems"(2) have mem: "Some m \<in> set rest" by auto
    from "3.IH"(2) [OF refl Some lt run mem "3.prems"(3)] show ?thesis .
  qed
qed

lemma process_window_no_feats:
  assumes "preproc_detections 0 (tw_obj_dets w) (n_memo_preproc_input n)
      (n_memo_preproc_input_id_heap n) (n_ext_calls n) (replicate (length (tw_frames w)) None)
      = (Inr fod, memo1, h1, calls1)"
    and "preproc_poses 0 (tw_patient_joint_kps w) (n_memo_preproc_input_poses n)
      (n_memo_preproc_input_id_heap_poses n) calls1 (replicate (length (tw_frames w)) None)
      = (Inr fpp, memo2, h2, calls2)"
    and "ext_objects_to_feats ext fod fpp = None"
  shows "fst (process_window ext n w) = Raised NoActivityClassification"
  using assms by (simp add: process_window_def Let_def)

text \<open>
  Claim C7, as stated, covers the cache of derived feature embeddings. The node never
  writes that cache and never hands it to \<open>objects_to_feats\<close>: with frames stamped 0, 50
  and 100 ns and their detections buffered and window size 3, one loop iteration processes
  the window; after the tuple stamped 150 ns is queued, a second iteration processes the
  window of 50, 100 and 150 ns. Each detection structure was built once, but
  \<open>objects_to_feats\<close> was called on the structures of 50 and 100 ns in both windows, and
  the feature cache holds nothing for 50 ns after either.
\<close>

theorem feature_memo_unused_counterexample:
  "n_ext_calls (snd (rt_loop_iteration example_externals
      (queue_tuple (snd (rt_loop_iteration example_externals
         (node_with 3 15 [(stamp 0, 0), (stamp 50, 1), (stamp 100, 2)]
            [dets_at 0 1 0, dets_at 50 1 1, dets_at 100 1 2])))
         (dets_at 150 1 3) (stamp 150) 3))) =
     [MakeDetections 0, MakeDetections 50, MakeDetections 100,
      ObjectsToFeats [Some (ObjectDetectionsLTRB 0 0), Some (ObjectDetectionsLTRB 50 1),
                      Some (ObjectDetectionsLTRB 100 2)] [None, None, None],
      MakeDetections 150,
      ObjectsToFeats [Some (ObjectDetectionsLTRB 50 1), Some (ObjectDetectionsLTRB 100 2),
                      Some (ObjectDetectionsLTRB 150 3)] [None, None, None]]
   \<and> length (n_published (snd (rt_loop_iteration example_externals
      (queue_tuple (snd (rt_loop_iteration example_externals
         (node_with 3 15 [(stamp 0, 0), (stamp 50, 1), (stamp 100, 2)]
            [dets_at 0 1 0, dets_at 50 1 1, dets_at 100 1 2])))
         (dets_at 150 1 3) (stamp 150) 3)))) = 2
   \<and> n_memo_objects_to_feats (snd (rt_loop_iteration example_externals
         (node_with 3 15 [(stamp 0, 0), (stamp 50, 1), (stamp 100, 2)]
            [dets_at 0 1 0, dets_at 50 1 1, dets_at 100 1 2]))) 50 = None
   \<and> n_memo_objects_to_feats (snd (rt_loop_iteration example_externals
      (queue_tuple (snd (rt_loop_iteration example_externals
         (node_with 3 15 [(stamp 0, 0), (stamp 50, 1), (stamp 100, 2)]
            [dets_at 0 1 0, dets_at 50 1 1, dets_at 100 1 2])))
         (dets_at 150 1 3) (stamp 150) 3))) 50 = None"
  by (simp add: eval_defs)

text \<open>
  Claim C7, amended. For the caches of per-frame preprocessed detection and pose
  structures: processing a window builds the structure for a timestamp key exactly when a
  slot of the window carries the key and the key is not stored (once per window, however
  many slots carry it), stores it, and hands to \<open>objects_to_feats\<close> the stored value
  for every filled slot; what it hands over for a key later than the window's first frame
  is what the cache holds afterwards, and a stored key later than the window's first frame
  stays stored. So from its first computation until a processed window starts at or after
  it, the structure for a timestamp is computed once and reused by every processed window
  containing that timestamp. The cache of feature embeddings is empty when the node is
  constructed and processing a window leaves it empty: \<open>objects_to_feats\<close> is called,
  without a memo, for every window whose slots align with its frames and whose pose
  messages have no more joints than there are keypoint categories, and its
  \<open>ValueError\<close> ends the processing with \<open>NoActivityClassification\<close>.
\<close>

theorem process_window_memoization:
  "\<exists>new. n_ext_calls (snd (process_window ext n window)) = n_ext_calls n @ new
     \<and> distinct new
     \<and> (\<forall>k. n_memo_preproc_input n k \<noteq> None \<longrightarrow> MakeDetections k \<notin> set new)
     \<and> (\<forall>k. n_memo_preproc_input_poses n k \<noteq> None \<longrightarrow> MakePoses k \<notin> set new)
     \<and> (\<forall>fod fpp. ObjectsToFeats fod fpp \<in> set new \<longrightarrow>
          (\<forall>j m. j < length (tw_obj_dets window) \<and> tw_obj_dets window ! j = Some m \<longrightarrow>
               fod ! j \<noteq> None
               \<and> (\<forall>v. n_memo_preproc_input n (time_to_int (ods_source_stamp m)) = Some v \<longrightarrow>
                      fod ! j = Some v)
               \<and> (n_memo_preproc_input n (time_to_int (ods_source_stamp m)) = None \<longrightarrow>
                      MakeDetections (time_to_int (ods_source_stamp m)) \<in> set new)
               \<and> (tw_frames window = [] \<or>
                    frame_time_ns (hd (tw_frames window)) < time_to_int (ods_source_stamp m) \<longrightarrow>
                      n_memo_preproc_input (snd (process_window ext n window))
                        (time_to_int (ods_source_stamp m)) = fod ! j))
          \<and> (\<forall>j m. j < length (tw_patient_joint_kps window) \<and>
               tw_patient_joint_kps window ! j = Some m \<longrightarrow>
               fpp ! j \<noteq> None
               \<and> (\<forall>v. n_memo_preproc_input_poses n (time_to_int (hjp_source_stamp m)) = Some v \<longrightarrow>
                      fpp ! j = Some v)
               \<and> (n_memo_preproc_input_poses n (time_to_int (hjp_source_stamp m)) = None \<longrightarrow>
                      MakePoses (time_to_int (hjp_source_stamp m)) \<in> set new)
               \<and> (tw_frames window = [] \<or>
                    frame_time_ns (hd (tw_frames window)) < time_to_int (hjp_source_stamp m) \<longrightarrow>
                      n_memo_preproc_input_poses (snd (process_window ext n window))
                        (time_to_int (hjp_source_stamp m)) = fpp ! j))
          \<and> (ext_objects_to_feats ext fod fpp = None \<longrightarrow>
                fst (process_window ext n window) = Raised NoActivityClassification))
     \<and> (length (tw_obj_dets window) \<le> length (tw_frames window) \<and>
         length (tw_patient_joint_kps window) \<le> length (tw_frames window) \<and>
         (\<forall>m. Some m \<in> set (tw_patient_joint_kps window) \<longrightarrow>
              length (hjp_joints m) \<le> length keypoints_cats) \<longrightarrow>
         (\<exists>fod fpp. ObjectsToFeats fod fpp \<in> set new))
     \<and> (\<forall>k v. n_memo_preproc_input n k = Some v \<and>
           (tw_frames window = [] \<or> frame_time_ns (hd (tw_frames window)) < k) \<longrightarrow>
           n_memo_preproc_input (snd (process_window ext n window)) k = Some v)
     \<and> (\<forall>k v. n_memo_preproc_input_poses n k = Some v \<and>
           (tw_frames window = [] \<or> frame_time_ns (hd (tw_frames window)) < k) \<longrightarrow>
           n_memo_preproc_input_poses (snd (process_window ext n window)) k = Some v)
     \<and> (n_memo_objects_to_feats_id_heap n = [] \<longrightarrow>
           n_memo_objects_to_feats (snd (process_window ext n window)) = n_memo_objects_to_feats n
           \<and> n_memo_objects_to_feats_id_heap (snd (process_window ext n window)) = [])
     \<and> n_memo_objects_to_feats (new_ActivityClassifierTCN ws mx lead coco) = Map.empty
     \<and> n_memo_objects_to_feats_id_heap (new_ActivityClassifierTCN ws mx lead coco) = []"
proof -
  let ?n' = "snd (process_window ext n window)"
  let ?memo = "n_memo_preproc_input n"
  let ?memoP = "n_memo_preproc_input_poses n"
  obtain r1 memo1 h1 calls1 where pd:
    "preproc_detections 0 (tw_obj_dets window) ?memo (n_memo_preproc_input_id_heap n)
       (n_ext_calls n) (replicate (length (tw_frames window)) None) = (r1, memo1, h1, calls1)"
    using prod_cases4 by blast
  obtain r2 memo2 h2 calls2 where pp:
    "preproc_poses 0 (tw_patient_joint_kps window) ?memoP (n_memo_preproc_input_id_heap_poses n)
       calls1 (replicate (length (tw_frames window)) None) = (r2, memo2, h2, calls2)"
    using prod_cases4 by blast
  note eff = process_window_effects [OF pd pp, of ext]
  from preproc_detections_calls [OF pd] obtain newD where newD:
    "calls1 = n_ext_calls n @ newD" "distinct newD"
    "\<forall>c\<in>set newD. \<exists>k. c = MakeDetections k \<and> ?memo k = None \<and> memo1 k \<noteq> None"
    by blast
  from preproc_poses_calls [OF pp] obtain newP where newP:
    "calls2 = calls1 @ newP" "distinct newP"
    "\<forall>c\<in>set newP. \<exists>k. c = MakePoses k \<and> ?memoP k = None"
    by blast
  define tail where "tail = (case r1 of Inl e \<Rightarrow> []
      | Inr fod \<Rightarrow> (case r2 of Inl e \<Rightarrow> newP | Inr fpp \<Rightarrow> newP @ [ObjectsToFeats fod fpp]))"
  define new where "new = newD @ tail"
  have calls: "n_ext_calls ?n' = n_ext_calls n @ new"
    unfolding eff(1) new_def tail_def using newD(1) newP(1)
    by (simp split: sum.splits)
  have tail_set: "\<forall>c\<in>set tail. (\<exists>k. c = MakePoses k \<and> ?memoP k = None) \<or>
      (\<exists>fod fpp. c = ObjectsToFeats fod fpp \<and> r1 = Inr fod \<and> r2 = Inr fpp)"
  proof (cases r1)
    case (Inl e)
    then show ?thesis by (simp add: tail_def)
  next
    case r1: (Inr fod)
    show ?thesis
    proof (cases r2)
      case (Inl e)
      with r1 newP(3) show ?thesis by (simp add: tail_def)
    next
      case (Inr fpp)
      with r1 newP(3) show ?thesis by (auto simp: tail_def)
    qed
  qed
  have tail_dist: "distinct tail"
  proof (cases r1)
    case (Inl e)
    then show ?thesis by (simp add: tail_def)
  next
    case r1: (Inr fod)
    show ?thesis
    proof (cases r2)
      case (Inl e)
      with r1 newP(2) show ?thesis by (simp add: tail_def)
    next
      case (Inr fpp)
      from newP(3) have "ObjectsToFeats fod fpp \<notin> set newP" by fastforce
      with r1 Inr newP(2) show ?thesis by (simp add: tail_def)
    qed
  qed
  have disj: "set newD \<inter> set tail = {}"
    using newD(3) tail_set by fastforce
  have dist: "distinct new"
    unfolding new_def using newD(2) tail_dist disj by simp
  have nodet: "\<forall>k. ?memo k \<noteq> None \<longrightarrow> MakeDetections k \<notin> set new"
  proof (intro allI impI notI)
    fix k assume st: "?memo k \<noteq> None" and "MakeDetections k \<in> set new"
    then have "MakeDetections k \<in> set newD \<or> MakeDetections k \<in> set tail"
      by (simp add: new_def)
    then show False
    proof
      assume "MakeDetections k \<in> set newD"
      with newD(3) st show False by fastforce
    next
      assume "MakeDetections k \<in> set tail"
      with tail_set show False by fastforce
    qed
  qed
  have nopose: "\<forall>k. ?memoP k \<noteq> None \<longrightarrow> MakePoses k \<notin> set new"
  proof (intro allI impI notI)
    fix k assume st: "?memoP k \<noteq> None" and "MakePoses k \<in> set new"
    then have "MakePoses k \<in> set newD \<or> MakePoses k \<in> set tail"
      by (simp add: new_def)
    then show False
    proof
      assume "MakePoses k \<in> set newD"
      with newD(3) show False by fastforce
    next
      assume "MakePoses k \<in> set tail"
      with tail_set st show False by fastforce
    qed
  qed
  have handed: "\<forall>fod fpp. ObjectsToFeats fod fpp \<in> set new \<longrightarrow>
          (\<forall>j m. j < length (tw_obj_dets window) \<and> tw_obj_dets window ! j = Some m \<longrightarrow>
               fod ! j \<noteq> None
               \<and> (\<forall>v. ?memo (time_to_int (ods_source_stamp m)) = Some v \<longrightarrow> fod ! j = Some v)
               \<and> (?memo (time_to_int (ods_source_stamp m)) = None \<longrightarrow>
                      MakeDetections (time_to_int (ods_source_stamp m)) \<in> set new)
               \<and> (tw_frames window = [] \<or>
                    frame_time_ns (hd (tw_frames window)) < time_to_int (ods_source_stamp m) \<longrightarrow>
                      n_memo_preproc_input ?n' (time_to_int (ods_source_stamp m)) = fod ! j))
          \<and> (\<forall>j m. j < length (tw_patient_joint_kps window) \<and>
               tw_patient_joint_kps window ! j = Some m \<longrightarrow>
               fpp ! j \<noteq> None
               \<and> (\<forall>v. ?memoP (time_to_int (hjp_source_stamp m)) = Some v \<longrightarrow> fpp ! j = Some v)
               \<and> (?memoP (time_to_int (hjp_source_stamp m)) = None \<longrightarrow>
                      MakePoses (time_to_int (hjp_source_stamp m)) \<in> set new)
               \<and> (tw_frames window = [] \<or>
                    frame_time_ns (hd (tw_frames window)) < time_to_int (hjp_source_stamp m) \<longrightarrow>
                      n_memo_preproc_input_poses ?n' (time_to_int (hjp_source_stamp m)) = fpp ! j))
          \<and> (ext_objects_to_feats ext fod fpp = None \<longrightarrow>
                fst (process_window ext n window) = Raised NoActivityClassification)"
  proof (intro allI impI)
    fix fod fpp assume "ObjectsToFeats fod fpp \<in> set new"
    then have "ObjectsToFeats fod fpp \<in> set newD \<or> ObjectsToFeats fod fpp \<in> set tail"
      by (simp add: new_def)
    then have "ObjectsToFeats fod fpp \<in> set tail" using newD(3) by fastforce
    with tail_set have r: "r1 = Inr fod" "r2 = Inr fpp" by fastforce+
    note pd' = pd [unfolded r(1)] and pp' = pp [unfolded r(2)]
    note sd = preproc_detections_slots [OF pd']
    note sp = preproc_poses_slots [OF pp']
    have d: "\<forall>j m. j < length (tw_obj_dets window) \<and> tw_obj_dets window ! j = Some m \<longrightarrow>
               fod ! j \<noteq> None
               \<and> (\<forall>v. ?memo (time_to_int (ods_source_stamp m)) = Some v \<longrightarrow> fod ! j = Some v)
               \<and> (?memo (time_to_int (ods_source_stamp m)) = None \<longrightarrow>
                      MakeDetections (time_to_int (ods_source_stamp m)) \<in> set new)
               \<and> (tw_frames window = [] \<or>
                    frame_time_ns (hd (tw_frames window)) < time_to_int (ods_source_stamp m) \<longrightarrow>
                      n_memo_preproc_input ?n' (time_to_int (ods_source_stamp m)) = fod ! j)"
    proof (intro allI impI)
      fix j and m :: ObjectDetection2dSet
      let ?k = "time_to_int (ods_source_stamp m)"
      assume h: "j < length (tw_obj_dets window) \<and> tw_obj_dets window ! j = Some m"
      with sd have slot: "fod ! (0 + j) = memo1 ?k" "memo1 ?k \<noteq> None" by blast+
      then have slot': "fod ! j = memo1 ?k" by simp
      from h have mem: "Some m \<in> set (tw_obj_dets window)" by (metis nth_mem)
      have a1: "fod ! j \<noteq> None" using slot' slot(2) by simp
      have a2: "\<forall>v. ?memo ?k = Some v \<longrightarrow> fod ! j = Some v"
        using preproc_detections_keeps [OF pd] slot' by simp
      have a3: "?memo ?k = None \<longrightarrow> MakeDetections ?k \<in> set new"
      proof
        assume "?memo ?k = None"
        from preproc_detections_computes [OF pd' mem this] obtain a b where
          "calls1 = n_ext_calls n @ a @ MakeDetections ?k # b" by blast
        with newD(1) have "newD = a @ MakeDetections ?k # b" by simp
        then show "MakeDetections ?k \<in> set new" by (simp add: new_def)
      qed
      have a4: "tw_frames window = [] \<or> frame_time_ns (hd (tw_frames window)) < ?k \<longrightarrow>
          n_memo_preproc_input ?n' ?k = fod ! j"
      proof
        assume c: "tw_frames window = [] \<or> frame_time_ns (hd (tw_frames window)) < ?k"
        from eff(3) show "n_memo_preproc_input ?n' ?k = fod ! j"
        proof
          assume "n_memo_preproc_input ?n' = memo1"
          with slot' show ?thesis by simp
        next
          assume "\<exists>f0 fs. tw_frames window = f0 # fs \<and> n_memo_preproc_input ?n' =
              fst (snd (evict_memo (time_to_int (fst f0)) memo1 h1))"
          then obtain f0 fs where f: "tw_frames window = f0 # fs"
            "n_memo_preproc_input ?n' = fst (snd (evict_memo (time_to_int (fst f0)) memo1 h1))"
            by blast
          with c have lt: "time_to_int (fst f0) < ?k" by (simp add: frame_time_ns_def)
          obtain e memo' h' where ev: "evict_memo (time_to_int (fst f0)) memo1 h1 = (e, memo', h')"
            using prod_cases3 by blast
          from evict_memo_keeps [OF ev lt] slot' f(2) ev show ?thesis by simp
        qed
      qed
      show "fod ! j \<noteq> None
               \<and> (\<forall>v. ?memo ?k = Some v \<longrightarrow> fod ! j = Some v)
               \<and> (?memo ?k = None \<longrightarrow> MakeDetections ?k \<in> set new)
               \<and> (tw_frames window = [] \<or> frame_time_ns (hd (tw_frames window)) < ?k \<longrightarrow>
                      n_memo_preproc_input ?n' ?k = fod ! j)"
        by (intro conjI a1 a2 a3 a4)
    qed
    have p: "\<forall>j m. j < length (tw_patient_joint_kps window) \<and>
               tw_patient_joint_kps window ! j = Some m \<longrightarrow>
               fpp ! j \<noteq> None
               \<and> (\<forall>v. ?memoP (time_to_int (hjp_source_stamp m)) = Some v \<longrightarrow> fpp ! j = Some v)
               \<and> (?memoP (time_to_int (hjp_source_stamp m)) = None \<longrightarrow>
                      MakePoses (time_to_int (hjp_source_stamp m)) \<in> set new)
               \<and> (tw_frames window = [] \<or>
                    frame_time_ns (hd (tw_frames window)) < time_to_int (hjp_source_stamp m) \<longrightarrow>
                      n_memo_preproc_input_poses ?n' (time_to_int (hjp_source_stamp m)) = fpp ! j)"
    proof (intro allI impI)
      fix j and m :: HandJointPosesUpdate
      let ?k = "time_to_int (hjp_source_stamp m)"
      assume h: "j < length (tw_patient_joint_kps window) \<and>
               tw_patient_joint_kps window ! j = Some m"
      with sp have slot: "fpp ! (0 + j) = memo2 ?k" "memo2 ?k \<noteq> None" by blast+
      then have slot': "fpp ! j = memo2 ?k" by simp
      from h have mem: "Some m \<in> set (tw_patient_joint_kps window)" by (metis nth_mem)
      have a1: "fpp ! j \<noteq> None" using slot' slot(2) by simp
      have a2: "\<forall>v. ?memoP ?k = Some v \<longrightarrow> fpp ! j = Some v"
        using preproc_poses_keeps [OF pp] slot' by simp
      have a3: "?memoP ?k = None \<longrightarrow> MakePoses ?k \<in> set new"
      proof
        assume "?memoP ?k = None"
        from preproc_poses_computes [OF pp' mem this] obtain a b where
          "calls2 = calls1 @ a @ MakePoses ?k # b" by blast
        with newP(1) have "newP = a @ MakePoses ?k # b" by simp
        then have "MakePoses ?k \<in> set tail" using r by (simp add: tail_def)
        then show "MakePoses ?k \<in> set new" by (simp add: new_def)
      qed
      have a4: "tw_frames window = [] \<or> frame_time_ns (hd (tw_frames window)) < ?k \<longrightarrow>
          n_memo_preproc_input_poses ?n' ?k = fpp ! j"
        using eff(2) r(1) slot' by simp
      show "fpp ! j \<noteq> None
               \<and> (\<forall>v. ?memoP ?k = Some v \<longrightarrow> fpp ! j = Some v)
               \<and> (?memoP ?k = None \<longrightarrow> MakePoses ?k \<in> set new)
               \<and> (tw_frames window = [] \<or> frame_time_ns (hd (tw_frames window)) < ?k \<longrightarrow>
                      n_memo_preproc_input_poses ?n' ?k = fpp ! j)"
        by (intro conjI a1 a2 a3 a4)
    qed
    have e: "ext_objects_to_feats ext fod fpp = None \<longrightarrow>
                fst (process_window ext n window) = Raised NoActivityClassification"
      using process_window_no_feats [OF pd' pp'] by blast
    show "(\<forall>j m. j < length (tw_obj_dets window) \<and> tw_obj_dets window ! j = Some m \<longrightarrow>
               fod ! j \<noteq> None
               \<and> (\<forall>v. ?memo (time_to_int (ods_source_stamp m)) = Some v \<longrightarrow> fod ! j = Some v)
               \<and> (?memo (time_to_int (ods_source_stamp m)) = None \<longrightarrow>
                      MakeDetections (time_to_int (ods_source_stamp m)) \<in> set new)
               \<and> (tw_frames window = [] \<or>
                    frame_time_ns (hd (tw_frames window)) < time_to_int (ods_source_stamp m) \<longrightarrow>
                      n_memo_preproc_input ?n' (time_to_int (ods_source_stamp m)) = fod ! j))
          \<and> (\<forall>j m. j < length (tw_patient_joint_kps window) \<and>
               tw_patient_joint_kps window ! j = Some m \<longrightarrow>
               fpp ! j \<noteq> None
               \<and> (\<forall>v. ?memoP (time_to_int (hjp_source_stamp m)) = Some v \<longrightarrow> fpp ! j = Some v)
               \<and> (?memoP (time_to_int (hjp_source_stamp m)) = None \<longrightarrow>
                      MakePoses (time_to_int (hjp_source_stamp m)) \<in> set new)
               \<and> (tw_frames window = [] \<or>
                    frame_time_ns (hd (tw_frames window)) < time_to_int (hjp_source_stamp m) \<longrightarrow>
                      n_memo_preproc_input_poses ?n' (time_to_int (hjp_source_stamp m)) = fpp ! j))
          \<and> (ext_objects_to_feats ext fod fpp = None \<longrightarrow>
                fst (process_window ext n window) = Raised NoActivityClassification)"
      by (intro conjI d p e)
  qed
  have called: "length (tw_obj_dets window) \<le> length (tw_frames window) \<and>
         length (tw_patient_joint_kps window) \<le> length (tw_frames window) \<and>
         (\<forall>m. Some m \<in> set (tw_patient_joint_kps window) \<longrightarrow>
              length (hjp_joints m) \<le> length keypoints_cats) \<longrightarrow>
         (\<exists>fod fpp. ObjectsToFeats fod fpp \<in> set new)"
  proof
    assume wf: "length (tw_obj_dets window) \<le> length (tw_frames window) \<and>
         length (tw_patient_joint_kps window) \<le> length (tw_frames window) \<and>
         (\<forall>m. Some m \<in> set (tw_patient_joint_kps window) \<longrightarrow>
              length (hjp_joints m) \<le> length keypoints_cats)"
    then have l1: "0 + length (tw_obj_dets window) \<le>
        length (replicate (length (tw_frames window)) (None :: ObjectDetectionsLTRB option))"
      and l2: "0 + length (tw_patient_joint_kps window) \<le>
        length (replicate (length (tw_frames window)) (None :: PatientPose list option))"
      and js: "\<forall>m. Some m \<in> set (tw_patient_joint_kps window) \<longrightarrow>
              length (hjp_joints m) \<le> length keypoints_cats"
      by simp_all
    from preproc_detections_total [OF l1, where memo = "?memo"
        and h = "n_memo_preproc_input_id_heap n" and calls = "n_ext_calls n"] pd
    obtain fod where r1: "r1 = Inr fod" by auto
    from preproc_poses_total [OF l2 js, where memo = "?memoP"
        and h = "n_memo_preproc_input_id_heap_poses n" and calls = calls1] pp
    obtain fpp where r2: "r2 = Inr fpp" by auto
    from r1 r2 have "ObjectsToFeats fod fpp \<in> set new" by (simp add: new_def tail_def)
    then show "\<exists>fod fpp. ObjectsToFeats fod fpp \<in> set new" by blast
  qed
  have persist: "\<forall>k v. ?memo k = Some v \<and>
           (tw_frames window = [] \<or> frame_time_ns (hd (tw_frames window)) < k) \<longrightarrow>
           n_memo_preproc_input ?n' k = Some v"
  proof (intro allI impI)
    fix k v
    assume h: "?memo k = Some v \<and>
           (tw_frames window = [] \<or> frame_time_ns (hd (tw_frames window)) < k)"
    then have m1: "memo1 k = Some v" using preproc_detections_keeps [OF pd] by blast
    from eff(3) show "n_memo_preproc_input ?n' k = Some v"
    proof
      assume "n_memo_preproc_input ?n' = memo1"
      with m1 show ?thesis by simp
    next
      assume "\<exists>f0 fs. tw_frames window = f0 # fs \<and> n_memo_preproc_input ?n' =
          fst (snd (evict_memo (time_to_int (fst f0)) memo1 h1))"
      then obtain f0 fs where f: "tw_frames window = f0 # fs"
        "n_memo_preproc_input ?n' = fst (snd (evict_memo (time_to_int (fst f0)) memo1 h1))"
        by blast
      with h have lt: "time_to_int (fst f0) < k" by (simp add: frame_time_ns_def)
      obtain e memo' h' where ev: "evict_memo (time_to_int (fst f0)) memo1 h1 = (e, memo', h')"
        using prod_cases3 by blast
      from evict_memo_keeps [OF ev lt] m1 f(2) ev show ?thesis by simp
    qed
  qed
  have persistP: "\<forall>k v. ?memoP k = Some v \<and>
           (tw_frames window = [] \<or> frame_time_ns (hd (tw_frames window)) < k) \<longrightarrow>
           n_memo_preproc_input_poses ?n' k = Some v"
  proof (intro allI impI)
    fix k v assume h: "?memoP k = Some v \<and>
           (tw_frames window = [] \<or> frame_time_ns (hd (tw_frames window)) < k)"
    then have "memo2 k = Some v" using preproc_poses_keeps [OF pp] by blast
    with h show "n_memo_preproc_input_poses ?n' k = Some v"
      unfolding eff(2) by (simp split: sum.splits)
  qed
  have feats: "n_memo_objects_to_feats_id_heap n = [] \<longrightarrow>
           n_memo_objects_to_feats ?n' = n_memo_objects_to_feats n
           \<and> n_memo_objects_to_feats_id_heap ?n' = []"
    using process_window_feats_memo [of n ext window] by blast
  have init: "n_memo_objects_to_feats (new_ActivityClassifierTCN ws mx lead coco) = Map.empty"
    "n_memo_objects_to_feats_id_heap (new_ActivityClassifierTCN ws mx lead coco) = []"
    by (simp_all add: new_ActivityClassifierTCN_def)
  show ?thesis
    by (rule exI [of _ new])
       (intro conjI calls dist nodet nopose handed called persist persistP feats init)
qed

theorem process_window_memoization_witness:
  "n_memo_preproc_input
     (queue_tuple (snd (rt_loop_iteration example_externals
        (node_with 3 15 [(stamp 0, 0), (stamp 50, 1), (stamp 100, 2)]
           [dets_at 0 1 0, dets_at 50 1 1, dets_at 100 1 2])))
        (dets_at 150 1 3) (stamp 150) 3) 50 = Some (ObjectDetectionsLTRB 50 1)
   \<and> n_memo_preproc_input
     (queue_tuple (snd (rt_loop_iteration example_externals
        (node_with 3 15 [(stamp 0, 0), (stamp 50, 1), (stamp 100, 2)]
           [dets_at 0 1 0, dets_at 50 1 1, dets_at 100 1 2])))
        (dets_at 150 1 3) (stamp 150) 3) 150 = None
   \<and> n_memo_objects_to_feats_id_heap
     (queue_tuple (snd (rt_loop_iteration example_externals
        (node_with 3 15 [(stamp 0, 0), (stamp 50, 1), (stamp 100, 2)]
           [dets_at 0 1 0, dets_at 50 1 1, dets_at 100 1 2])))
        (dets_at 150 1 3) (stamp 150) 3) = []
   \<and> n_ext_calls (snd (process_window example_externals
       (queue_tuple (snd (rt_loop_iteration example_externals
        (node_with 3 15 [(stamp 0, 0), (stamp 50, 1), (stamp 100, 2)]
           [dets_at 0 1 0, dets_at 50 1 1, dets_at 100 1 2])))
        (dets_at 150 1 3) (stamp 150) 3)
       \<lparr>tw_frames = [(stamp 50, 1), (stamp 100, 2), (stamp 150, 3)],
        tw_obj_dets = [Some (dets_at 50 1 9), Some (dets_at 100 1 2), Some (dets_at 150 1 3)],
        tw_patient_joint_kps = [None, None, None]\<rparr>)) =
     n_ext_calls
       (queue_tuple (snd (rt_loop_iteration example_externals
        (node_with 3 15 [(stamp 0, 0), (stamp 50, 1), (stamp 100, 2)]
           [dets_at 0 1 0, dets_at 50 1 1, dets_at 100 1 2])))
        (dets_at 150 1 3) (stamp 150) 3)
     @ [MakeDetections 150,
        ObjectsToFeats [Some (ObjectDetectionsLTRB 50 1), Some (ObjectDetectionsLTRB 100 2),
        Some (ObjectDetectionsLTRB 150 3)] [None, None, None]]
   \<and> n_memo_preproc_input (snd (process_window example_externals
       (queue_tuple (snd (rt_loop_iteration example_externals
        (node_with 3 15 [(stamp 0, 0), (stamp 50, 1), (stamp 100, 2)]
           [dets_at 0 1 0, dets_at 50 1 1, dets_at 100 1 2])))
        (dets_at 150 1 3) (stamp 150) 3)
       \<lparr>tw_frames = [(stamp 50, 1), (stamp 100, 2), (stamp 150, 3)],
        tw_obj_dets = [Some (dets_at 50 1 9), Some (dets_at 100 1 2), Some (dets_at 150 1 3)],
        tw_patient_joint_kps = [None, None, None]\<rparr>)) 150 = Some (ObjectDetectionsLTRB 150 3)
   \<and> n_memo_preproc_input (snd (process_window example_externals
       (queue_tuple (snd (rt_loop_iteration example_externals
        (node_with 3 15 [(stamp 0, 0), (stamp 50, 1), (stamp 100, 2)]
           [dets_at 0 1 0, dets_at 50 1 1, dets_at 100 1 2])))
        (dets_at 150 1 3) (stamp 150) 3)
       \<lparr>tw_frames = [(stamp 50, 1), (stamp 100, 2), (stamp 150, 3)],
        tw_obj_dets = [Some (dets_at 50 1 9), Some (dets_at 100 1 2), Some (dets_at 150 1 3)],
        tw_patient_joint_kps = [None, None, None]\<rparr>)) 100 = Some (ObjectDetectionsLTRB 100 2)
   \<and> n_memo_objects_to_feats_id_heap (snd (process_window example_externals
       (queue_tuple (snd (rt_loop_iteration example_externals
        (node_with 3 15 [(stamp 0, 0), (stamp 50, 1), (stamp 100, 2)]
           [dets_at 0 1 0, dets_at 50 1 1, dets_at 100 1 2])))
        (dets_at 150 1 3) (stamp 150) 3)
       \<lparr>tw_frames = [(stamp 50, 1), (stamp 100, 2), (stamp 150, 3)],
        tw_obj_dets = [Some (dets_at 50 1 9), Some (dets_at 100 1 2), Some (dets_at 150 1 3)],
        tw_patient_joint_kps = [None, None, None]\<rparr>)) = []"
proof -
  let ?Nq = "(queue_tuple (snd (rt_loop_iteration example_externals
        (node_with 3 15 [(stamp 0, 0), (stamp 50, 1), (stamp 100, 2)]
           [dets_at 0 1 0, dets_at 50 1 1, dets_at 100 1 2])))
        (dets_at 150 1 3) (stamp 150) 3)"
  let ?W2 = "\<lparr>tw_frames = [(stamp 50, 1), (stamp 100, 2), (stamp 150, 3)],
        tw_obj_dets = [Some (dets_at 50 1 9), Some (dets_at 100 1 2), Some (dets_at 150 1 3)],
        tw_patient_joint_kps = [None, None, None]\<rparr>"
  let ?F = "[Some (ObjectDetectionsLTRB 50 1), Some (ObjectDetectionsLTRB 100 2),
        Some (ObjectDetectionsLTRB 150 3)]"
  let ?P = "[None, None, None] :: PatientPose list option list"
  let ?n' = "snd (process_window example_externals ?Nq ?W2)"
  note T = process_window_memoization [of example_externals ?Nq ?W2 3 15 False False]
  have w1: "n_memo_preproc_input ?Nq 50 = Some (ObjectDetectionsLTRB 50 1)"
    by (simp add: eval_defs)
  have w2: "n_memo_preproc_input ?Nq 150 = None" by (simp add: eval_defs)
  have w3: "n_memo_objects_to_feats_id_heap ?Nq = []" by (simp add: eval_defs)
  have w4: "n_ext_calls ?n' = n_ext_calls ?Nq @ [MakeDetections 150, ObjectsToFeats ?F ?P]"
    by (simp add: eval_defs)
  have w6: "n_memo_preproc_input ?n' 100 = Some (ObjectDetectionsLTRB 100 2)"
    by (simp add: eval_defs)
  have w7: "n_memo_objects_to_feats_id_heap ?n' = []" by (simp add: eval_defs)
  have w5: "n_memo_preproc_input ?n' 150 = Some (ObjectDetectionsLTRB 150 3)"
  proof (rule exE [OF T], elim conjE)
    fix new
    assume a: "n_ext_calls ?n' = n_ext_calls ?Nq @ new"
    assume h: "\<forall>fod fpp. ObjectsToFeats fod fpp \<in> set new \<longrightarrow>
          (\<forall>j m. j < length (tw_obj_dets ?W2) \<and> tw_obj_dets ?W2 ! j = Some m \<longrightarrow>
               fod ! j \<noteq> None
               \<and> (\<forall>v. n_memo_preproc_input ?Nq (time_to_int (ods_source_stamp m)) = Some v \<longrightarrow>
                      fod ! j = Some v)
               \<and> (n_memo_preproc_input ?Nq (time_to_int (ods_source_stamp m)) = None \<longrightarrow>
                      MakeDetections (time_to_int (ods_source_stamp m)) \<in> set new)
               \<and> (tw_frames ?W2 = [] \<or>
                    frame_time_ns (hd (tw_frames ?W2)) < time_to_int (ods_source_stamp m) \<longrightarrow>
                      n_memo_preproc_input (snd (process_window example_externals ?Nq ?W2))
                        (time_to_int (ods_source_stamp m)) = fod ! j))
          \<and> (\<forall>j m. j < length (tw_patient_joint_kps ?W2) \<and>
               tw_patient_joint_kps ?W2 ! j = Some m \<longrightarrow>
               fpp ! j \<noteq> None
               \<and> (\<forall>v. n_memo_preproc_input_poses ?Nq (time_to_int (hjp_source_stamp m)) = Some v \<longrightarrow>
                      fpp ! j = Some v)
               \<and> (n_memo_preproc_input_poses ?Nq (time_to_int (hjp_source_stamp m)) = None \<longrightarrow>
                      MakePoses (time_to_int (hjp_source_stamp m)) \<in> set new)
               \<and> (tw_frames ?W2 = [] \<or>
                    frame_time_ns (hd (tw_frames ?W2)) < time_to_int (hjp_source_stamp m) \<longrightarrow>
                      n_memo_preproc_input_poses (snd (process_window example_externals ?Nq ?W2))
                        (time_to_int (hjp_source_stamp m)) = fpp ! j))
          \<and> (ext_objects_to_feats example_externals fod fpp = None \<longrightarrow>
                fst (process_window example_externals ?Nq ?W2) = Raised NoActivityClassification)"
    from a w4 have new: "new = [MakeDetections 150, ObjectsToFeats ?F ?P]" by simp
    then have in_new: "ObjectsToFeats ?F ?P \<in> set new" by simp
    note h1 = h [rule_format, OF in_new, THEN conjunct1, rule_format, of 2 "dets_at 150 1 3"]
    have pre: "2 < length (tw_obj_dets ?W2) \<and> tw_obj_dets ?W2 ! 2 = Some (dets_at 150 1 3)"
      by simp
    from h1 [OF pre] have "tw_frames ?W2 = [] \<or>
        frame_time_ns (hd (tw_frames ?W2)) < time_to_int (ods_source_stamp (dets_at 150 1 3)) \<longrightarrow>
        n_memo_preproc_input ?n' (time_to_int (ods_source_stamp (dets_at 150 1 3))) = ?F ! 2"
      by blast
    then show ?thesis
      by (simp add: stamp_def dets_at_def time_to_int_def frame_time_ns_def)
  qed
  show ?thesis by (intro conjI w1 w2 w3 w4 w5 w6 w7)
qed

section \<open>Properties of replay pacing\<close>

lemma exec_append:
  "exec ext dset s (as @ bs) =
     (case exec ext dset s as of None \<Rightarrow> None | Some s' \<Rightarrow> exec ext dset s' bs)"
  by (induction as arbitrary: s) (auto split: option.splits)

lemma rt_handle_window_extracted:
  "n_window_extracted_time_ns (snd (rt_handle_window ext n window)) =
     n_window_extracted_time_ns n"
proof (cases "window_valid n window")
  case False
  then show ?thesis by (auto simp: rt_handle_window_def split: sum.splits)
next
  case True
  show ?thesis
  proof (cases "tw_frames window")
    case Nil
    with True show ?thesis by (simp add: rt_handle_window_def)
  next
    case (Cons f0 fs)
    show ?thesis
    proof (cases fs)
      case Nil
      with Cons True show ?thesis by (simp add: rt_handle_window_def)
    next
      case (Cons f1 fs')
      let ?n1 = "n\<lparr>n_buffer := tb_clear_before (n_buffer n) (time_to_int (fst f1))\<rparr>"
      obtain r2 n2 where pw: "process_window ext ?n1 window = (r2, n2)" by fastforce
      have "n_window_extracted_time_ns n2 = n_window_extracted_time_ns n"
        using process_window_frame [of ext ?n1 window] pw by simp
      with True Cons \<open>tw_frames window = f0 # fs\<close> pw show ?thesis
        by (auto simp: rt_handle_window_def Let_def split: outcome.splits)
    qed
  qed
qed

lemma rt_thread_step_shape:
  assumes "rt_thread_step ext s = Some s'"
  shows "sys_coco_thread s' = sys_coco_thread s \<and>
     ((sys_trace s' = sys_trace s \<and>
       n_window_extracted_time_ns (sys_node s') = n_window_extracted_time_ns (sys_node s))
      \<or> (\<exists>v. sys_trace s' = sys_trace s @ [ExtractedRecorded v] \<and>
             n_window_extracted_time_ns (sys_node s') = v))"
proof (cases "sys_rt_thread s")
  case RtLoopTest
  with assms show ?thesis by (auto simp: rt_thread_step_def)
next
  case RtWaiting
  with assms show ?thesis by (auto simp: rt_thread_step_def split: if_splits)
next
  case RtExtracting
  with assms show ?thesis by (auto simp: rt_thread_step_def split: sum.splits)
next
  case (RtRecording w)
  with assms show ?thesis by (auto simp: rt_thread_step_def rt_record_extracted_def)
next
  case (RtHandling w)
  obtain r n' where h: "rt_handle_window ext (sys_node s) w = (r, n')" by fastforce
  with rt_handle_window_extracted [of ext "sys_node s" w]
  have "n_window_extracted_time_ns n' = n_window_extracted_time_ns (sys_node s)" by simp
  with assms RtHandling h show ?thesis
    by (auto simp: rt_thread_step_def split: outcome.splits)
next
  case RtEnded
  with assms show ?thesis by (simp add: rt_thread_step_def)
next
  case (RtDied e)
  with assms show ?thesis by (simp add: rt_thread_step_def)
qed

lemma det_callback_frame:
  "n_window_extracted_time_ns (sys_node (det_callback s msg)) =
     n_window_extracted_time_ns (sys_node s)"
  by (simp add: det_callback_def tb_queue_object_detections_def Let_def del: rt_alive.simps)

lemma img_ts_callback_frame:
  "n_window_extracted_time_ns (sys_node (img_ts_callback s msg)) =
     n_window_extracted_time_ns (sys_node s)"
  by (simp add: img_ts_callback_def tb_queue_image_def Let_def del: rt_alive.simps)

lemma coco_thread_step_shape:
  assumes "coco_thread_step dset s = Some s'"
  shows "n_window_extracted_time_ns (sys_node s') = n_window_extracted_time_ns (sys_node s) \<and>
     ((sys_trace s' = sys_trace s \<and> (\<forall>i. sys_coco_thread s' \<noteq> CocoWaiting i) \<and>
        (\<forall>i. sys_coco_thread s = CocoWaiting i \<longrightarrow>
           (\<exists>x. n_window_extracted_time_ns (sys_node s) = Some x \<and>
                time_to_int (coco_image_ts dset i) \<le> x)))
      \<or> (\<exists>i. sys_coco_thread s = CocoQueueDets i \<and>
             sys_trace s' = sys_trace s @ [TuplePushStarted (time_to_int (coco_image_ts dset i))])
      \<or> (\<exists>i. sys_coco_thread s = CocoQueueImage i \<and> sys_coco_thread s' = CocoWaiting i \<and>
             sys_trace s' = sys_trace s @ [TuplePushed (time_to_int (coco_image_ts dset i))]))"
proof (cases "sys_coco_thread s")
  case CocoLoading
  with assms show ?thesis by (auto simp: coco_thread_step_def split: if_splits)
next
  case (CocoQueueDets i)
  with assms show ?thesis
    by (auto simp: coco_thread_step_def det_callback_frame split: if_splits)
next
  case (CocoQueueImage i)
  with assms show ?thesis
    by (auto simp: coco_thread_step_def img_ts_callback_frame)
next
  case (CocoWaiting i)
  with assms show ?thesis
    by (auto simp: coco_thread_step_def split: option.splits if_splits)
next
  case CocoEnded
  with assms show ?thesis by (simp add: coco_thread_step_def)
qed


lemma snoc_eq_split:
  assumes "xs @ [e] = pre @ y # post"
  shows "(post = [] \<and> xs = pre \<and> e = y) \<or> (\<exists>post'. post = post' @ [e] \<and> xs = pre @ y # post')"
proof (cases post rule: rev_cases)
  case Nil
  with assms show ?thesis by simp
next
  case (snoc post' z)
  with assms have "xs @ [e] = (pre @ y # post') @ [z]" by simp
  then have "xs = pre @ y # post' \<and> e = z" by (simp only: append1_eq_conv)
  with snoc show ?thesis by simp
qed

lemma paced_snoc:
  assumes old: "\<forall>pre post t t'. tr = pre @ TuplePushStarted t' # post \<and> TuplePushed t \<in> set pre \<longrightarrow>
      (\<exists>x. ExtractedRecorded (Some x) \<in> set pre \<and> t \<le> x)"
    and new: "\<forall>t'. ev = TuplePushStarted t' \<longrightarrow>
      (\<forall>t. TuplePushed t \<in> set tr \<longrightarrow> (\<exists>x. ExtractedRecorded (Some x) \<in> set tr \<and> t \<le> x))"
  shows "\<forall>pre post t t'. tr @ [ev] = pre @ TuplePushStarted t' # post \<and> TuplePushed t \<in> set pre \<longrightarrow>
      (\<exists>x. ExtractedRecorded (Some x) \<in> set pre \<and> t \<le> x)"
proof (intro allI impI)
  fix pre post t t'
  assume h: "tr @ [ev] = pre @ TuplePushStarted t' # post \<and> TuplePushed t \<in> set pre"
  from snoc_eq_split [of tr ev pre "TuplePushStarted t'" post] h
  consider "post = []" "tr = pre" "ev = TuplePushStarted t'"
    | post' where "tr = pre @ TuplePushStarted t' # post'" by blast
  then show "\<exists>x. ExtractedRecorded (Some x) \<in> set pre \<and> t \<le> x"
  proof cases
    case 1
    with new h show ?thesis by blast
  next
    case 2
    with old h show ?thesis by blast
  qed
qed

lemma step_inv:
  assumes st: "step ext dset a s = Some s'"
    and I1: "\<forall>x. n_window_extracted_time_ns (sys_node s) = Some x \<longrightarrow>
        ExtractedRecorded (Some x) \<in> set (sys_trace s)"
    and I2: "\<forall>t. TuplePushed t \<in> set (sys_trace s) \<longrightarrow>
        (\<exists>x. ExtractedRecorded (Some x) \<in> set (sys_trace s) \<and> t \<le> x) \<or>
        (\<exists>i. sys_coco_thread s = CocoWaiting i \<and> t = time_to_int (coco_image_ts dset i))"
    and I3: "\<forall>pre post t t'. sys_trace s = pre @ TuplePushStarted t' # post \<and>
        TuplePushed t \<in> set pre \<longrightarrow> (\<exists>x. ExtractedRecorded (Some x) \<in> set pre \<and> t \<le> x)"
  shows "(\<forall>x. n_window_extracted_time_ns (sys_node s') = Some x \<longrightarrow>
        ExtractedRecorded (Some x) \<in> set (sys_trace s'))
    \<and> (\<forall>t. TuplePushed t \<in> set (sys_trace s') \<longrightarrow>
        (\<exists>x. ExtractedRecorded (Some x) \<in> set (sys_trace s') \<and> t \<le> x) \<or>
        (\<exists>i. sys_coco_thread s' = CocoWaiting i \<and> t = time_to_int (coco_image_ts dset i)))
    \<and> (\<forall>pre post t t'. sys_trace s' = pre @ TuplePushStarted t' # post \<and>
        TuplePushed t \<in> set pre \<longrightarrow> (\<exists>x. ExtractedRecorded (Some x) \<in> set pre \<and> t \<le> x))"
proof (cases a)
  case StopNode
  with st have "s' = rt_stop s" by simp
  then have "sys_node s' = sys_node s" "sys_trace s' = sys_trace s"
    "sys_coco_thread s' = sys_coco_thread s" by (simp_all add: rt_stop_def)
  with I1 I2 I3 show ?thesis by simp
next
  case RunRt
  with st have rs: "rt_thread_step ext s = Some s'" by simp
  from rt_thread_step_shape [OF rs] have co: "sys_coco_thread s' = sys_coco_thread s"
    and sh: "(sys_trace s' = sys_trace s \<and>
       n_window_extracted_time_ns (sys_node s') = n_window_extracted_time_ns (sys_node s))
      \<or> (\<exists>v. sys_trace s' = sys_trace s @ [ExtractedRecorded v] \<and>
             n_window_extracted_time_ns (sys_node s') = v)" by simp_all
  from sh show ?thesis
  proof
    assume "sys_trace s' = sys_trace s \<and>
       n_window_extracted_time_ns (sys_node s') = n_window_extracted_time_ns (sys_node s)"
    with co I1 I2 I3 show ?thesis by simp
  next
    assume "\<exists>v. sys_trace s' = sys_trace s @ [ExtractedRecorded v] \<and>
             n_window_extracted_time_ns (sys_node s') = v"
    then obtain v where v: "sys_trace s' = sys_trace s @ [ExtractedRecorded v]"
      "n_window_extracted_time_ns (sys_node s') = v" by blast
    have a: "\<forall>x. n_window_extracted_time_ns (sys_node s') = Some x \<longrightarrow>
        ExtractedRecorded (Some x) \<in> set (sys_trace s')" using v by simp
    have b: "\<forall>t. TuplePushed t \<in> set (sys_trace s') \<longrightarrow>
        (\<exists>x. ExtractedRecorded (Some x) \<in> set (sys_trace s') \<and> t \<le> x) \<or>
        (\<exists>i. sys_coco_thread s' = CocoWaiting i \<and> t = time_to_int (coco_image_ts dset i))"
      using I2 v(1) co by auto
    have c: "\<forall>pre post t t'. sys_trace s' = pre @ TuplePushStarted t' # post \<and>
        TuplePushed t \<in> set pre \<longrightarrow> (\<exists>x. ExtractedRecorded (Some x) \<in> set pre \<and> t \<le> x)"
      unfolding v(1) by (rule paced_snoc [OF I3]) simp
    from a b c show ?thesis by blast
  qed
next
  case RunCoco
  with st have cs: "coco_thread_step dset s = Some s'" by simp
  from coco_thread_step_shape [OF cs]
  have ex: "n_window_extracted_time_ns (sys_node s') = n_window_extracted_time_ns (sys_node s)"
    and sh: "(sys_trace s' = sys_trace s \<and> (\<forall>i. sys_coco_thread s' \<noteq> CocoWaiting i) \<and>
        (\<forall>i. sys_coco_thread s = CocoWaiting i \<longrightarrow>
           (\<exists>x. n_window_extracted_time_ns (sys_node s) = Some x \<and>
                time_to_int (coco_image_ts dset i) \<le> x)))
      \<or> (\<exists>i. sys_coco_thread s = CocoQueueDets i \<and>
             sys_trace s' = sys_trace s @ [TuplePushStarted (time_to_int (coco_image_ts dset i))])
      \<or> (\<exists>i. sys_coco_thread s = CocoQueueImage i \<and> sys_coco_thread s' = CocoWaiting i \<and>
             sys_trace s' = sys_trace s @ [TuplePushed (time_to_int (coco_image_ts dset i))])"
    by simp_all
  from sh consider
    (quiet) "sys_trace s' = sys_trace s" "\<forall>i. sys_coco_thread s' \<noteq> CocoWaiting i"
      "\<forall>i. sys_coco_thread s = CocoWaiting i \<longrightarrow>
           (\<exists>x. n_window_extracted_time_ns (sys_node s) = Some x \<and>
                time_to_int (coco_image_ts dset i) \<le> x)"
    | (start) i where "sys_coco_thread s = CocoQueueDets i"
        "sys_trace s' = sys_trace s @ [TuplePushStarted (time_to_int (coco_image_ts dset i))]"
    | (pushed) i where "sys_coco_thread s = CocoQueueImage i" "sys_coco_thread s' = CocoWaiting i"
        "sys_trace s' = sys_trace s @ [TuplePushed (time_to_int (coco_image_ts dset i))]"
    by blast
  then show ?thesis
  proof cases
    case quiet
    have a: "\<forall>x. n_window_extracted_time_ns (sys_node s') = Some x \<longrightarrow>
        ExtractedRecorded (Some x) \<in> set (sys_trace s')" using I1 ex quiet(1) by simp
    have b: "\<forall>t. TuplePushed t \<in> set (sys_trace s') \<longrightarrow>
        (\<exists>x. ExtractedRecorded (Some x) \<in> set (sys_trace s') \<and> t \<le> x) \<or>
        (\<exists>i. sys_coco_thread s' = CocoWaiting i \<and> t = time_to_int (coco_image_ts dset i))"
    proof (intro allI impI)
      fix t assume "TuplePushed t \<in> set (sys_trace s')"
      then have t: "TuplePushed t \<in> set (sys_trace s)" using quiet(1) by simp
      with I2 have "(\<exists>x. ExtractedRecorded (Some x) \<in> set (sys_trace s) \<and> t \<le> x) \<or>
        (\<exists>i. sys_coco_thread s = CocoWaiting i \<and> t = time_to_int (coco_image_ts dset i))"
        by blast
      then have "\<exists>x. ExtractedRecorded (Some x) \<in> set (sys_trace s) \<and> t \<le> x"
      proof
        assume "\<exists>x. ExtractedRecorded (Some x) \<in> set (sys_trace s) \<and> t \<le> x"
        then show ?thesis .
      next
        assume "\<exists>i. sys_coco_thread s = CocoWaiting i \<and> t = time_to_int (coco_image_ts dset i)"
        then obtain i where i: "sys_coco_thread s = CocoWaiting i"
          "t = time_to_int (coco_image_ts dset i)" by blast
        with quiet(3) obtain x where "n_window_extracted_time_ns (sys_node s) = Some x"
          "t \<le> x" by blast
        with I1 show ?thesis by blast
      qed
      then show "(\<exists>x. ExtractedRecorded (Some x) \<in> set (sys_trace s') \<and> t \<le> x) \<or>
        (\<exists>i. sys_coco_thread s' = CocoWaiting i \<and> t = time_to_int (coco_image_ts dset i))"
        using quiet(1) by simp
    qed
    have c: "\<forall>pre post t t'. sys_trace s' = pre @ TuplePushStarted t' # post \<and>
        TuplePushed t \<in> set pre \<longrightarrow> (\<exists>x. ExtractedRecorded (Some x) \<in> set pre \<and> t \<le> x)"
      using I3 quiet(1) by simp
    from a b c show ?thesis by blast
  next
    case (start i)
    have acked: "\<forall>t. TuplePushed t \<in> set (sys_trace s) \<longrightarrow>
        (\<exists>x. ExtractedRecorded (Some x) \<in> set (sys_trace s) \<and> t \<le> x)"
      using I2 start(1) by auto
    have a: "\<forall>x. n_window_extracted_time_ns (sys_node s') = Some x \<longrightarrow>
        ExtractedRecorded (Some x) \<in> set (sys_trace s')" using I1 ex start(2) by simp
    have b: "\<forall>t. TuplePushed t \<in> set (sys_trace s') \<longrightarrow>
        (\<exists>x. ExtractedRecorded (Some x) \<in> set (sys_trace s') \<and> t \<le> x) \<or>
        (\<exists>i. sys_coco_thread s' = CocoWaiting i \<and> t = time_to_int (coco_image_ts dset i))"
      using acked start(2) by auto
    have c: "\<forall>pre post t t'. sys_trace s' = pre @ TuplePushStarted t' # post \<and>
        TuplePushed t \<in> set pre \<longrightarrow> (\<exists>x. ExtractedRecorded (Some x) \<in> set pre \<and> t \<le> x)"
      unfolding start(2) using acked by (intro paced_snoc [OF I3]) blast
    from a b c show ?thesis by blast
  next
    case (pushed i)
    have acked: "\<forall>t. TuplePushed t \<in> set (sys_trace s) \<longrightarrow>
        (\<exists>x. ExtractedRecorded (Some x) \<in> set (sys_trace s) \<and> t \<le> x)"
      using I2 pushed(1) by auto
    have a: "\<forall>x. n_window_extracted_time_ns (sys_node s') = Some x \<longrightarrow>
        ExtractedRecorded (Some x) \<in> set (sys_trace s')" using I1 ex pushed(3) by simp
    have b: "\<forall>t. TuplePushed t \<in> set (sys_trace s') \<longrightarrow>
        (\<exists>x. ExtractedRecorded (Some x) \<in> set (sys_trace s') \<and> t \<le> x) \<or>
        (\<exists>i. sys_coco_thread s' = CocoWaiting i \<and> t = time_to_int (coco_image_ts dset i))"
      using acked pushed(2,3) by auto
    have c: "\<forall>pre post t t'. sys_trace s' = pre @ TuplePushStarted t' # post \<and>
        TuplePushed t \<in> set pre \<longrightarrow> (\<exists>x. ExtractedRecorded (Some x) \<in> set pre \<and> t \<le> x)"
      unfolding pushed(3) by (rule paced_snoc [OF I3]) simp
    from a b c show ?thesis by blast
  qed
qed


lemma exec_inv:
  assumes "exec ext dset s acts = Some s'"
    and "\<forall>x. n_window_extracted_time_ns (sys_node s) = Some x \<longrightarrow>
        ExtractedRecorded (Some x) \<in> set (sys_trace s)"
    and "\<forall>t. TuplePushed t \<in> set (sys_trace s) \<longrightarrow>
        (\<exists>x. ExtractedRecorded (Some x) \<in> set (sys_trace s) \<and> t \<le> x) \<or>
        (\<exists>i. sys_coco_thread s = CocoWaiting i \<and> t = time_to_int (coco_image_ts dset i))"
    and "\<forall>pre post t t'. sys_trace s = pre @ TuplePushStarted t' # post \<and>
        TuplePushed t \<in> set pre \<longrightarrow> (\<exists>x. ExtractedRecorded (Some x) \<in> set pre \<and> t \<le> x)"
  shows "(\<forall>x. n_window_extracted_time_ns (sys_node s') = Some x \<longrightarrow>
        ExtractedRecorded (Some x) \<in> set (sys_trace s'))
    \<and> (\<forall>t. TuplePushed t \<in> set (sys_trace s') \<longrightarrow>
        (\<exists>x. ExtractedRecorded (Some x) \<in> set (sys_trace s') \<and> t \<le> x) \<or>
        (\<exists>i. sys_coco_thread s' = CocoWaiting i \<and> t = time_to_int (coco_image_ts dset i)))
    \<and> (\<forall>pre post t t'. sys_trace s' = pre @ TuplePushStarted t' # post \<and>
        TuplePushed t \<in> set pre \<longrightarrow> (\<exists>x. ExtractedRecorded (Some x) \<in> set pre \<and> t \<le> x))"
  using assms
proof (induction acts arbitrary: s)
  case Nil
  then show ?case by simp
next
  case (Cons a acts)
  from Cons.prems(1) obtain s1 where s1: "step ext dset a s = Some s1"
    "exec ext dset s1 acts = Some s'"
    by (auto split: option.splits)
  from step_inv [OF s1(1) Cons.prems(2) Cons.prems(3) Cons.prems(4)]
  show ?case using Cons.IH [OF s1(2)] by blast
qed

text \<open>
  Claim C8. In replay mode, along every schedule of the two threads from the constructed
  node: whenever the replay thread starts pushing a tuple, for every tuple it pushed before
  (frame timestamp \<open>t\<close>) the runtime loop has already extracted a window and recorded a
  last-extracted trailing timestamp of at least \<open>t\<close>. The thread leaves its wait for the
  tuple at position \<open>i\<close> only in a state where the recorded last-extracted time is not
  \<open>None\<close> and at least that tuple's timestamp, a value the runtime loop recorded; while
  the recorded time is \<open>None\<close> or smaller, the replay thread has no step.
\<close>

theorem replay_backpressure:
  assumes "exec ext dset (initial_system window_size buffer_max_size_nsec lead) acts = Some s"
  shows "(\<forall>pre post t t'. sys_trace s = pre @ TuplePushStarted t' # post \<and>
        TuplePushed t \<in> set pre \<longrightarrow> (\<exists>x. ExtractedRecorded (Some x) \<in> set pre \<and> t \<le> x))
    \<and> (\<forall>i s'. sys_coco_thread s = CocoWaiting i \<and> step ext dset RunCoco s = Some s' \<longrightarrow>
        (\<exists>x. n_window_extracted_time_ns (sys_node s) = Some x \<and>
             time_to_int (coco_image_ts dset i) \<le> x \<and>
             ExtractedRecorded (Some x) \<in> set (sys_trace s)))
    \<and> (\<forall>i. sys_coco_thread s = CocoWaiting i \<and>
        (\<forall>x. n_window_extracted_time_ns (sys_node s) = Some x \<longrightarrow>
             x < time_to_int (coco_image_ts dset i)) \<longrightarrow>
        step ext dset RunCoco s = None)"
proof -
  let ?s0 = "initial_system window_size buffer_max_size_nsec lead"
  have i1: "\<forall>x. n_window_extracted_time_ns (sys_node ?s0) = Some x \<longrightarrow>
        ExtractedRecorded (Some x) \<in> set (sys_trace ?s0)"
    by (simp add: initial_system_def new_ActivityClassifierTCN_def)
  have i2: "\<forall>t. TuplePushed t \<in> set (sys_trace ?s0) \<longrightarrow>
        (\<exists>x. ExtractedRecorded (Some x) \<in> set (sys_trace ?s0) \<and> t \<le> x) \<or>
        (\<exists>i. sys_coco_thread ?s0 = CocoWaiting i \<and> t = time_to_int (coco_image_ts dset i))"
    by (simp add: initial_system_def)
  have i3: "\<forall>pre post t t'. sys_trace ?s0 = pre @ TuplePushStarted t' # post \<and>
        TuplePushed t \<in> set pre \<longrightarrow> (\<exists>x. ExtractedRecorded (Some x) \<in> set pre \<and> t \<le> x)"
    by (simp add: initial_system_def)
  note inv = exec_inv [OF assms i1 i2 i3]
  have a: "\<forall>pre post t t'. sys_trace s = pre @ TuplePushStarted t' # post \<and>
        TuplePushed t \<in> set pre \<longrightarrow> (\<exists>x. ExtractedRecorded (Some x) \<in> set pre \<and> t \<le> x)"
    using inv by blast
  have b: "\<forall>i s'. sys_coco_thread s = CocoWaiting i \<and> step ext dset RunCoco s = Some s' \<longrightarrow>
        (\<exists>x. n_window_extracted_time_ns (sys_node s) = Some x \<and>
             time_to_int (coco_image_ts dset i) \<le> x \<and>
             ExtractedRecorded (Some x) \<in> set (sys_trace s))"
  proof (intro allI impI)
    fix i s'
    assume h: "sys_coco_thread s = CocoWaiting i \<and> step ext dset RunCoco s = Some s'"
    then obtain x where x: "n_window_extracted_time_ns (sys_node s) = Some x"
      "time_to_int (coco_image_ts dset i) \<le> x"
      by (auto simp: coco_thread_step_def split: option.splits if_splits)
    with inv have "ExtractedRecorded (Some x) \<in> set (sys_trace s)" by blast
    with x show "\<exists>x. n_window_extracted_time_ns (sys_node s) = Some x \<and>
             time_to_int (coco_image_ts dset i) \<le> x \<and>
             ExtractedRecorded (Some x) \<in> set (sys_trace s)" by blast
  qed
  have c: "\<forall>i. sys_coco_thread s = CocoWaiting i \<and>
        (\<forall>x. n_window_extracted_time_ns (sys_node s) = Some x \<longrightarrow>
             x < time_to_int (coco_image_ts dset i)) \<longrightarrow>
        step ext dset RunCoco s = None"
    by (auto simp: coco_thread_step_def split: option.splits)
  show ?thesis by (intro conjI a b c)
qed

theorem replay_backpressure_witness:
  "exec example_externals example_dataset (initial_system 2 15 False)
       [RunCoco, RunCoco, RunCoco, RunRt, RunRt, RunRt, RunRt, RunCoco, RunCoco] =
     Some (the (exec example_externals example_dataset (initial_system 2 15 False)
       [RunCoco, RunCoco, RunCoco, RunRt, RunRt, RunRt, RunRt, RunCoco, RunCoco]))
   \<and> sys_trace (the (exec example_externals example_dataset (initial_system 2 15 False)
       [RunCoco, RunCoco, RunCoco, RunRt, RunRt, RunRt, RunRt, RunCoco, RunCoco])) =
     [TuplePushStarted 10, TuplePushed 10, ExtractedRecorded (Some 10), TuplePushStarted 20]
   \<and> sys_coco_thread (the (exec example_externals example_dataset (initial_system 2 15 False)
       [RunCoco, RunCoco, RunCoco, RunRt, RunRt, RunRt])) = CocoWaiting 0
   \<and> exec example_externals example_dataset (initial_system 2 15 False)
       [RunCoco, RunCoco, RunCoco, RunRt, RunRt, RunRt, RunCoco] = None
   \<and> exec example_externals example_dataset (initial_system 2 15 False)
       [RunCoco, RunCoco, RunCoco, RunCoco] = None"
  using replay_backpressure [of example_externals example_dataset 2 15 False
      "[RunCoco, RunCoco, RunCoco, RunRt, RunRt, RunRt, RunRt, RunCoco, RunCoco]"
      "the (exec example_externals example_dataset (initial_system 2 15 False)
         [RunCoco, RunCoco, RunCoco, RunRt, RunRt, RunRt, RunRt, RunCoco, RunCoco])"]
  by (simp add: eval_defs example_dataset_def initial_system_def coco_thread_step_def
      rt_thread_step_def det_callback_def img_ts_callback_def coco_sorted_images_def
      coco_image_ts_def coco_det_msg_def)

end
